(* ===== verification/Prelude.thy ===== *)
theory Prelude
  imports Main "HOL-Library.Word" "HOL-Library.List_Lexorder" "HOL-Library.Product_Lexorder"
begin

text \<open>
  Shared vocabulary of the development: Rust's machine integers as bounded integers with their
  saturating and checking conversions, \<^verbatim>\<open>Result\<close> as a sum type with the \<^verbatim>\<open>?\<close> operator as
  \<open>and_then\<close>, the string primitives of the standard library the sources call, and list
  lemmas several components need.  Fixed-width values are integers together with explicit range
  checks; bytes are 8-bit words, so byte strings carry the lexicographic order of SQL's
  \<^verbatim>\<open>BYTEA\<close> and rows of keys the order of SQL row comparison.
\<close>

named_theorems res_simps \<open>rewrite rules for results\<close>

type_synonym byte = "8 word"
type_synonym bytes = "byte list"
type_synonym i16 = int
type_synonym i32 = int
type_synonym i64 = int
type_synonym u16 = int
type_synonym u32 = int
type_synonym u64 = int
type_synonym u128 = int
type_synonym timestamp = int

section \<open>Machine integers\<close>

abbreviation i32_MAX :: int where "i32_MAX \<equiv> 2147483647"
abbreviation i64_MAX :: int where "i64_MAX \<equiv> 9223372036854775807"
abbreviation i64_MIN :: int where "i64_MIN \<equiv> -9223372036854775808"
abbreviation u32_MAX :: int where "u32_MAX \<equiv> 4294967295"
abbreviation u64_MAX :: int where "u64_MAX \<equiv> 18446744073709551615"

definition in_i64 :: "int \<Rightarrow> bool" where
  "in_i64 n \<longleftrightarrow> i64_MIN \<le> n \<and> n \<le> i64_MAX"

definition in_u64 :: "int \<Rightarrow> bool" where
  "in_u64 n \<longleftrightarrow> 0 \<le> n \<and> n \<le> u64_MAX"

definition in_u32 :: "int \<Rightarrow> bool" where
  "in_u32 n \<longleftrightarrow> 0 \<le> n \<and> n \<le> u32_MAX"

text \<open>\<^verbatim>\<open>i64::try_from\<close>, \<^verbatim>\<open>i32::try_from\<close> and \<^verbatim>\<open>u64::try_from\<close>.\<close>

definition i64_try_from :: "int \<Rightarrow> i64 option" where
  "i64_try_from n = (if i64_MIN \<le> n \<and> n \<le> i64_MAX then Some n else None)"

definition i32_try_from :: "int \<Rightarrow> i32 option" where
  "i32_try_from n = (if -2147483648 \<le> n \<and> n \<le> i32_MAX then Some n else None)"

definition u64_try_from :: "int \<Rightarrow> u64 option" where
  "u64_try_from n = (if 0 \<le> n \<and> n \<le> u64_MAX then Some n else None)"

definition u32_try_from :: "int \<Rightarrow> u32 option" where
  "u32_try_from n = (if 0 \<le> n \<and> n \<le> u32_MAX then Some n else None)"

definition unwrap_or :: "'a option \<Rightarrow> 'a \<Rightarrow> 'a" where
  "unwrap_or x d = (case x of Some v \<Rightarrow> v | None \<Rightarrow> d)"

definition opt_all :: "('a \<Rightarrow> bool) \<Rightarrow> 'a option \<Rightarrow> bool" where
  "opt_all P x = (case x of Some v \<Rightarrow> P v | None \<Rightarrow> True)"

lemma unwrap_or_simps [simp]: "unwrap_or (Some v) d = v" "unwrap_or None d = d"
  by (simp_all add: unwrap_or_def)

definition saturate :: "int \<Rightarrow> int \<Rightarrow> int \<Rightarrow> int" where
  "saturate lo hi n = (if n < lo then lo else if hi < n then hi else n)"

definition i64_saturating_add :: "i64 \<Rightarrow> i64 \<Rightarrow> i64" where
  "i64_saturating_add a b = saturate i64_MIN i64_MAX (a + b)"

definition i64_saturating_sub :: "i64 \<Rightarrow> i64 \<Rightarrow> i64" where
  "i64_saturating_sub a b = saturate i64_MIN i64_MAX (a - b)"

definition u64_saturating_add :: "u64 \<Rightarrow> u64 \<Rightarrow> u64" where
  "u64_saturating_add a b = saturate 0 u64_MAX (a + b)"

text \<open>The wrapping casts \<^verbatim>\<open>as u64\<close>, \<^verbatim>\<open>as i64\<close>, \<^verbatim>\<open>as i32\<close> and \<^verbatim>\<open>as i16\<close>.\<close>

definition as_u64 :: "int \<Rightarrow> u64" where
  "as_u64 n = n mod 18446744073709551616"

definition as_i64 :: "int \<Rightarrow> i64" where
  "as_i64 n = (n + 9223372036854775808) mod 18446744073709551616 - 9223372036854775808"

definition as_i32 :: "int \<Rightarrow> i32" where
  "as_i32 n = (n + 2147483648) mod 4294967296 - 2147483648"

definition as_i16 :: "int \<Rightarrow> i16" where
  "as_i16 n = (n + 32768) mod 65536 - 32768"

lemma i64_try_from_Some [res_simps]:
  "i64_try_from n = Some m \<longleftrightarrow> m = n \<and> in_i64 n"
  by (auto simp: i64_try_from_def in_i64_def)

lemma i64_try_from_in: "in_i64 n \<Longrightarrow> i64_try_from n = Some n"
  by (simp add: i64_try_from_def in_i64_def)

lemma i64_try_from_None: "i64_try_from n = None \<longleftrightarrow> \<not> in_i64 n"
  by (simp add: i64_try_from_def in_i64_def)

lemma as_u64_id: "in_u64 n \<Longrightarrow> as_u64 n = n"
  by (simp add: as_u64_def in_u64_def)

lemma as_i64_id: "in_i64 n \<Longrightarrow> as_i64 n = n"
  by (simp add: as_i64_def in_i64_def)

section \<open>Results\<close>

text \<open>A Rust \<^verbatim>\<open>Result<T, E>\<close> is \<open>'e + 'a\<close> with \<open>Inl\<close> for \<^verbatim>\<open>Err\<close>; \<open>and_then r f\<close> is
  \<^verbatim>\<open>let x = r?; f(x)\<close>.\<close>

definition and_then :: "'e + 'a \<Rightarrow> ('a \<Rightarrow> 'e + 'b) \<Rightarrow> 'e + 'b" where
  "and_then r f = (case r of Inl e \<Rightarrow> Inl e | Inr x \<Rightarrow> f x)"

definition map_err :: "('e \<Rightarrow> 'f) \<Rightarrow> 'e + 'a \<Rightarrow> 'f + 'a" where
  "map_err g r = (case r of Inl e \<Rightarrow> Inl (g e) | Inr x \<Rightarrow> Inr x)"

definition map_ok :: "('a \<Rightarrow> 'b) \<Rightarrow> 'e + 'a \<Rightarrow> 'e + 'b" where
  "map_ok g r = (case r of Inl e \<Rightarrow> Inl e | Inr x \<Rightarrow> Inr (g x))"

definition ok_or :: "'a option \<Rightarrow> 'e \<Rightarrow> 'e + 'a" where
  "ok_or x e = (case x of Some v \<Rightarrow> Inr v | None \<Rightarrow> Inl e)"

lemma and_then_simps [simp, res_simps]:
  "and_then (Inl e) f = Inl e" "and_then (Inr x) f = f x"
  by (simp_all add: and_then_def)

lemma map_err_simps [simp, res_simps]:
  "map_err g (Inl e) = Inl (g e)" "map_err g (Inr x) = Inr x"
  by (simp_all add: map_err_def)

lemma map_ok_simps [simp, res_simps]:
  "map_ok g (Inl e) = Inl e" "map_ok g (Inr x) = Inr (g x)"
  by (simp_all add: map_ok_def)

lemma ok_or_simps [simp, res_simps]:
  "ok_or (Some v) e = Inr v" "ok_or None e = Inl e"
  by (simp_all add: ok_or_def)

lemma and_then_eq_Inr [res_simps]:
  "and_then r f = Inr y \<longleftrightarrow> (\<exists>x. r = Inr x \<and> f x = Inr y)"
  by (cases r) simp_all

lemma and_then_eq_Inl [res_simps]:
  "and_then r f = Inl e \<longleftrightarrow> r = Inl e \<or> (\<exists>x. r = Inr x \<and> f x = Inl e)"
  by (cases r) auto

lemma map_err_eq_Inr [res_simps]: "map_err g r = Inr y \<longleftrightarrow> r = Inr y"
  by (cases r) simp_all

lemma map_err_eq_Inl [res_simps]: "map_err g r = Inl e \<longleftrightarrow> (\<exists>e'. r = Inl e' \<and> e = g e')"
  by (cases r) auto

lemma map_ok_eq_Inr [res_simps]: "map_ok g r = Inr y \<longleftrightarrow> (\<exists>x. r = Inr x \<and> y = g x)"
  by (cases r) auto

lemma map_ok_eq_Inl [res_simps]: "map_ok g r = Inl e \<longleftrightarrow> r = Inl e"
  by (cases r) simp_all

lemma ok_or_eq_Inr [res_simps]: "ok_or x e = Inr v \<longleftrightarrow> x = Some v"
  by (cases x) auto

lemma ok_or_eq_Inl [res_simps]: "ok_or x e = Inl e' \<longleftrightarrow> x = None \<and> e' = e"
  by (cases x) auto

text \<open>\<^verbatim>\<open>iter().map(f).collect::<Result<Vec<_>, _>>()\<close>: the first error wins.\<close>

primrec collect_results :: "('a \<Rightarrow> 'e + 'b) \<Rightarrow> 'a list \<Rightarrow> 'e + 'b list" where
  "collect_results f [] = Inr []"
| "collect_results f (x # xs) =
     and_then (f x) (\<lambda>y. map_ok (\<lambda>ys. y # ys) (collect_results f xs))"

lemma collect_results_Inr:
  "collect_results f xs = Inr ys \<longleftrightarrow> map f xs = map Inr ys"
  by (induction xs arbitrary: ys) (auto simp: res_simps Cons_eq_map_conv)

lemma collect_results_map:
  "(\<And>x. x \<in> set xs \<Longrightarrow> f x = Inr (g x)) \<Longrightarrow> collect_results f xs = Inr (map g xs)"
  by (simp add: collect_results_Inr)

text \<open>A \<^verbatim>\<open>for\<close> loop over rows whose body runs one statement and leaves on the first error.\<close>

primrec for_each :: "('r \<Rightarrow> 's \<Rightarrow> 'e + 's) \<Rightarrow> 'r list \<Rightarrow> 's \<Rightarrow> 'e + 's" where
  "for_each f [] s = Inr s"
| "for_each f (x # xs) s = and_then (f x s) (for_each f xs)"

lemma for_each_append:
  "for_each f (xs @ ys) s = and_then (for_each f xs s) (for_each f ys)"
proof (induction xs arbitrary: s)
  case (Cons x xs)
  then show ?case by (cases "f x s") simp_all
qed simp

lemma for_each_invariant:
  assumes "for_each f xs s = Inr s'" and "I s"
    and "\<And>x t t'. x \<in> set xs \<Longrightarrow> I t \<Longrightarrow> f x t = Inr t' \<Longrightarrow> I t'"
  shows "I s'"
  using assms
proof (induction xs arbitrary: s)
  case (Cons x xs)
  then obtain t where t: "f x s = Inr t" and rest: "for_each f xs t = Inr s'"
    by (auto simp: res_simps)
  moreover have "I t" using Cons.prems t by (meson list.set_intros(1))
  ultimately show ?case using Cons.IH Cons.prems(3) by (meson list.set_intros(2))
qed simp

lemma for_each_fold:
  assumes "\<And>x t t'. f x t = Inr t' \<Longrightarrow> t' = g x t" and "for_each f xs s = Inr s'"
  shows "s' = fold g xs s"
  using assms(2)
proof (induction xs arbitrary: s)
  case (Cons x xs)
  then obtain t where "f x s = Inr t" and "for_each f xs t = Inr s'"
    by (auto simp: res_simps)
  then show ?case using Cons.IH assms(1) by fastforce
qed simp

lemma for_each_succeeds:
  "(\<And>x t. f x t = Inr (g x t)) \<Longrightarrow> for_each f xs s = Inr (fold g xs s)"
  by (induction xs arbitrary: s) simp_all

section \<open>Lists\<close>

lemma find_Some_iff_unique:
  assumes "distinct (map key xs)" and "x \<in> set xs"
  shows "find (\<lambda>r. key r = key x) xs = Some x"
  using assms by (induction xs) force+

lemma find_key_None: "find (\<lambda>r. key r = k) xs = None \<longleftrightarrow> k \<notin> key ` set xs"
  by (auto simp: find_None_iff)

lemma find_append:
  "find P (xs @ ys) = (case find P xs of None \<Rightarrow> find P ys | Some x \<Rightarrow> Some x)"
  by (induction xs) simp_all

lemma find_SomeD: "find P xs = Some x \<Longrightarrow> x \<in> set xs \<and> P x"
  by (auto simp: find_Some_iff)

lemma filter_True_iff: "filter P xs = xs \<longleftrightarrow> (\<forall>x\<in>set xs. P x)"
  by (simp add: filter_id_conv)

lemma map_idI_on: "(\<And>x. x \<in> set xs \<Longrightarrow> f x = x) \<Longrightarrow> map f xs = xs"
  by (rule map_idI)

lemma filter_append_right:
  "(\<And>x. x \<in> set xs \<Longrightarrow> \<not> P x) \<Longrightarrow> (\<And>x. x \<in> set ys \<Longrightarrow> P x) \<Longrightarrow> filter P (xs @ ys) = ys"
  by (simp add: filter_empty_conv filter_True_iff)

lemma filter_append_left:
  "(\<And>x. x \<in> set xs \<Longrightarrow> P x) \<Longrightarrow> (\<And>x. x \<in> set ys \<Longrightarrow> \<not> P x) \<Longrightarrow> filter P (xs @ ys) = xs"
  by (simp add: filter_empty_conv filter_True_iff)

lemma collect_results_append:
  "collect_results f (xs @ ys) =
     and_then (collect_results f xs) (\<lambda>as. map_ok (\<lambda>bs. as @ bs) (collect_results f ys))"
proof (induction xs)
  case Nil
  show ?case by (cases "collect_results f ys") simp_all
next
  case (Cons x xs)
  then show ?case by (cases "f x"; cases "collect_results f xs"; cases "collect_results f ys") simp_all
qed

lemma collect_results_nth:
  assumes "collect_results f xs = Inr ys"
  shows "length ys = length xs" and "\<And>i. i < length xs \<Longrightarrow> f (xs ! i) = Inr (ys ! i)"
proof -
  have eq: "map f xs = map Inr ys" using assms by (simp add: collect_results_Inr)
  from arg_cong [OF eq, of length] show len: "length ys = length xs" by simp
  show "f (xs ! i) = Inr (ys ! i)" if "i < length xs" for i
    using arg_cong [OF eq, of "\<lambda>zs. zs ! i"] that len by simp
qed

lemma collect_results_succeeds:
  "(\<exists>ys. collect_results f xs = Inr ys) \<longleftrightarrow> list_all (\<lambda>x. \<exists>y. f x = Inr y) xs"
  by (induction xs) (auto simp: res_simps)

lemma list_all_enumerate: "list_all (\<lambda>(i, x). P x) (enumerate k xs) = list_all P xs"
  by (induction xs arbitrary: k) simp_all

end
