(* ===== verification/Models.thy ===== *)
theory Models
  imports Prelude
begin

text \<open>
  The row structures of \<^verbatim>\<open>crates/db/src/models.rs\<close>, the database error type of
  \<^verbatim>\<open>crates/db/src/error.rs\<close> and the enumerations stored in the schema.  A struct becomes a
  record whose fields carry a short prefix (two structs of the source share field names); the
  read-side \<^verbatim>\<open>Block\<close> and \<^verbatim>\<open>Cell\<close> extend the columns that are written by the server-side columns.
\<close>

section \<open>Errors\<close>

text \<open>What a statement can fail with: the driver (connection, protocol, timeout) or a constraint
  of the schema, or a negative \<^verbatim>\<open>LIMIT\<close>.\<close>

datatype SqlxError = Driver | UniqueViolation string | ForeignKeyViolation string
  | InvalidRowCount

datatype DbError = Sqlx SqlxError | Migrate string | Invariant string

section \<open>Enumerations\<close>

datatype HashType = Data | Type | Data1 | Data2

fun HashType_as_i16 :: "HashType \<Rightarrow> i16" where
  "HashType_as_i16 Data = 0"
| "HashType_as_i16 Type = 1"
| "HashType_as_i16 Data1 = 2"
| "HashType_as_i16 Data2 = 3"

datatype ApiKeyTier = Free | Starter | Pro

fun ApiKeyTier_as_str :: "ApiKeyTier \<Rightarrow> string" where
  "ApiKeyTier_as_str Free = ''free''"
| "ApiKeyTier_as_str Starter = ''starter''"
| "ApiKeyTier_as_str Pro = ''pro''"

datatype ReorgStatus = InProgress | Completed | Failed

fun ReorgStatus_as_str :: "ReorgStatus \<Rightarrow> string" where
  "ReorgStatus_as_str InProgress = ''in_progress''"
| "ReorgStatus_as_str Completed = ''completed''"
| "ReorgStatus_as_str Failed = ''failed''"

lemma HashType_as_i16_inject: "HashType_as_i16 a = HashType_as_i16 b \<longleftrightarrow> a = b"
  by (cases a; cases b) simp_all

section \<open>Chain rows\<close>

text \<open>JSON values, as stored in \<^verbatim>\<open>JSONB\<close> columns and exchanged with the node.\<close>

datatype json = JNull | JBool bool | JNum int | JStr string | JArr "json list"
  | JObj "(string \<times> json) list"

record BlockRow =
  br_number :: i64
  br_hash :: bytes
  br_parent_hash :: bytes
  br_timestamp_ms :: i64
  br_epoch :: i64
  br_transactions_count :: i32
  br_proposals_count :: i32
  br_uncles_count :: i32
  br_nonce :: int
  br_dao :: bytes

record Block = BlockRow +
  blk_indexed_at :: timestamp

record TransactionRow =
  tr_hash :: bytes
  tr_block_number :: i64
  tr_tx_index :: i32
  tr_version :: i32
  tr_cell_deps :: json
  tr_header_deps :: json
  tr_witnesses :: json
  tr_inputs_count :: i32
  tr_outputs_count :: i32

record CellRow =
  cr_tx_hash :: bytes
  cr_output_index :: i32
  cr_block_number :: i64
  cr_capacity_shannons :: i64
  cr_lock_code_hash :: bytes
  cr_lock_hash_type :: HashType
  cr_lock_args :: bytes
  cr_lock_hash :: bytes
  cr_type_code_hash :: "bytes option"
  cr_type_hash_type :: "HashType option"
  cr_type_args :: "bytes option"
  cr_type_hash :: "bytes option"
  cr_data :: bytes

text \<open>A stored row of the \<^verbatim>\<open>cells\<close> table; hash types are \<^verbatim>\<open>SMALLINT\<close>, and the three
  \<^verbatim>\<open>consumed_*\<close> columns are \<^verbatim>\<open>NULL\<close> while the cell is live.\<close>

record CellStored =
  c_tx_hash :: bytes
  c_output_index :: i32
  c_block_number :: i64
  c_capacity_shannons :: i64
  c_lock_code_hash :: bytes
  c_lock_hash_type :: i16
  c_lock_args :: bytes
  c_lock_hash :: bytes
  c_type_code_hash :: "bytes option"
  c_type_hash_type :: "i16 option"
  c_type_args :: "bytes option"
  c_type_hash :: "bytes option"
  c_data :: bytes
  c_consumed_by_tx_hash :: "bytes option"
  c_consumed_by_input_index :: "i32 option"
  c_consumed_at_block_number :: "i64 option"

text \<open>The read-side \<^verbatim>\<open>Cell\<close>: a stored row joined with the hash of its block.\<close>

record Cell = CellStored +
  cell_block_hash :: bytes

record ConsumedCellRef =
  cc_tx_hash :: bytes
  cc_output_index :: i32
  cc_consumed_by_tx_hash :: bytes
  cc_consumed_by_input_index :: i32
  cc_consumed_at_block_number :: i64

record Checkpoint =
  cp_last_indexed_block :: i64
  cp_last_indexed_hash :: bytes

record ReorgLogEntry =
  rl_id :: i64
  rl_detected_at :: timestamp
  rl_divergence_block_number :: i64
  rl_divergence_node_hash :: bytes
  rl_divergence_indexed_hash :: bytes
  rl_depth :: i32
  rl_completed_at :: "timestamp option"
  rl_status :: ReorgStatus
  rl_error :: "string option"

section \<open>Account rows\<close>

type_synonym uuid = nat

record ApiKey =
  ak_id :: uuid
  ak_user_id :: uuid
  ak_prefix :: string
  ak_secret_hash :: string
  ak_tier :: ApiKeyTier
  ak_label :: "string option"
  ak_created_at :: timestamp
  ak_revoked_at :: "timestamp option"
  ak_last_used_at :: "timestamp option"

definition ApiKey_is_revoked :: "ApiKey \<Rightarrow> bool" where
  "ApiKey_is_revoked k \<longleftrightarrow> ak_revoked_at k \<noteq> None"

record User =
  us_id :: uuid
  us_github_user_id :: i64
  us_github_login :: string
  us_email :: "string option"
  us_avatar_url :: "string option"
  us_created_at :: timestamp
  us_updated_at :: timestamp

record Session =
  se_token_hash :: string
  se_user_id :: uuid
  se_created_at :: timestamp
  se_expires_at :: timestamp
  se_last_seen_at :: timestamp
  se_user_agent :: "string option"

definition Session_is_active :: "Session \<Rightarrow> timestamp \<Rightarrow> bool" where
  "Session_is_active s now \<longleftrightarrow> se_expires_at s > now"

end
