(* ===== verification/ChainDb.thy ===== *)
theory ChainDb
  imports Models
begin

text \<open>
  The chain tables (\<^verbatim>\<open>migrations/20260417000001_init.up.sql\<close> and the \<^verbatim>\<open>reorg_log\<close> migration) and
  the repository functions over them: \<^verbatim>\<open>crates/db/src/blocks.rs\<close>, \<^verbatim>\<open>transactions.rs\<close>,
  \<^verbatim>\<open>cells.rs\<close> (the writes), \<^verbatim>\<open>checkpoint.rs\<close> and \<^verbatim>\<open>reorg_log.rs\<close>.

  A table is the list of its rows in insertion order; every query of the sources selects by key or
  carries an \<^verbatim>\<open>ORDER BY\<close>, so that order is never observed.  A statement takes the database and
  returns the next one or the error it raises: a constraint of the schema that the row breaks, or
  \<open>Sqlx Driver\<close> when its \<open>fault\<close> argument says that the connection failed at this statement.  The
  value of \<^verbatim>\<open>now()\<close> and the ids drawn from a \<^verbatim>\<open>BIGSERIAL\<close> sequence are arguments as well.  The
  columns \<^verbatim>\<open>transactions.indexed_at\<close> and \<^verbatim>\<open>indexer_state.updated_at\<close> are written but never read and
  are left out.
\<close>

named_theorems db_defs \<open>definitions of the repository functions\<close>

record chain_db =
  db_blocks :: "Block list"
  db_transactions :: "TransactionRow list"
  db_cells :: "CellStored list"
  db_indexer_state :: "Checkpoint option"
  db_reorg_log :: "ReorgLogEntry list"

definition empty_chain_db :: chain_db where
  "empty_chain_db = \<lparr>db_blocks = [], db_transactions = [], db_cells = [],
     db_indexer_state = None, db_reorg_log = []\<rparr>"

section \<open>The blocks table\<close>

definition mk_block :: "timestamp \<Rightarrow> BlockRow \<Rightarrow> Block" where
  "mk_block now row = BlockRow.extend row (Block.fields now)"

definition blocks_insert ::
  "bool \<Rightarrow> timestamp \<Rightarrow> BlockRow \<Rightarrow> chain_db \<Rightarrow> DbError + chain_db" where
  [db_defs]: "blocks_insert fault now row d =
     (if fault then Inl (Sqlx Driver)
      else if br_number row \<in> br_number ` set (db_blocks d)
      then Inl (Sqlx (UniqueViolation ''blocks_pkey''))
      else if br_hash row \<in> br_hash ` set (db_blocks d)
      then Inl (Sqlx (UniqueViolation ''blocks_hash_key''))
      else Inr (d\<lparr>db_blocks := db_blocks d @ [mk_block now row]\<rparr>))"

definition blocks_latest_number :: "bool \<Rightarrow> chain_db \<Rightarrow> DbError + i64 option" where
  [db_defs]: "blocks_latest_number fault d =
     (if fault then Inl (Sqlx Driver)
      else Inr (if db_blocks d = [] then None else Some (Max (br_number ` set (db_blocks d)))))"

definition blocks_latest :: "bool \<Rightarrow> chain_db \<Rightarrow> DbError + Block option" where
  [db_defs]: "blocks_latest fault d =
     (if fault then Inl (Sqlx Driver)
      else Inr (case sort_key (\<lambda>b. - br_number b) (db_blocks d) of
                  [] \<Rightarrow> None | b # _ \<Rightarrow> Some b))"

definition blocks_hash_at :: "bool \<Rightarrow> i64 \<Rightarrow> chain_db \<Rightarrow> DbError + bytes option" where
  [db_defs]: "blocks_hash_at fault number d =
     (if fault then Inl (Sqlx Driver)
      else Inr (map_option br_hash (find (\<lambda>b. br_number b = number) (db_blocks d))))"

definition blocks_get_by_number :: "bool \<Rightarrow> i64 \<Rightarrow> chain_db \<Rightarrow> DbError + Block option" where
  [db_defs]: "blocks_get_by_number fault number d =
     (if fault then Inl (Sqlx Driver)
      else Inr (find (\<lambda>b. br_number b = number) (db_blocks d)))"

text \<open>\<^verbatim>\<open>DELETE FROM blocks WHERE number > $1\<close> with \<^verbatim>\<open>ON DELETE CASCADE\<close> on the two referencing
  tables.\<close>

definition blocks_delete_above :: "bool \<Rightarrow> i64 \<Rightarrow> chain_db \<Rightarrow> DbError + (nat \<times> chain_db)" where
  [db_defs]: "blocks_delete_above fault ancestor d =
     (if fault then Inl (Sqlx Driver)
      else let gone = filter (\<lambda>b. br_number b > ancestor) (db_blocks d);
               keys = br_number ` set gone
           in Inr (length gone,
                d\<lparr>db_blocks := filter (\<lambda>b. \<not> br_number b > ancestor) (db_blocks d),
                  db_transactions := filter (\<lambda>t. tr_block_number t \<notin> keys) (db_transactions d),
                  db_cells := filter (\<lambda>c. c_block_number c \<notin> keys) (db_cells d)\<rparr>))"

section \<open>The transactions table\<close>

definition transactions_insert ::
  "bool \<Rightarrow> TransactionRow \<Rightarrow> chain_db \<Rightarrow> DbError + chain_db" where
  [db_defs]: "transactions_insert fault row d =
     (if fault then Inl (Sqlx Driver)
      else if tr_hash row \<in> tr_hash ` set (db_transactions d)
      then Inl (Sqlx (UniqueViolation ''transactions_pkey''))
      else if tr_block_number row \<notin> br_number ` set (db_blocks d)
      then Inl (Sqlx (ForeignKeyViolation ''transactions_block_number_fkey''))
      else Inr (d\<lparr>db_transactions := db_transactions d @ [row]\<rparr>))"

definition transactions_insert_batch ::
  "(TransactionRow \<Rightarrow> bool) \<Rightarrow> TransactionRow list \<Rightarrow> chain_db \<Rightarrow> DbError + chain_db" where
  "transactions_insert_batch fault rows d =
     for_each (\<lambda>row. transactions_insert (fault row) row) rows d"

section \<open>The cells table\<close>

definition cell_key :: "'a CellStored_scheme \<Rightarrow> bytes \<times> i32" where
  "cell_key c = (c_tx_hash c, c_output_index c)"

definition stored_of_row :: "CellRow \<Rightarrow> CellStored" where
  "stored_of_row row =
     \<lparr>c_tx_hash = cr_tx_hash row, c_output_index = cr_output_index row,
      c_block_number = cr_block_number row, c_capacity_shannons = cr_capacity_shannons row,
      c_lock_code_hash = cr_lock_code_hash row,
      c_lock_hash_type = HashType_as_i16 (cr_lock_hash_type row),
      c_lock_args = cr_lock_args row, c_lock_hash = cr_lock_hash row,
      c_type_code_hash = cr_type_code_hash row,
      c_type_hash_type = map_option HashType_as_i16 (cr_type_hash_type row),
      c_type_args = cr_type_args row, c_type_hash = cr_type_hash row, c_data = cr_data row,
      c_consumed_by_tx_hash = None, c_consumed_by_input_index = None,
      c_consumed_at_block_number = None\<rparr>"

definition cells_insert :: "bool \<Rightarrow> CellRow \<Rightarrow> chain_db \<Rightarrow> DbError + chain_db" where
  [db_defs]: "cells_insert fault row d =
     (if fault then Inl (Sqlx Driver)
      else if cell_key (stored_of_row row) \<in> cell_key ` set (db_cells d)
      then Inl (Sqlx (UniqueViolation ''cells_pkey''))
      else if cr_block_number row \<notin> br_number ` set (db_blocks d)
      then Inl (Sqlx (ForeignKeyViolation ''cells_block_number_fkey''))
      else Inr (d\<lparr>db_cells := db_cells d @ [stored_of_row row]\<rparr>))"

definition cells_insert_batch ::
  "(CellRow \<Rightarrow> bool) \<Rightarrow> CellRow list \<Rightarrow> chain_db \<Rightarrow> DbError + chain_db" where
  "cells_insert_batch fault rows d = for_each (\<lambda>row. cells_insert (fault row) row) rows d"

definition consume :: "ConsumedCellRef \<Rightarrow> CellStored \<Rightarrow> CellStored" where
  "consume r c =
     (if c_tx_hash c = cc_tx_hash r \<and> c_output_index c = cc_output_index r
      then c\<lparr>c_consumed_by_tx_hash := Some (cc_consumed_by_tx_hash r),
             c_consumed_by_input_index := Some (cc_consumed_by_input_index r),
             c_consumed_at_block_number := Some (cc_consumed_at_block_number r)\<rparr>
      else c)"

definition cells_mark_one :: "bool \<Rightarrow> ConsumedCellRef \<Rightarrow> chain_db \<Rightarrow> DbError + chain_db" where
  [db_defs]: "cells_mark_one fault r d =
     (if fault then Inl (Sqlx Driver)
      else Inr (d\<lparr>db_cells := map (consume r) (db_cells d)\<rparr>))"

definition cells_mark_consumed ::
  "(ConsumedCellRef \<Rightarrow> bool) \<Rightarrow> ConsumedCellRef list \<Rightarrow> chain_db \<Rightarrow> DbError + chain_db" where
  "cells_mark_consumed fault refs d = for_each (\<lambda>r. cells_mark_one (fault r) r) refs d"

definition restore :: "i64 \<Rightarrow> CellStored \<Rightarrow> CellStored" where
  "restore ancestor c =
     (case c_consumed_at_block_number c of
        Some n \<Rightarrow> if n > ancestor
                  then c\<lparr>c_consumed_by_tx_hash := None, c_consumed_by_input_index := None,
                         c_consumed_at_block_number := None\<rparr>
                  else c
      | None \<Rightarrow> c)"

definition cells_restore_consumed_above ::
  "bool \<Rightarrow> i64 \<Rightarrow> chain_db \<Rightarrow> DbError + (nat \<times> chain_db)" where
  [db_defs]: "cells_restore_consumed_above fault ancestor d =
     (if fault then Inl (Sqlx Driver)
      else Inr (length (filter (\<lambda>c. case c_consumed_at_block_number c of
                                      Some n \<Rightarrow> n > ancestor | None \<Rightarrow> False) (db_cells d)),
                d\<lparr>db_cells := map (restore ancestor) (db_cells d)\<rparr>))"

section \<open>The checkpoint row\<close>

definition checkpoint_read :: "bool \<Rightarrow> chain_db \<Rightarrow> DbError + Checkpoint option" where
  [db_defs]: "checkpoint_read fault d =
     (if fault then Inl (Sqlx Driver) else Inr (db_indexer_state d))"

definition checkpoint_upsert :: "bool \<Rightarrow> i64 \<Rightarrow> bytes \<Rightarrow> chain_db \<Rightarrow> DbError + chain_db" where
  [db_defs]: "checkpoint_upsert fault number hash d =
     (if fault then Inl (Sqlx Driver)
      else Inr (d\<lparr>db_indexer_state :=
                   Some \<lparr>cp_last_indexed_block = number, cp_last_indexed_hash = hash\<rparr>\<rparr>))"

section \<open>The reorg audit log\<close>

definition reorg_log_insert ::
  "bool \<Rightarrow> i64 \<Rightarrow> timestamp \<Rightarrow> i64 \<Rightarrow> bytes \<Rightarrow> bytes \<Rightarrow> i32 \<Rightarrow> chain_db
     \<Rightarrow> DbError + (i64 \<times> chain_db)" where
  [db_defs]: "reorg_log_insert fault serial now number node_hash indexed_hash depth d =
     (if fault then Inl (Sqlx Driver)
      else if serial \<in> rl_id ` set (db_reorg_log d)
      then Inl (Sqlx (UniqueViolation ''reorg_log_pkey''))
      else Inr (serial, d\<lparr>db_reorg_log := db_reorg_log d @
             [\<lparr>rl_id = serial, rl_detected_at = now, rl_divergence_block_number = number,
               rl_divergence_node_hash = node_hash, rl_divergence_indexed_hash = indexed_hash,
               rl_depth = depth, rl_completed_at = None, rl_status = InProgress,
               rl_error = None\<rparr>]\<rparr>))"

definition reorg_log_mark_completed ::
  "bool \<Rightarrow> timestamp \<Rightarrow> i64 \<Rightarrow> chain_db \<Rightarrow> DbError + chain_db" where
  [db_defs]: "reorg_log_mark_completed fault now log_id d =
     (if fault then Inl (Sqlx Driver)
      else Inr (d\<lparr>db_reorg_log := map (\<lambda>e. if rl_id e = log_id
             then e\<lparr>rl_status := Completed, rl_completed_at := Some now\<rparr> else e)
             (db_reorg_log d)\<rparr>))"

definition reorg_log_mark_failed ::
  "bool \<Rightarrow> timestamp \<Rightarrow> i64 \<Rightarrow> string \<Rightarrow> chain_db \<Rightarrow> DbError + chain_db" where
  [db_defs]: "reorg_log_mark_failed fault now log_id msg d =
     (if fault then Inl (Sqlx Driver)
      else Inr (d\<lparr>db_reorg_log := map (\<lambda>e. if rl_id e = log_id
             then e\<lparr>rl_status := Failed, rl_completed_at := Some now, rl_error := Some msg\<rparr> else e)
             (db_reorg_log d)\<rparr>))"

definition reorg_log_list_recent :: "bool \<Rightarrow> i64 \<Rightarrow> chain_db \<Rightarrow> DbError + ReorgLogEntry list" where
  [db_defs]: "reorg_log_list_recent fault limit d =
     (if fault then Inl (Sqlx Driver)
      else if limit < 0 then Inl (Sqlx InvalidRowCount)
      else Inr (take (nat limit) (sort_key (\<lambda>e. - rl_detected_at e) (db_reorg_log d))))"

section \<open>Transactions\<close>

text \<open>\<^verbatim>\<open>pool.begin()\<close>, the statements, \<^verbatim>\<open>tx.commit()\<close>.  A failing statement drops the transaction and
  with it every change.  A commit is acknowledged (\<open>CommitOk\<close>), refused (\<open>CommitFailed\<close>), or takes
  effect while its acknowledgement is lost with the connection (\<open>CommitUnknown\<close>): the client then
  sees an error although the changes are durable.\<close>

datatype commit_result = CommitOk | CommitFailed | CommitUnknown

definition in_transaction ::
  "bool \<Rightarrow> commit_result \<Rightarrow> ('s \<Rightarrow> DbError + ('a \<times> 's)) \<Rightarrow> 's \<Rightarrow> (DbError + 'a) \<times> 's" where
  "in_transaction begin_fault commit body d =
     (if begin_fault then (Inl (Sqlx Driver), d)
      else case body d of
             Inl e \<Rightarrow> (Inl e, d)
           | Inr (x, d') \<Rightarrow>
               (case commit of
                  CommitOk \<Rightarrow> (Inr x, d')
                | CommitFailed \<Rightarrow> (Inl (Sqlx Driver), d)
                | CommitUnknown \<Rightarrow> (Inl (Sqlx Driver), d')))"

lemma in_transaction_Inr:
  "in_transaction bf cm body d = (Inr x, d') \<longleftrightarrow> \<not> bf \<and> cm = CommitOk \<and> body d = Inr (x, d')"
  by (auto simp: in_transaction_def split: sum.splits commit_result.splits)

lemma in_transaction_Inl:
  assumes "in_transaction bf cm body d = (Inl e, d')"
  shows "d' = d \<or> cm = CommitUnknown \<and> (\<exists>x. body d = Inr (x, d'))"
  using assms by (auto simp: in_transaction_def split: if_splits sum.splits commit_result.splits)

lemma in_transaction_cases:
  assumes "in_transaction bf cm body d = (r, d')"
  shows "d' = d \<or> (\<exists>x. body d = Inr (x, d'))"
  using assms by (auto simp: in_transaction_def split: if_splits sum.splits commit_result.splits)

section \<open>The schema as an invariant\<close>

text \<open>Primary keys, the unique hash, the two foreign keys, and the fact that the three
  \<^verbatim>\<open>consumed_*\<close> columns are set together.\<close>

definition consumed_columns_agree :: "'a CellStored_scheme \<Rightarrow> bool" where
  "consumed_columns_agree c \<longleftrightarrow>
     (c_consumed_by_tx_hash c = None \<longleftrightarrow> c_consumed_by_input_index c = None) \<and>
     (c_consumed_by_tx_hash c = None \<longleftrightarrow> c_consumed_at_block_number c = None)"

definition schema_ok :: "chain_db \<Rightarrow> bool" where
  "schema_ok d \<longleftrightarrow>
     distinct (map br_number (db_blocks d)) \<and>
     distinct (map br_hash (db_blocks d)) \<and>
     distinct (map tr_hash (db_transactions d)) \<and>
     distinct (map cell_key (db_cells d)) \<and>
     distinct (map rl_id (db_reorg_log d)) \<and>
     (\<forall>t\<in>set (db_transactions d). tr_block_number t \<in> br_number ` set (db_blocks d)) \<and>
     (\<forall>c\<in>set (db_cells d). c_block_number c \<in> br_number ` set (db_blocks d)) \<and>
     (\<forall>c\<in>set (db_cells d). consumed_columns_agree c)"

section \<open>Keyed tables\<close>

text \<open>The contract the inserting statements share: a successful insert appends exactly the new row,
  and its key was not there before.\<close>

locale pk_table =
  fixes rows :: "'db \<Rightarrow> 'r list"
    and key :: "'r \<Rightarrow> 'k"
    and mk :: "'row \<Rightarrow> 'r"
    and ins :: "'row \<Rightarrow> 'db \<Rightarrow> DbError + 'db"
  assumes ins_rows: "ins x d = Inr d' \<Longrightarrow> rows d' = rows d @ [mk x]"
    and ins_fresh: "ins x d = Inr d' \<Longrightarrow> key (mk x) \<notin> key ` set (rows d)"
begin

lemma ins_distinct:
  "ins x d = Inr d' \<Longrightarrow> distinct (map key (rows d)) \<Longrightarrow> distinct (map key (rows d'))"
  using ins_fresh [of x d d'] by (simp add: ins_rows)

lemma lookup_ins:
  assumes "ins x d = Inr d'"
  shows "find (\<lambda>r. key r = k) (rows d') =
         (if k = key (mk x) then Some (mk x) else find (\<lambda>r. key r = k) (rows d))"
proof (cases "k = key (mk x)")
  case True
  with assms have "find (\<lambda>r. key r = k) (rows d) = None"
    by (simp add: find_key_None ins_fresh)
  with True show ?thesis using assms by (simp add: ins_rows find_append)
next
  case False
  then show ?thesis using assms by (simp add: ins_rows find_append split: option.split)
qed

lemma batch_rows: "for_each ins xs d = Inr d' \<Longrightarrow> rows d' = rows d @ map mk xs"
proof (induction xs arbitrary: d)
  case (Cons x xs)
  then obtain e where "ins x d = Inr e" and "for_each ins xs e = Inr d'"
    by (auto simp: res_simps)
  then show ?case using Cons.IH by (simp add: ins_rows)
qed simp

lemma batch_distinct:
  "for_each ins xs d = Inr d' \<Longrightarrow> distinct (map key (rows d)) \<Longrightarrow> distinct (map key (rows d'))"
  by (rule for_each_invariant) (auto intro: ins_distinct)

lemma batch_fresh:
  assumes "for_each ins xs d = Inr d'" and "x \<in> set xs"
  shows "key (mk x) \<notin> key ` set (rows d)"
  using assms
proof (induction xs arbitrary: d)
  case (Cons y xs)
  then obtain e where e: "ins y d = Inr e" and rest: "for_each ins xs e = Inr d'"
    by (auto simp: res_simps)
  show ?case
  proof (cases "x = y")
    case True
    with e show ?thesis by (simp add: ins_fresh)
  next
    case False
    with Cons.IH [OF rest] Cons.prems e show ?thesis by (auto simp: ins_rows)
  qed
qed simp

end

lemma mk_block_simps [simp]:
  "br_number (mk_block now row) = br_number row" "br_hash (mk_block now row) = br_hash row"
  "br_parent_hash (mk_block now row) = br_parent_hash row"
  "BlockRow.truncate (mk_block now row) = row"
  by (simp_all add: mk_block_def BlockRow.defs Block.defs)

interpretation blocks_tbl: pk_table db_blocks br_number "mk_block now" "blocks_insert fault now"
  for fault now
  by unfold_locales (auto simp: blocks_insert_def split: if_splits)

interpretation block_hashes_tbl: pk_table db_blocks br_hash "mk_block now" "blocks_insert fault now"
  for fault now
  by unfold_locales (auto simp: blocks_insert_def split: if_splits)

interpretation transactions_tbl: pk_table db_transactions tr_hash "\<lambda>r. r"
  "\<lambda>row. transactions_insert (fault row) row" for fault
  by unfold_locales (auto simp: transactions_insert_def split: if_splits)

interpretation cells_tbl: pk_table db_cells cell_key stored_of_row
  "\<lambda>row. cells_insert (fault row) row" for fault
  by unfold_locales (auto simp: cells_insert_def split: if_splits)

section \<open>Every statement keeps the schema\<close>

lemma cell_key_consume [simp]: "cell_key (consume r c) = cell_key c"
  by (simp add: consume_def cell_key_def)

lemma cell_key_restore [simp]: "cell_key (restore a c) = cell_key c"
  by (simp add: restore_def cell_key_def split: option.split)

lemma block_number_consume [simp]: "c_block_number (consume r c) = c_block_number c"
  by (simp add: consume_def)

lemma block_number_restore [simp]: "c_block_number (restore a c) = c_block_number c"
  by (simp add: restore_def split: option.split)

lemma agree_consume [simp]:
  "consumed_columns_agree c \<Longrightarrow> consumed_columns_agree (consume r c)"
  by (auto simp: consumed_columns_agree_def consume_def)

lemma agree_restore [simp]:
  "consumed_columns_agree c \<Longrightarrow> consumed_columns_agree (restore a c)"
  by (auto simp: consumed_columns_agree_def restore_def split: option.splits)

lemma agree_stored_of_row [simp]: "consumed_columns_agree (stored_of_row row)"
  by (simp add: consumed_columns_agree_def stored_of_row_def)

lemma schema_ok_empty: "schema_ok empty_chain_db"
  by (simp add: schema_ok_def empty_chain_db_def)

lemma blocks_insert_schema:
  assumes "schema_ok d" and "blocks_insert fault now row d = Inr d'"
  shows "schema_ok d'"
  using assms by (auto simp: schema_ok_def blocks_insert_def split: if_splits)

lemma transactions_insert_schema:
  assumes "schema_ok d" and "transactions_insert fault row d = Inr d'"
  shows "schema_ok d'"
  using assms by (auto simp: schema_ok_def transactions_insert_def split: if_splits)

lemma cells_insert_schema:
  assumes "schema_ok d" and "cells_insert fault row d = Inr d'"
  shows "schema_ok d'"
proof -
  have "c_block_number (stored_of_row row) = cr_block_number row"
    by (simp add: stored_of_row_def)
  with assms show ?thesis
    by (auto simp: schema_ok_def cells_insert_def split: if_splits)
qed

lemma map_key_consume [simp]: "map cell_key (map (consume r) cs) = map cell_key cs"
  by simp

lemma map_key_restore [simp]: "map cell_key (map (restore a) cs) = map cell_key cs"
  by simp

lemma cells_mark_one_schema:
  assumes "schema_ok d" and "cells_mark_one fault r d = Inr d'"
  shows "schema_ok d'"
  using assms
  by (auto simp: schema_ok_def cells_mark_one_def image_image comp_def split: if_splits)

lemma cells_restore_schema:
  assumes "schema_ok d" and "cells_restore_consumed_above fault a d = Inr (n, d')"
  shows "schema_ok d'"
  using assms
  by (auto simp: schema_ok_def cells_restore_consumed_above_def image_image comp_def
      split: if_splits)

lemma blocks_delete_above_schema:
  assumes "schema_ok d" and "blocks_delete_above fault a d = Inr (n, d')"
  shows "schema_ok d'"
  using assms
  by (fastforce simp: schema_ok_def blocks_delete_above_def Let_def distinct_map inj_on_def
      split: if_splits)

lemma checkpoint_upsert_schema:
  assumes "schema_ok d" and "checkpoint_upsert fault n h d = Inr d'"
  shows "schema_ok d'"
  using assms by (auto simp: schema_ok_def checkpoint_upsert_def split: if_splits)

lemma reorg_log_insert_schema:
  assumes "schema_ok d" and "reorg_log_insert fault i now n nh ih depth d = Inr (j, d')"
  shows "schema_ok d'"
  using assms by (auto simp: schema_ok_def reorg_log_insert_def split: if_splits)

lemma reorg_log_mark_completed_schema:
  assumes "schema_ok d" and "reorg_log_mark_completed fault now i d = Inr d'"
  shows "schema_ok d'"
proof -
  have "map rl_id (map (\<lambda>e. if rl_id e = i
          then e\<lparr>rl_status := Completed, rl_completed_at := Some now\<rparr> else e) es) = map rl_id es"
    for es :: "ReorgLogEntry list" by simp
  with assms show ?thesis
    by (auto simp: schema_ok_def reorg_log_mark_completed_def simp del: map_map split: if_splits)
qed

lemmas schema_intros =
  blocks_insert_schema transactions_insert_schema cells_insert_schema cells_mark_one_schema
  cells_restore_schema blocks_delete_above_schema checkpoint_upsert_schema
  reorg_log_insert_schema reorg_log_mark_completed_schema

lemma transactions_insert_batch_schema:
  assumes "schema_ok d" and "transactions_insert_batch fault rows d = Inr d'"
  shows "schema_ok d'"
  using assms(2,1) unfolding transactions_insert_batch_def
  by (rule for_each_invariant) (rule transactions_insert_schema)

lemma cells_insert_batch_schema:
  assumes "schema_ok d" and "cells_insert_batch fault rows d = Inr d'"
  shows "schema_ok d'"
  using assms(2,1) unfolding cells_insert_batch_def
  by (rule for_each_invariant) (rule cells_insert_schema)

lemma cells_mark_consumed_schema:
  assumes "schema_ok d" and "cells_mark_consumed fault refs d = Inr d'"
  shows "schema_ok d'"
  using assms(2,1) unfolding cells_mark_consumed_def
  by (rule for_each_invariant) (rule cells_mark_one_schema)

section \<open>What a batch leaves behind\<close>

definition consume_all :: "ConsumedCellRef list \<Rightarrow> CellStored \<Rightarrow> CellStored" where
  "consume_all refs c = fold consume refs c"

lemma consume_all_simps [simp]:
  "consume_all [] = (\<lambda>c. c)" "consume_all (r # refs) = (\<lambda>c. consume_all refs (consume r c))"
  by (simp_all add: consume_all_def fun_eq_iff)

lemma transactions_insert_frame:
  "transactions_insert fault row d = Inr d' \<Longrightarrow> d' = d\<lparr>db_transactions := db_transactions d @ [row]\<rparr>"
  by (auto simp: transactions_insert_def split: if_splits)

lemma cells_insert_frame:
  "cells_insert fault row d = Inr d' \<Longrightarrow> d' = d\<lparr>db_cells := db_cells d @ [stored_of_row row]\<rparr>"
  by (auto simp: cells_insert_def split: if_splits)

lemma cells_mark_one_frame:
  "cells_mark_one fault r d = Inr d' \<Longrightarrow> d' = d\<lparr>db_cells := map (consume r) (db_cells d)\<rparr>"
  by (auto simp: cells_mark_one_def split: if_splits)

lemma fold_add_transactions:
  "fold (\<lambda>r d. d\<lparr>db_transactions := db_transactions d @ [r]\<rparr>) rows d
     = d\<lparr>db_transactions := db_transactions d @ rows\<rparr>"
  by (induction rows arbitrary: d) simp_all

lemma fold_add_cells:
  "fold (\<lambda>r d. d\<lparr>db_cells := db_cells d @ [stored_of_row r]\<rparr>) rows d
     = d\<lparr>db_cells := db_cells d @ map stored_of_row rows\<rparr>"
  by (induction rows arbitrary: d) simp_all

lemma fold_consume_cells:
  "fold (\<lambda>r d. d\<lparr>db_cells := map (consume r) (db_cells d)\<rparr>) refs d
     = d\<lparr>db_cells := map (consume_all refs) (db_cells d)\<rparr>"
  by (induction refs arbitrary: d) (simp_all add: comp_def)

lemma transactions_insert_batch_result:
  assumes "transactions_insert_batch fault rows d = Inr d'"
  shows "d' = d\<lparr>db_transactions := db_transactions d @ rows\<rparr>"
  using for_each_fold [OF transactions_insert_frame assms [unfolded transactions_insert_batch_def]]
  by (simp add: fold_add_transactions)

lemma cells_insert_batch_result:
  assumes "cells_insert_batch fault rows d = Inr d'"
  shows "d' = d\<lparr>db_cells := db_cells d @ map stored_of_row rows\<rparr>"
  using for_each_fold [OF cells_insert_frame assms [unfolded cells_insert_batch_def]]
  by (simp add: fold_add_cells)

lemma cells_mark_consumed_result:
  assumes "cells_mark_consumed fault refs d = Inr d'"
  shows "d' = d\<lparr>db_cells := map (consume_all refs) (db_cells d)\<rparr>"
  using for_each_fold [OF cells_mark_one_frame assms [unfolded cells_mark_consumed_def]]
  by (simp add: fold_consume_cells)

lemma cells_mark_consumed_succeeds:
  "(\<And>r. \<not> fault r) \<Longrightarrow> cells_mark_consumed fault refs d
     = Inr (d\<lparr>db_cells := map (consume_all refs) (db_cells d)\<rparr>)"
  unfolding cells_mark_consumed_def
  by (subst for_each_succeeds [where g = "\<lambda>r d. d\<lparr>db_cells := map (consume r) (db_cells d)\<rparr>"])
    (simp_all add: cells_mark_one_def fold_consume_cells)

lemma cell_key_consume_all [simp]: "cell_key (consume_all refs c) = cell_key c"
  by (induction refs arbitrary: c) simp_all

lemma block_number_consume_all [simp]: "c_block_number (consume_all refs c) = c_block_number c"
  by (induction refs arbitrary: c) simp_all

lemma consume_all_untouched:
  "(\<And>r. r \<in> set refs \<Longrightarrow> (cc_tx_hash r, cc_output_index r) \<noteq> cell_key c) \<Longrightarrow> consume_all refs c = c"
proof (induction refs)
  case (Cons r refs)
  then have "(cc_tx_hash r, cc_output_index r) \<noteq> cell_key c" by simp
  then have "consume r c = c" by (auto simp: consume_def cell_key_def)
  with Cons show ?case by simp
qed simp

end
