(* ===== verification/Parser.thy ===== *)
theory Parser
  imports Models Strings
begin

text \<open>
  \<^verbatim>\<open>crates/indexer/src/parser.rs\<close>: the conversion of a block as the node reports it into database
  rows.  The view records hold the fields of \<^verbatim>\<open>ckb-jsonrpc-types\<close> that the parser reads; hashes
  (\<^verbatim>\<open>H256\<close>) are byte lists, \<^verbatim>\<open>hash_type\<close> is what its \<^verbatim>\<open>Display\<close> prints, and the JSON-serialisable
  parts are opaque strings.  The library functions the parser calls (\<^verbatim>\<open>calc_script_hash\<close> of
  \<^verbatim>\<open>ckb-types\<close>, \<^verbatim>\<open>serde_json::to_value\<close>, \<^verbatim>\<open>BigDecimal::from_str\<close>) are the fields of
  \<open>parse_lib\<close>, an argument of every definition that needs them.
\<close>

section \<open>The node's view of a block\<close>

record Script =
  sc_code_hash :: bytes
  sc_hash_type :: string
  sc_args :: bytes

record CellOutput =
  co_capacity :: u64
  co_lock :: Script
  co_type :: "Script option"

record CellInput =
  ci_previous_tx_hash :: bytes
  ci_previous_index :: u32

record TransactionView =
  tv_hash :: bytes
  tv_version :: u32
  tv_cell_deps :: string
  tv_header_deps :: string
  tv_witnesses :: string
  tv_inputs :: "CellInput list"
  tv_outputs :: "CellOutput list"
  tv_outputs_data :: "bytes list"

record BlockView =
  bv_number :: u64
  bv_hash :: bytes
  bv_parent_hash :: bytes
  bv_timestamp :: u64
  bv_epoch :: u64
  bv_nonce :: u128
  bv_dao :: bytes
  bv_transactions :: "TransactionView list"
  bv_proposals :: "bytes list"
  bv_uncles :: "bytes list"

record parse_lib =
  calc_script_hash :: "Script \<Rightarrow> bytes"
  to_value :: "string \<Rightarrow> string + json"
  bigdecimal_from_str :: "string \<Rightarrow> int option"

section \<open>The parser\<close>

datatype ParseError = CapacityOverflow u64 | NonceParse | UnknownHashType string
  | Serialize string string

record ParsedBlock =
  pb_block :: BlockRow
  pb_transactions :: "TransactionRow list"
  pb_cells :: "CellRow list"
  pb_consumed :: "ConsumedCellRef list"

definition encode_hash_type :: "string \<Rightarrow> ParseError + HashType" where
  "encode_hash_type s =
     (if s = ''data'' then Inr Data
      else if s = ''type'' then Inr Type
      else if s = ''data1'' then Inr Data1
      else if s = ''data2'' then Inr Data2
      else Inl (UnknownHashType s))"

definition to_i64 :: "u64 \<Rightarrow> ParseError + i64" where
  "to_i64 n = ok_or (i64_try_from n) (CapacityOverflow n)"

definition to_i32 :: "int \<Rightarrow> i32" where
  "to_i32 n = unwrap_or (i32_try_from n) i32_MAX"

definition parse_type_script ::
  "parse_lib \<Rightarrow> Script option
     \<Rightarrow> ParseError + (bytes option \<times> HashType option \<times> bytes option \<times> bytes option)" where
  "parse_type_script lib ty =
     (case ty of
        None \<Rightarrow> Inr (None, None, None, None)
      | Some script \<Rightarrow>
          and_then (encode_hash_type (sc_hash_type script)) (\<lambda>ht.
            Inr (Some (sc_code_hash script), Some ht, Some (sc_args script),
                 Some (calc_script_hash lib script))))"

definition parse_output ::
  "parse_lib \<Rightarrow> bytes \<Rightarrow> i64 \<Rightarrow> nat \<Rightarrow> CellOutput \<Rightarrow> bytes \<Rightarrow> ParseError + CellRow" where
  "parse_output lib tx_hash block_number output_index output data =
     and_then (to_i64 (co_capacity output)) (\<lambda>capacity_shannons.
     and_then (parse_type_script lib (co_type output))
       (\<lambda>(type_code_hash, type_hash_type, type_args, type_hash).
     and_then (encode_hash_type (sc_hash_type (co_lock output))) (\<lambda>lock_hash_type.
       Inr \<lparr>cr_tx_hash = tx_hash, cr_output_index = to_i32 (int output_index),
            cr_block_number = block_number, cr_capacity_shannons = capacity_shannons,
            cr_lock_code_hash = sc_code_hash (co_lock output),
            cr_lock_hash_type = lock_hash_type, cr_lock_args = sc_args (co_lock output),
            cr_lock_hash = calc_script_hash lib (co_lock output),
            cr_type_code_hash = type_code_hash, cr_type_hash_type = type_hash_type,
            cr_type_args = type_args, cr_type_hash = type_hash, cr_data = data\<rparr>)))"

text \<open>The two inner loops push onto vectors owned by the outer one.\<close>

fun parse_outputs ::
  "parse_lib \<Rightarrow> bytes \<Rightarrow> i64 \<Rightarrow> nat \<Rightarrow> (CellOutput \<times> bytes) list \<Rightarrow> CellRow list
     \<Rightarrow> ParseError + CellRow list" where
  "parse_outputs lib tx_hash bn i [] cells = Inr cells"
| "parse_outputs lib tx_hash bn i ((output, data) # rest) cells =
     and_then (parse_output lib tx_hash bn i output data)
       (\<lambda>row. parse_outputs lib tx_hash bn (Suc i) rest (cells @ [row]))"

fun parse_inputs ::
  "bytes \<Rightarrow> i64 \<Rightarrow> nat \<Rightarrow> CellInput list \<Rightarrow> ConsumedCellRef list \<Rightarrow> ConsumedCellRef list" where
  "parse_inputs tx_hash bn i [] consumed = consumed"
| "parse_inputs tx_hash bn i (input # rest) consumed =
     (if list_all (\<lambda>b. b = 0) (ci_previous_tx_hash input)
      then parse_inputs tx_hash bn (Suc i) rest consumed
      else parse_inputs tx_hash bn (Suc i) rest (consumed @
             [\<lparr>cc_tx_hash = ci_previous_tx_hash input,
               cc_output_index = to_i32 (ci_previous_index input),
               cc_consumed_by_tx_hash = tx_hash,
               cc_consumed_by_input_index = to_i32 (int i),
               cc_consumed_at_block_number = bn\<rparr>]))"

definition serialize_field :: "parse_lib \<Rightarrow> string \<Rightarrow> string \<Rightarrow> ParseError + json" where
  "serialize_field lib field blob = map_err (Serialize field) (to_value lib blob)"

definition parse_transaction_row ::
  "parse_lib \<Rightarrow> i64 \<Rightarrow> nat \<Rightarrow> TransactionView \<Rightarrow> ParseError + TransactionRow" where
  "parse_transaction_row lib bn tx_index tx =
     and_then (serialize_field lib ''cell_deps'' (tv_cell_deps tx)) (\<lambda>cell_deps.
     and_then (serialize_field lib ''header_deps'' (tv_header_deps tx)) (\<lambda>header_deps.
     and_then (serialize_field lib ''witnesses'' (tv_witnesses tx)) (\<lambda>witnesses.
       Inr \<lparr>tr_hash = tv_hash tx, tr_block_number = bn, tr_tx_index = to_i32 (int tx_index),
            tr_version = to_i32 (tv_version tx), tr_cell_deps = cell_deps,
            tr_header_deps = header_deps, tr_witnesses = witnesses,
            tr_inputs_count = to_i32 (int (length (tv_inputs tx))),
            tr_outputs_count = to_i32 (int (length (tv_outputs tx)))\<rparr>)))"

fun parse_transactions ::
  "parse_lib \<Rightarrow> i64 \<Rightarrow> nat \<Rightarrow> TransactionView list
     \<Rightarrow> TransactionRow list \<times> CellRow list \<times> ConsumedCellRef list
     \<Rightarrow> ParseError + (TransactionRow list \<times> CellRow list \<times> ConsumedCellRef list)" where
  "parse_transactions lib bn i [] acc = Inr acc"
| "parse_transactions lib bn i (tx # rest) (transactions, cells, consumed) =
     and_then (parse_transaction_row lib bn i tx) (\<lambda>row.
     and_then (parse_outputs lib (tv_hash tx) bn 0 (zip (tv_outputs tx) (tv_outputs_data tx)) cells)
       (\<lambda>cells'.
       parse_transactions lib bn (Suc i) rest
         (transactions @ [row], cells', parse_inputs (tv_hash tx) bn 0 (tv_inputs tx) consumed)))"

definition parse_block :: "parse_lib \<Rightarrow> BlockView \<Rightarrow> ParseError + ParsedBlock" where
  "parse_block lib view =
     and_then (to_i64 (bv_number view)) (\<lambda>block_number.
     and_then (ok_or (bigdecimal_from_str lib (int_dec (bv_nonce view))) NonceParse) (\<lambda>nonce.
     and_then (to_i64 (bv_timestamp view)) (\<lambda>timestamp_ms.
     and_then (to_i64 (bv_epoch view)) (\<lambda>epoch.
     and_then (parse_transactions lib block_number 0 (bv_transactions view) ([], [], []))
       (\<lambda>(transactions, cells, consumed).
       Inr \<lparr>pb_block = \<lparr>br_number = block_number, br_hash = bv_hash view,
              br_parent_hash = bv_parent_hash view, br_timestamp_ms = timestamp_ms,
              br_epoch = epoch,
              br_transactions_count = to_i32 (int (length (bv_transactions view))),
              br_proposals_count = to_i32 (int (length (bv_proposals view))),
              br_uncles_count = to_i32 (int (length (bv_uncles view))),
              br_nonce = nonce, br_dao = bv_dao view\<rparr>,
            pb_transactions = transactions, pb_cells = cells, pb_consumed = consumed\<rparr>)))))"

section \<open>The loops against a transaction-wise reference\<close>

text \<open>\<open>parse_tx\<close> parses one transaction on its own; the loops of \<^verbatim>\<open>parse_block\<close>, which thread three
  growing vectors through all transactions, compute exactly the concatenation of its results.\<close>

definition is_null_input :: "CellInput \<Rightarrow> bool" where
  "is_null_input input \<longleftrightarrow> list_all (\<lambda>b. b = 0) (ci_previous_tx_hash input)"

definition consumed_ref :: "bytes \<Rightarrow> i64 \<Rightarrow> nat \<times> CellInput \<Rightarrow> ConsumedCellRef" where
  "consumed_ref tx_hash bn = (\<lambda>(i, input).
     \<lparr>cc_tx_hash = ci_previous_tx_hash input, cc_output_index = to_i32 (ci_previous_index input),
      cc_consumed_by_tx_hash = tx_hash, cc_consumed_by_input_index = to_i32 (int i),
      cc_consumed_at_block_number = bn\<rparr>)"

definition consumed_refs :: "i64 \<Rightarrow> TransactionView \<Rightarrow> ConsumedCellRef list" where
  "consumed_refs bn tx = map (consumed_ref (tv_hash tx) bn)
     (filter (\<lambda>(i, input). \<not> is_null_input input) (enumerate 0 (tv_inputs tx)))"

definition created_cells :: "parse_lib \<Rightarrow> i64 \<Rightarrow> TransactionView \<Rightarrow> ParseError + CellRow list" where
  "created_cells lib bn tx =
     collect_results (\<lambda>(i, output, data). parse_output lib (tv_hash tx) bn i output data)
       (enumerate 0 (zip (tv_outputs tx) (tv_outputs_data tx)))"

definition parse_tx ::
  "parse_lib \<Rightarrow> i64 \<Rightarrow> nat \<times> TransactionView
     \<Rightarrow> ParseError + (TransactionRow \<times> CellRow list \<times> ConsumedCellRef list)" where
  "parse_tx lib bn = (\<lambda>(i, tx).
     and_then (parse_transaction_row lib bn i tx) (\<lambda>row.
     and_then (created_cells lib bn tx) (\<lambda>cells. Inr (row, cells, consumed_refs bn tx))))"

lemma parse_outputs_eq:
  "parse_outputs lib h bn i ods cells =
     map_ok (\<lambda>rows. cells @ rows)
       (collect_results (\<lambda>(j, output, data). parse_output lib h bn j output data) (enumerate i ods))"
proof (induction lib h bn i ods cells rule: parse_outputs.induct)
  case (2 lib h bn i out dat rest cells)
  show ?case
  proof (cases "parse_output lib h bn i out dat")
    case (Inr row)
    with 2 show ?thesis
      by (cases "collect_results (\<lambda>(j, output, data). parse_output lib h bn j output data)
            (enumerate (Suc i) rest)") simp_all
  qed simp
qed simp

lemma parse_inputs_eq:
  "parse_inputs h bn i inputs consumed =
     consumed @ map (consumed_ref h bn)
       (filter (\<lambda>(j, input). \<not> is_null_input input) (enumerate i inputs))"
  by (induction h bn i inputs consumed rule: parse_inputs.induct)
    (simp_all add: consumed_ref_def is_null_input_def)

lemma parse_transactions_eq:
  "parse_transactions lib bn i txs (ts, cs, rs) =
     map_ok (\<lambda>ps. (ts @ map fst ps, cs @ concat (map (fst \<circ> snd) ps),
                   rs @ concat (map (snd \<circ> snd) ps)))
       (collect_results (parse_tx lib bn) (enumerate i txs))"
proof (induction txs arbitrary: i ts cs rs)
  case (Cons tx txs)
  show ?case
  proof (cases "parse_tx lib bn (i, tx)")
    case (Inl e)
    then show ?thesis
      by (auto simp: parse_tx_def created_cells_def parse_outputs_eq res_simps)
  next
    case (Inr p)
    then obtain row cells where row: "parse_transaction_row lib bn i tx = Inr row"
      and cells: "created_cells lib bn tx = Inr cells"
      and p: "p = (row, cells, consumed_refs bn tx)"
      by (auto simp: parse_tx_def res_simps)
    have "parse_transactions lib bn i (tx # txs) (ts, cs, rs) =
        parse_transactions lib bn (Suc i) txs
          (ts @ [row], cs @ cells, rs @ consumed_refs bn tx)"
      using row cells
      by (simp add: parse_outputs_eq created_cells_def parse_inputs_eq consumed_refs_def)
    then show ?thesis using Inr p
      by (cases "collect_results (parse_tx lib bn) (enumerate (Suc i) txs)")
        (simp_all add: Cons.IH)
  qed
qed simp

lemma parse_block_Inr:
  assumes "parse_block lib view = Inr pb"
  obtains ps where
    "collect_results (parse_tx lib (bv_number view)) (enumerate 0 (bv_transactions view)) = Inr ps"
    "pb_transactions pb = map fst ps" "pb_cells pb = concat (map (fst \<circ> snd) ps)"
    "pb_consumed pb = concat (map (snd \<circ> snd) ps)"
    "br_number (pb_block pb) = bv_number view" "br_hash (pb_block pb) = bv_hash view"
    "br_parent_hash (pb_block pb) = bv_parent_hash view" "in_i64 (bv_number view)"
  using assms that
  by (auto simp: parse_block_def to_i64_def parse_transactions_eq res_simps)

lemma parse_tx_rows:
  assumes "parse_tx lib bn (i, tx) = Inr (row, cells, refs)"
  shows "tr_hash row = tv_hash tx" "tr_block_number row = bn" "refs = consumed_refs bn tx"
    "created_cells lib bn tx = Inr cells"
  using assms by (auto simp: parse_tx_def parse_transaction_row_def res_simps)

lemma parse_output_fields:
  assumes "parse_output lib h bn i output data = Inr row"
  shows "cr_tx_hash row = h" "cr_output_index row = to_i32 (int i)" "cr_block_number row = bn"
    "cr_lock_hash row = calc_script_hash lib (co_lock output)"
    "cr_type_hash row = map_option (calc_script_hash lib) (co_type output)"
  using assms
  by (auto simp: parse_output_def parse_type_script_def res_simps split: option.splits)

lemma created_cells_length:
  "created_cells lib bn tx = Inr cells \<Longrightarrow>
     length cells = min (length (tv_outputs tx)) (length (tv_outputs_data tx))"
  by (auto simp: created_cells_def collect_results_Inr dest!: arg_cong [where f = length])

lemma created_cells_nth:
  assumes "created_cells lib bn tx = Inr cells" and "i < length cells"
  shows "parse_output lib (tv_hash tx) bn i (tv_outputs tx ! i) (tv_outputs_data tx ! i)
         = Inr (cells ! i)"
proof -
  let ?ods = "enumerate 0 (zip (tv_outputs tx) (tv_outputs_data tx))"
  let ?f = "\<lambda>(i, output, data). parse_output lib (tv_hash tx) bn i output data"
  from assms(1) have eq: "map ?f ?ods = map Inr cells"
    by (simp add: created_cells_def collect_results_Inr)
  from assms created_cells_length have i: "i < length (zip (tv_outputs tx) (tv_outputs_data tx))"
    by fastforce
  then have "?f (?ods ! i) = Inr (cells ! i)"
    using arg_cong [OF eq, of "\<lambda>xs. xs ! i"] assms(2) by (simp add: nth_enumerate_eq)
  then show ?thesis using i by (simp add: nth_enumerate_eq)
qed

lemma created_cells_block_number:
  "created_cells lib bn tx = Inr cells \<Longrightarrow> c \<in> set cells \<Longrightarrow>
     cr_block_number c = bn \<and> cr_tx_hash c = tv_hash tx"
  by (metis in_set_conv_nth created_cells_nth parse_output_fields(1,3))

section \<open>What a block parses to, and when\<close>

definition output_keys :: "TransactionView \<Rightarrow> (bytes \<times> i32) list" where
  "output_keys tx = map (\<lambda>i. (tv_hash tx, to_i32 (int i)))
     [0..<min (length (tv_outputs tx)) (length (tv_outputs_data tx))]"

lemma created_cells_keys:
  assumes "created_cells lib bn tx = Inr cells"
  shows "map (\<lambda>c. (cr_tx_hash c, cr_output_index c)) cells = output_keys tx"
proof (rule nth_equalityI)
  show "length (map (\<lambda>c. (cr_tx_hash c, cr_output_index c)) cells) = length (output_keys tx)"
    using created_cells_length [OF assms] by (simp add: output_keys_def)
next
  fix i assume "i < length (map (\<lambda>c. (cr_tx_hash c, cr_output_index c)) cells)"
  then show "map (\<lambda>c. (cr_tx_hash c, cr_output_index c)) cells ! i = output_keys tx ! i"
    using parse_output_fields(1,2) [OF created_cells_nth [OF assms]] created_cells_length [OF assms]
    by (simp add: output_keys_def)
qed

definition known_hash_type :: "Script \<Rightarrow> bool" where
  "known_hash_type s \<longleftrightarrow> sc_hash_type s \<in> {''data'', ''type'', ''data1'', ''data2''}"

definition output_storable :: "CellOutput \<Rightarrow> bool" where
  "output_storable o1 \<longleftrightarrow> in_i64 (co_capacity o1) \<and> known_hash_type (co_lock o1) \<and>
     (case co_type o1 of None \<Rightarrow> True | Some s \<Rightarrow> known_hash_type s)"

lemma encode_hash_type_Inr: "(\<exists>t. encode_hash_type (sc_hash_type s) = Inr t) \<longleftrightarrow> known_hash_type s"
  by (auto simp: encode_hash_type_def known_hash_type_def)

lemma parse_output_succeeds:
  "(\<exists>row. parse_output lib h bn i out dat = Inr row) \<longleftrightarrow> output_storable out"
proof -
  have "(\<exists>t. parse_type_script lib (co_type out) = Inr t) \<longleftrightarrow>
      (case co_type out of None \<Rightarrow> True | Some s \<Rightarrow> known_hash_type s)"
    using encode_hash_type_Inr by (auto simp: parse_type_script_def res_simps split: option.splits)
  moreover have "(\<exists>n. to_i64 (co_capacity out) = Inr n) \<longleftrightarrow> in_i64 (co_capacity out)"
    by (auto simp: to_i64_def res_simps)
  ultimately show ?thesis using encode_hash_type_Inr [of "co_lock out"]
    by (fastforce simp: parse_output_def output_storable_def res_simps)
qed

definition tx_storable :: "parse_lib \<Rightarrow> TransactionView \<Rightarrow> bool" where
  "tx_storable lib tx \<longleftrightarrow> (\<exists>j. to_value lib (tv_cell_deps tx) = Inr j) \<and>
     (\<exists>j. to_value lib (tv_header_deps tx) = Inr j) \<and> (\<exists>j. to_value lib (tv_witnesses tx) = Inr j) \<and>
     list_all (\<lambda>(out, dat). output_storable out) (zip (tv_outputs tx) (tv_outputs_data tx))"

lemma parse_tx_succeeds: "(\<exists>r. parse_tx lib bn (i, tx) = Inr r) \<longleftrightarrow> tx_storable lib tx"
proof -
  let ?ods = "zip (tv_outputs tx) (tv_outputs_data tx)"
  have "(\<exists>cells. created_cells lib bn tx = Inr cells) \<longleftrightarrow>
      list_all (\<lambda>(i, out, dat). output_storable out) (enumerate 0 ?ods)"
    unfolding created_cells_def collect_results_succeeds
    by (rule list.pred_cong, rule refl, simp only: split_paired_all prod.case parse_output_succeeds)
  also have "\<dots> \<longleftrightarrow> list_all (\<lambda>(out, dat). output_storable out) ?ods"
    by (rule list_all_enumerate)
  finally have cells: "(\<exists>cells. created_cells lib bn tx = Inr cells) \<longleftrightarrow>
      list_all (\<lambda>(out, dat). output_storable out) ?ods" .
  have "(\<exists>row. parse_transaction_row lib bn i tx = Inr row) \<longleftrightarrow> (\<exists>j. to_value lib (tv_cell_deps tx) = Inr j) \<and>
     (\<exists>j. to_value lib (tv_header_deps tx) = Inr j) \<and> (\<exists>j. to_value lib (tv_witnesses tx) = Inr j)"
    by (auto simp: parse_transaction_row_def serialize_field_def res_simps)
  with cells show ?thesis by (auto simp: parse_tx_def tx_storable_def res_simps)
qed

end
