(* ===== verification/Node.thy ===== *)
theory Node
  imports Parser
begin

text \<open>
  The shared error type \<^verbatim>\<open>crates/common/src/error.rs\<close> and the JSON-RPC client of
  \<^verbatim>\<open>crates/common/src/ckb/client.rs\<close>.  The HTTP exchange (\<^verbatim>\<open>reqwest\<close>) and the typed decoding
  (\<^verbatim>\<open>serde_json::from_value\<close>) are arguments; the envelope logic in between is the client's own.
\<close>

datatype CommonError = Config string | Logging string | CkbHttp string | CkbRpc i64 string
  | CkbDecode string | InvalidUrl string

record JsonRpcRequest =
  rq_jsonrpc :: string
  rq_id :: u64
  rq_method :: string
  rq_params :: json

record JsonRpcError =
  re_code :: i64
  re_message :: string

record JsonRpcResponse =
  rs_result :: "json option"
  rs_error :: "JsonRpcError option"

text \<open>One call: the request id counter moves on by one (\<^verbatim>\<open>fetch_add\<close>, which wraps), the envelope's
  \<^verbatim>\<open>error\<close> wins over \<^verbatim>\<open>result\<close>, and a missing \<^verbatim>\<open>result\<close> is \<^verbatim>\<open>null\<close>.\<close>

definition ckb_call ::
  "(JsonRpcRequest \<Rightarrow> CommonError + JsonRpcResponse) \<Rightarrow> (json \<Rightarrow> string + 'r) \<Rightarrow> u64 \<Rightarrow> string \<Rightarrow> json
     \<Rightarrow> (CommonError + 'r) \<times> u64" where
  "ckb_call http from_value next_id method params =
     (and_then (http \<lparr>rq_jsonrpc = ''2.0'', rq_id = next_id, rq_method = method,
                      rq_params = params\<rparr>)
        (\<lambda>envelope.
          case rs_error envelope of
            Some err \<Rightarrow> Inl (CkbRpc (re_code err) (re_message err))
          | None \<Rightarrow> map_err CkbDecode (from_value (unwrap_or (rs_result envelope) JNull))),
      as_u64 (next_id + 1))"

fun nat_hex :: "nat \<Rightarrow> string" where
  "nat_hex n = (let d = char_of (if n mod 16 < 10 then 48 + n mod 16 else 87 + n mod 16)
     in if n < 16 then [d] else nat_hex (n div 16) @ [d])"

declare nat_hex.simps [simp del]

definition tip_block_number where
  "tip_block_number http (from_value :: json \<Rightarrow> string + u64) next_id =
     ckb_call http from_value next_id ''get_tip_block_number'' (JArr [])"

definition get_block_by_number where
  "get_block_by_number http (from_value :: json \<Rightarrow> string + BlockView option) next_id number =
     ckb_call http from_value next_id ''get_block_by_number''
       (JArr [JStr (''0x'' @ nat_hex (nat number))])"

definition chain_info where
  "chain_info http from_value next_id =
     ckb_call http from_value next_id ''get_blockchain_info'' (JArr [])"

text \<open>An error envelope is always an error of the call, whatever else it carries.\<close>

lemma ckb_call_error_wins:
  assumes "http \<lparr>rq_jsonrpc = ''2.0'', rq_id = i, rq_method = m, rq_params = p\<rparr> = Inr env"
    and "rs_error env = Some err"
  shows "fst (ckb_call http fv i m p) = Inl (CkbRpc (re_code err) (re_message err))"
  using assms by (simp add: ckb_call_def)

lemma ckb_call_null:
  assumes "http \<lparr>rq_jsonrpc = ''2.0'', rq_id = i, rq_method = m, rq_params = p\<rparr> = Inr env"
    and "rs_error env = None" and "rs_result env = None"
  shows "fst (ckb_call http fv i m p) = map_err CkbDecode (fv JNull)"
  using assms by (simp add: ckb_call_def)

end
