(* ===== verification/Reorg.thy ===== *)
theory Reorg
  imports ChainDb Node
begin

text \<open>
  \<^verbatim>\<open>crates/indexer/src/reorg.rs\<close>: the walk back to the common ancestor and the rollback
  transaction.  The node is a function from heights to what \<^verbatim>\<open>get_block_by_number\<close> answers; the
  lookup of stored hashes is the closure the caller passes.
\<close>

datatype ReorgError = ReorgRpc CommonError | ReorgDb DbError | NoCommonAncestor

record Ancestor =
  an_block_number :: i64
  an_node_hash :: bytes

type_synonym node = "u64 \<Rightarrow> CommonError + BlockView option"

section \<open>The walk back\<close>

function find_common_ancestor ::
  "node \<Rightarrow> (i64 \<Rightarrow> DbError + bytes option) \<Rightarrow> i64 \<Rightarrow> ReorgError + Ancestor" where
  "find_common_ancestor ckb indexed_hash_at height =
     (if height < 0 then Inl NoCommonAncestor
      else and_then (map_err ReorgRpc (ckb (unwrap_or (u64_try_from height) 0))) (\<lambda>found.
           and_then (ok_or found (ReorgRpc (CkbRpc (-32000)
             (''node missing block '' @ int_dec height @ '' during reorg walk'')))) (\<lambda>block.
           and_then (map_err ReorgDb (indexed_hash_at height)) (\<lambda>indexed.
             if indexed = Some (bv_hash block)
             then Inr \<lparr>an_block_number = height, an_node_hash = bv_hash block\<rparr>
             else find_common_ancestor ckb indexed_hash_at (height - 1)))))"
  by pat_completeness auto
termination
  by (relation "measure (\<lambda>(_, _, height). nat (height + 1))") auto

declare find_common_ancestor.simps [simp del]

text \<open>The node and the index agree at a height.\<close>

definition agrees_at :: "node \<Rightarrow> (i64 \<Rightarrow> DbError + bytes option) \<Rightarrow> i64 \<Rightarrow> bool" where
  "agrees_at ckb indexed_hash_at h \<longleftrightarrow>
     (\<exists>block. ckb h = Inr (Some block) \<and> indexed_hash_at h = Inr (Some (bv_hash block)))"

lemma u64_height [simp]: "0 \<le> h \<Longrightarrow> h \<le> i64_MAX \<Longrightarrow> unwrap_or (u64_try_from h) 0 = h"
  by (simp add: u64_try_from_def)

lemma find_common_ancestor_Inr:
  assumes "find_common_ancestor ckb idx s = Inr a" and "s \<le> i64_MAX"
  shows "0 \<le> an_block_number a \<and> an_block_number a \<le> s
    \<and> agrees_at ckb idx (an_block_number a)
    \<and> idx (an_block_number a) = Inr (Some (an_node_hash a))
    \<and> (\<forall>h. an_block_number a < h \<and> h \<le> s \<longrightarrow> \<not> agrees_at ckb idx h)"
  using assms
proof (induction ckb idx s rule: find_common_ancestor.induct)
  case (1 ckb idx s)
  from "1.prems"(1) obtain block indexed where s: "0 \<le> s" and blk: "ckb s = Inr (Some block)"
    and ix: "idx s = Inr indexed"
    and rest: "(if indexed = Some (bv_hash block)
         then Inr \<lparr>an_block_number = s, an_node_hash = bv_hash block\<rparr>
         else find_common_ancestor ckb idx (s - 1)) = Inr a"
    using "1.prems"(2)
    by (subst (asm) find_common_ancestor.simps) (auto simp: res_simps split: if_splits)
  show ?case
  proof (cases "indexed = Some (bv_hash block)")
    case True
    with rest blk ix s show ?thesis by (auto simp: agrees_at_def)
  next
    case False
    with rest have rec: "find_common_ancestor ckb idx (s - 1) = Inr a" by simp
    have IH: "0 \<le> an_block_number a \<and> an_block_number a \<le> s - 1
      \<and> agrees_at ckb idx (an_block_number a)
      \<and> idx (an_block_number a) = Inr (Some (an_node_hash a))
      \<and> (\<forall>h. an_block_number a < h \<and> h \<le> s - 1 \<longrightarrow> \<not> agrees_at ckb idx h)"
      by (rule "1.IH" [OF _ False rec]) (use s "1.prems"(2) in auto)
    have "\<not> agrees_at ckb idx s" using False blk ix by (auto simp: agrees_at_def)
    moreover have "h \<le> s - 1 \<or> h = s" if "h \<le> s" for h using that by arith
    ultimately show ?thesis using IH by fastforce
  qed
qed

text \<open>When node and index answer at every height, the walk succeeds exactly if they agree
  somewhere.\<close>

lemma find_common_ancestor_finds:
  assumes "\<And>h. 0 \<le> h \<Longrightarrow> h \<le> s \<Longrightarrow> \<exists>b. ckb h = Inr (Some b)"
    and "\<And>h. 0 \<le> h \<Longrightarrow> h \<le> s \<Longrightarrow> \<exists>x. idx h = Inr x"
    and "0 \<le> g" "g \<le> s" "agrees_at ckb idx g" and "s \<le> i64_MAX"
  shows "\<exists>a. find_common_ancestor ckb idx s = Inr a \<and> g \<le> an_block_number a"
  using assms
proof (induction ckb idx s rule: find_common_ancestor.induct)
  case (1 ckb idx s)
  have s: "0 \<le> s" using "1.prems"(3,4) by simp
  obtain b where b: "ckb s = Inr (Some b)" using "1.prems"(1) s by blast
  obtain x where x: "idx s = Inr x" using "1.prems"(2) s by blast
  show ?case
  proof (cases "x = Some (bv_hash b)")
    case True
    with b x s "1.prems"(4,6) show ?thesis by (subst find_common_ancestor.simps) simp
  next
    case False
    with b x "1.prems"(5) have "g \<noteq> s" by (auto simp: agrees_at_def)
    then have "\<exists>a. find_common_ancestor ckb idx (s - 1) = Inr a \<and> g \<le> an_block_number a"
      using "1.prems" by (intro "1.IH" [OF _ False]) (use s in auto)
    with False b x s "1.prems"(6) show ?thesis by (subst find_common_ancestor.simps) simp
  qed
qed

section \<open>The rollback transaction\<close>

text \<open>What the database session does at each statement of one indexer step: \<^verbatim>\<open>now()\<close>, the next
  value of the \<^verbatim>\<open>reorg_log\<close> sequence, which statements fail, and how the commit ends.\<close>

record pg_env =
  pg_now :: timestamp
  pg_serial :: i64
  pg_hash_at :: bool
  pg_walk_hash_at :: "i64 \<Rightarrow> bool"
  pg_begin :: bool
  pg_block_insert :: bool
  pg_tx_insert :: "TransactionRow \<Rightarrow> bool"
  pg_cell_insert :: "CellRow \<Rightarrow> bool"
  pg_mark_consumed :: "ConsumedCellRef \<Rightarrow> bool"
  pg_checkpoint :: bool
  pg_reorg_insert :: bool
  pg_restore :: bool
  pg_delete :: bool
  pg_reorg_complete :: bool
  pg_commit :: commit_result

record RollbackOutcome =
  ro_log_id :: i64
  ro_depth :: i32
  ro_deleted_blocks :: nat
  ro_restored_cells :: nat
  ro_ancestor_height :: i64

definition rollback_depth :: "i64 \<Rightarrow> i64 \<Rightarrow> i32" where
  "rollback_depth previous_tip ancestor = unwrap_or (i32_try_from (previous_tip - ancestor)) i32_MAX"

definition rollback_body ::
  "pg_env \<Rightarrow> Ancestor \<Rightarrow> i64 \<Rightarrow> bytes \<Rightarrow> chain_db \<Rightarrow> DbError + (RollbackOutcome \<times> chain_db)" where
  "rollback_body pg ancestor previous_tip indexed_hash_at_divergence d =
     (let divergence_height = i64_saturating_add (an_block_number ancestor) 1;
          depth = rollback_depth previous_tip (an_block_number ancestor)
      in and_then (reorg_log_insert (pg_reorg_insert pg) (pg_serial pg) (pg_now pg)
                     divergence_height (an_node_hash ancestor) indexed_hash_at_divergence depth d)
           (\<lambda>(log_id, d1).
         and_then (cells_restore_consumed_above (pg_restore pg) (an_block_number ancestor) d1)
           (\<lambda>(restored_cells, d2).
         and_then (blocks_delete_above (pg_delete pg) (an_block_number ancestor) d2)
           (\<lambda>(deleted_blocks, d3).
         and_then (checkpoint_upsert (pg_checkpoint pg) (an_block_number ancestor)
                     (an_node_hash ancestor) d3)
           (\<lambda>d4.
         and_then (reorg_log_mark_completed (pg_reorg_complete pg) (pg_now pg) log_id d4)
           (\<lambda>d5.
           Inr (\<lparr>ro_log_id = log_id, ro_depth = depth, ro_deleted_blocks = deleted_blocks,
                  ro_restored_cells = restored_cells,
                  ro_ancestor_height = an_block_number ancestor\<rparr>, d5)))))))"

definition rollback_to ::
  "pg_env \<Rightarrow> Ancestor \<Rightarrow> i64 \<Rightarrow> bytes \<Rightarrow> chain_db \<Rightarrow> (ReorgError + RollbackOutcome) \<times> chain_db" where
  "rollback_to pg ancestor previous_tip indexed_hash_at_divergence d =
     map_prod (map_err ReorgDb) id
       (in_transaction (pg_begin pg) (pg_commit pg)
          (rollback_body pg ancestor previous_tip indexed_hash_at_divergence) d)"

section \<open>What the rollback transaction writes\<close>

definition reorg_entry :: "pg_env \<Rightarrow> Ancestor \<Rightarrow> i64 \<Rightarrow> bytes \<Rightarrow> ReorgLogEntry" where
  "reorg_entry pg a previous_tip indexed_hash =
     \<lparr>rl_id = pg_serial pg, rl_detected_at = pg_now pg,
      rl_divergence_block_number = i64_saturating_add (an_block_number a) 1,
      rl_divergence_node_hash = an_node_hash a, rl_divergence_indexed_hash = indexed_hash,
      rl_depth = rollback_depth previous_tip (an_block_number a),
      rl_completed_at = Some (pg_now pg), rl_status = Completed, rl_error = None\<rparr>"

definition rolled_back :: "i64 \<Rightarrow> bytes \<Rightarrow> chain_db \<Rightarrow> chain_db" where
  "rolled_back A h d =
     (let keys = br_number ` set (filter (\<lambda>b. br_number b > A) (db_blocks d))
      in d\<lparr>db_blocks := filter (\<lambda>b. \<not> br_number b > A) (db_blocks d),
           db_transactions := filter (\<lambda>t. tr_block_number t \<notin> keys) (db_transactions d),
           db_cells := filter (\<lambda>c. c_block_number c \<notin> keys) (map (restore A) (db_cells d)),
           db_indexer_state := Some \<lparr>cp_last_indexed_block = A, cp_last_indexed_hash = h\<rparr>\<rparr>)"

lemma mark_completed_fresh:
  "i \<notin> rl_id ` set es \<Longrightarrow>
     map (\<lambda>e. if rl_id e = i then e\<lparr>rl_status := Completed, rl_completed_at := Some t\<rparr> else e) es = es"
  by (rule map_idI) auto

lemma rollback_body_Inr:
  assumes "rollback_body pg a prev ih d = Inr (out, d')"
  shows "d' = (rolled_back (an_block_number a) (an_node_hash a) d)
           \<lparr>db_reorg_log := db_reorg_log d @ [reorg_entry pg a prev ih]\<rparr>"
    and "out = \<lparr>ro_log_id = pg_serial pg, ro_depth = rollback_depth prev (an_block_number a),
           ro_deleted_blocks = length (filter (\<lambda>b. br_number b > an_block_number a) (db_blocks d)),
           ro_restored_cells = length (filter (\<lambda>c. case c_consumed_at_block_number c of
               Some n \<Rightarrow> n > an_block_number a | None \<Rightarrow> False) (db_cells d)),
           ro_ancestor_height = an_block_number a\<rparr>"
  using assms
  by (auto simp: rollback_body_def Let_def res_simps db_defs rolled_back_def reorg_entry_def
      mark_completed_fresh split: if_splits)

lemma rollback_body_schema:
  assumes "schema_ok d" and "rollback_body pg a prev ih d = Inr (out, d')"
  shows "schema_ok d'"
  using assms(2,1) unfolding rollback_body_def Let_def
  by (clarsimp simp: res_simps)
    (drule (1) reorg_log_insert_schema cells_restore_schema blocks_delete_above_schema
       checkpoint_upsert_schema reorg_log_mark_completed_schema)+

definition answers :: "node \<Rightarrow> (i64 \<Rightarrow> DbError + bytes option) \<Rightarrow> i64 \<Rightarrow> bool" where
  "answers ckb idx s \<longleftrightarrow> (\<forall>h. 0 \<le> h \<and> h \<le> s \<longrightarrow> (\<exists>b. ckb h = Inr (Some b)) \<and> (\<exists>x. idx h = Inr x))"

lemma find_common_ancestor_total:
  assumes "answers ckb idx s" and "s \<le> i64_MAX"
  shows "(\<exists>a. find_common_ancestor ckb idx s = Inr a) \<or> find_common_ancestor ckb idx s = Inl NoCommonAncestor"
  using assms
proof (induction ckb idx s rule: find_common_ancestor.induct)
  case (1 ckb idx s)
  show ?case
  proof (cases "s < 0")
    case False
    then obtain b x where b: "ckb s = Inr (Some b)" and x: "idx s = Inr x"
      using "1.prems"(1) by (fastforce simp: answers_def)
    have "answers ckb idx (s - 1)" using "1.prems"(1) by (simp add: answers_def)
    with 1 False b x show ?thesis
      by (cases "x = Some (bv_hash b)"; subst (1 2) find_common_ancestor.simps) auto
  qed (simp add: find_common_ancestor.simps)
qed

end
