(* ===== verification/Events.thy ===== *)
theory Events
  imports Models
begin

text \<open>
  The event payloads of \<^verbatim>\<open>crates/common/src/events.rs\<close> and their publication by
  \<^verbatim>\<open>crates/indexer/src/events.rs\<close>.  \<^verbatim>\<open>hex::encode\<close> and \<^verbatim>\<open>serde_json::to_string\<close> are library code and
  appear as the fields of \<open>event_lib\<close>; a publication is the list of messages handed to Redis.
\<close>

definition BLOCKS_CHANNEL :: string where "BLOCKS_CHANNEL = ''cellora:blocks''"
definition CELLS_CHANNEL :: string where "CELLS_CHANNEL = ''cellora:cells''"
definition REORG_CHANNEL :: string where "REORG_CHANNEL = ''cellora:reorg''"

record BlockMinedEvent =
  bm_number :: i64
  bm_hash :: string
  bm_parent_hash :: string
  bm_timestamp :: u64

record CellCreatedEvent =
  ce_tx_hash :: string
  ce_output_index :: i32
  ce_block_number :: i64
  ce_lock_code_hash :: string
  ce_lock_hash_type :: i16
  ce_lock_args :: string
  ce_lock_hash :: string
  ce_type_code_hash :: "string option"
  ce_type_hash_type :: "i16 option"
  ce_type_args :: "string option"
  ce_type_hash :: "string option"
  ce_capacity_shannons :: i64

record ReorgEvent =
  rv_ancestor_block_number :: i64
  rv_ancestor_hash :: string
  rv_depth :: i32
  rv_completed_at :: timestamp

record event_lib =
  hex_encode :: "bytes \<Rightarrow> string"
  ser_block :: "BlockMinedEvent \<Rightarrow> string option"
  ser_cell :: "CellCreatedEvent \<Rightarrow> string option"
  ser_reorg :: "ReorgEvent \<Rightarrow> string option"

type_synonym message = "string \<times> string"

definition block_mined_event :: "(bytes \<Rightarrow> string) \<Rightarrow> 'a BlockRow_scheme \<Rightarrow> BlockMinedEvent" where
  "block_mined_event hex block =
     \<lparr>bm_number = br_number block, bm_hash = hex (br_hash block),
      bm_parent_hash = hex (br_parent_hash block),
      bm_timestamp = as_u64 (br_timestamp_ms block)\<rparr>"

definition cell_created_event :: "(bytes \<Rightarrow> string) \<Rightarrow> CellRow \<Rightarrow> CellCreatedEvent" where
  "cell_created_event hex cell =
     \<lparr>ce_tx_hash = hex (cr_tx_hash cell), ce_output_index = cr_output_index cell,
      ce_block_number = cr_block_number cell, ce_lock_code_hash = hex (cr_lock_code_hash cell),
      ce_lock_hash_type = HashType_as_i16 (cr_lock_hash_type cell),
      ce_lock_args = hex (cr_lock_args cell), ce_lock_hash = hex (cr_lock_hash cell),
      ce_type_code_hash = map_option hex (cr_type_code_hash cell),
      ce_type_hash_type = map_option HashType_as_i16 (cr_type_hash_type cell),
      ce_type_args = map_option hex (cr_type_args cell),
      ce_type_hash = map_option hex (cr_type_hash cell),
      ce_capacity_shannons = cr_capacity_shannons cell\<rparr>"

definition publish_block_and_cells ::
  "event_lib \<Rightarrow> 'a BlockRow_scheme \<Rightarrow> CellRow list \<Rightarrow> message list" where
  "publish_block_and_cells lib block cells =
     (case ser_block lib (block_mined_event (hex_encode lib) block) of
        None \<Rightarrow> []
      | Some payload \<Rightarrow>
          (BLOCKS_CHANNEL, payload) #
          List.map_filter (\<lambda>cell. map_option (\<lambda>p. (CELLS_CHANNEL, p))
             (ser_cell lib (cell_created_event (hex_encode lib) cell))) cells)"

definition publish_reorg :: "event_lib \<Rightarrow> bool \<Rightarrow> ReorgEvent \<Rightarrow> message list" where
  "publish_reorg lib redis event =
     (if \<not> redis then []
      else case ser_reorg lib event of
             None \<Rightarrow> [] | Some payload \<Rightarrow> [(REORG_CHANNEL, payload)])"

end
