(* ===== verification/Config.thy ===== *)
theory Config
  imports Complex_Main Prelude
begin

text \<open>
  \<^verbatim>\<open>crates/common/src/config.rs\<close>: the runtime configuration, its defaults and its extraction
  from what \<^verbatim>\<open>figment\<close> reads in the environment.  \<^verbatim>\<open>f64\<close> rates are
  rationals.
\<close>

datatype LogFormat = Json | Pretty

datatype Network = Mainnet | Testnet | Devnet

record Config =
  database_url :: string
  ckb_rpc_url :: string
  poll_interval_ms :: u64
  indexer_start_block :: u64
  indexer_reorg_target_depth :: u32
  indexer_reorg_max_depth :: u32
  indexer_metrics_bind_addr :: string
  otel_otlp_endpoint :: "string option"
  otel_sample_ratio :: rat
  otel_service_name :: "string option"
  network :: Network
  log_level :: string
  log_format :: LogFormat
  api_bind_addr :: string
  api_default_page_size :: u32
  api_max_page_size :: u32
  api_request_timeout_ms :: u64
  api_tip_cache_refresh_ms :: u64
  api_cors_allowed_origins :: "string option"
  dashboard_oauth_github_client_id :: "string option"
  dashboard_oauth_github_client_secret :: "string option"
  dashboard_oauth_github_redirect_url :: "string option"
  dashboard_redirect_url :: "string option"
  dashboard_session_ttl_days :: i64
  dashboard_cookie_secure :: bool
  api_auth_cache_ttl_seconds :: u64
  api_auth_cache_capacity :: u64
  redis_url :: string
  api_rate_limit_fail_open :: bool
  api_rate_limit_free_rest_burst :: u32
  api_rate_limit_free_rest_refill_per_sec :: rat
  api_rate_limit_starter_rest_burst :: u32
  api_rate_limit_starter_rest_refill_per_sec :: rat
  api_rate_limit_pro_rest_burst :: u32
  api_rate_limit_pro_rest_refill_per_sec :: rat
  api_rate_limit_free_graphql_burst :: u32
  api_rate_limit_free_graphql_refill_per_sec :: rat
  api_rate_limit_starter_graphql_burst :: u32
  api_rate_limit_starter_graphql_refill_per_sec :: rat
  api_rate_limit_pro_graphql_burst :: u32
  api_rate_limit_pro_graphql_refill_per_sec :: rat

text \<open>The configuration of an environment that sets only the two required variables.\<close>

definition default_config :: "string \<Rightarrow> string \<Rightarrow> Config" where
  "default_config db rpc =
     \<lparr>database_url = db, ckb_rpc_url = rpc, poll_interval_ms = 2000, indexer_start_block = 0,
      indexer_reorg_target_depth = 12, indexer_reorg_max_depth = 100,
      indexer_metrics_bind_addr = ''0.0.0.0:9100'', otel_otlp_endpoint = None,
      otel_sample_ratio = 1 / 10, otel_service_name = None, network = Mainnet,
      log_level = ''info'', log_format = Json, api_bind_addr = ''0.0.0.0:8080'',
      api_default_page_size = 50, api_max_page_size = 500, api_request_timeout_ms = 10000,
      api_tip_cache_refresh_ms = 1000, api_cors_allowed_origins = None,
      dashboard_oauth_github_client_id = None, dashboard_oauth_github_client_secret = None,
      dashboard_oauth_github_redirect_url = None, dashboard_redirect_url = None,
      dashboard_session_ttl_days = 30, dashboard_cookie_secure = True,
      api_auth_cache_ttl_seconds = 60, api_auth_cache_capacity = 10000,
      redis_url = ''redis://localhost:6379'', api_rate_limit_fail_open = True,
      api_rate_limit_free_rest_burst = 30, api_rate_limit_free_rest_refill_per_sec = 1,
      api_rate_limit_starter_rest_burst = 300, api_rate_limit_starter_rest_refill_per_sec = 20,
      api_rate_limit_pro_rest_burst = 3000, api_rate_limit_pro_rest_refill_per_sec = 200,
      api_rate_limit_free_graphql_burst = 10, api_rate_limit_free_graphql_refill_per_sec = 1 / 2,
      api_rate_limit_starter_graphql_burst = 100,
      api_rate_limit_starter_graphql_refill_per_sec = 10,
      api_rate_limit_pro_graphql_burst = 1000, api_rate_limit_pro_graphql_refill_per_sec = 100\<rparr>"

section \<open>Reading the environment\<close>

text \<open>What \<^verbatim>\<open>figment\<close> finds under a key among the variables with the prefix \<^verbatim>\<open>CELLORA_\<close>, for each type a field can have, and
  the text of its error; which of several errors it reports is its choice.\<close>

datatype 'a setting = Absent | Malformed | Set 'a

record figment =
  fg_string :: "string \<Rightarrow> string setting"
  fg_opt_string :: "string \<Rightarrow> string option setting"
  fg_u64 :: "string \<Rightarrow> u64 setting"
  fg_u32 :: "string \<Rightarrow> u32 setting"
  fg_i64 :: "string \<Rightarrow> i64 setting"
  fg_f64 :: "string \<Rightarrow> rat setting"
  fg_bool :: "string \<Rightarrow> bool setting"
  fg_variant :: "string \<Rightarrow> string setting"
  fg_error :: string

fun required :: "'a setting \<Rightarrow> 'a option" where
  "required Absent = None"
| "required Malformed = None"
| "required (Set x) = Some x"

fun or_default :: "'a \<Rightarrow> 'a setting \<Rightarrow> 'a option" where
  "or_default d Absent = Some d"
| "or_default d Malformed = None"
| "or_default d (Set x) = Some x"

text \<open>The derived deserialisers of the two enumerations: variants in lower case.\<close>

definition network_of :: "string \<Rightarrow> Network option" where
  "network_of s = map_of [(''mainnet'', Mainnet), (''testnet'', Testnet), (''devnet'', Devnet)] s"

definition log_format_of :: "string \<Rightarrow> LogFormat option" where
  "log_format_of s = map_of [(''json'', Json), (''pretty'', Pretty)] s"

fun decode_variant :: "(string \<Rightarrow> 'a option) \<Rightarrow> string setting \<Rightarrow> 'a setting" where
  "decode_variant f Absent = Absent"
| "decode_variant f Malformed = Malformed"
| "decode_variant f (Set s) = (case f s of None \<Rightarrow> Malformed | Some x \<Rightarrow> Set x)"

definition extract_config :: "figment \<Rightarrow> Config option" where
  "extract_config fig = (let d = default_config [] [] in
     Option.bind (required (fg_string fig ''database_url'')) (\<lambda>database_url.
     Option.bind (required (fg_string fig ''ckb_rpc_url'')) (\<lambda>ckb_rpc_url.
     Option.bind (or_default (Config.poll_interval_ms d) (fg_u64 fig ''poll_interval_ms'')) (\<lambda>poll_interval_ms.
     Option.bind (or_default (Config.indexer_start_block d) (fg_u64 fig ''indexer_start_block'')) (\<lambda>indexer_start_block.
     Option.bind (or_default (Config.indexer_reorg_target_depth d) (fg_u32 fig ''indexer_reorg_target_depth'')) (\<lambda>indexer_reorg_target_depth.
     Option.bind (or_default (Config.indexer_reorg_max_depth d) (fg_u32 fig ''indexer_reorg_max_depth'')) (\<lambda>indexer_reorg_max_depth.
     Option.bind (or_default (Config.indexer_metrics_bind_addr d) (fg_string fig ''indexer_metrics_bind_addr'')) (\<lambda>indexer_metrics_bind_addr.
     Option.bind (or_default (Config.otel_otlp_endpoint d) (fg_opt_string fig ''otel_otlp_endpoint'')) (\<lambda>otel_otlp_endpoint.
     Option.bind (or_default (Config.otel_sample_ratio d) (fg_f64 fig ''otel_sample_ratio'')) (\<lambda>otel_sample_ratio.
     Option.bind (or_default (Config.otel_service_name d) (fg_opt_string fig ''otel_service_name'')) (\<lambda>otel_service_name.
     Option.bind (or_default (Config.network d) (decode_variant network_of (fg_variant fig ''network''))) (\<lambda>network.
     Option.bind (or_default (Config.log_level d) (fg_string fig ''log_level'')) (\<lambda>log_level.
     Option.bind (or_default (Config.log_format d) (decode_variant log_format_of (fg_variant fig ''log_format''))) (\<lambda>log_format.
     Option.bind (or_default (Config.api_bind_addr d) (fg_string fig ''api_bind_addr'')) (\<lambda>api_bind_addr.
     Option.bind (or_default (Config.api_default_page_size d) (fg_u32 fig ''api_default_page_size'')) (\<lambda>api_default_page_size.
     Option.bind (or_default (Config.api_max_page_size d) (fg_u32 fig ''api_max_page_size'')) (\<lambda>api_max_page_size.
     Option.bind (or_default (Config.api_request_timeout_ms d) (fg_u64 fig ''api_request_timeout_ms'')) (\<lambda>api_request_timeout_ms.
     Option.bind (or_default (Config.api_tip_cache_refresh_ms d) (fg_u64 fig ''api_tip_cache_refresh_ms'')) (\<lambda>api_tip_cache_refresh_ms.
     Option.bind (or_default (Config.api_cors_allowed_origins d) (fg_opt_string fig ''api_cors_allowed_origins'')) (\<lambda>api_cors_allowed_origins.
     Option.bind (or_default (Config.dashboard_oauth_github_client_id d) (fg_opt_string fig ''dashboard_oauth_github_client_id'')) (\<lambda>dashboard_oauth_github_client_id.
     Option.bind (or_default (Config.dashboard_oauth_github_client_secret d) (fg_opt_string fig ''dashboard_oauth_github_client_secret'')) (\<lambda>dashboard_oauth_github_client_secret.
     Option.bind (or_default (Config.dashboard_oauth_github_redirect_url d) (fg_opt_string fig ''dashboard_oauth_github_redirect_url'')) (\<lambda>dashboard_oauth_github_redirect_url.
     Option.bind (or_default (Config.dashboard_redirect_url d) (fg_opt_string fig ''dashboard_redirect_url'')) (\<lambda>dashboard_redirect_url.
     Option.bind (or_default (Config.dashboard_session_ttl_days d) (fg_i64 fig ''dashboard_session_ttl_days'')) (\<lambda>dashboard_session_ttl_days.
     Option.bind (or_default (Config.dashboard_cookie_secure d) (fg_bool fig ''dashboard_cookie_secure'')) (\<lambda>dashboard_cookie_secure.
     Option.bind (or_default (Config.api_auth_cache_ttl_seconds d) (fg_u64 fig ''api_auth_cache_ttl_seconds'')) (\<lambda>api_auth_cache_ttl_seconds.
     Option.bind (or_default (Config.api_auth_cache_capacity d) (fg_u64 fig ''api_auth_cache_capacity'')) (\<lambda>api_auth_cache_capacity.
     Option.bind (or_default (Config.redis_url d) (fg_string fig ''redis_url'')) (\<lambda>redis_url.
     Option.bind (or_default (Config.api_rate_limit_fail_open d) (fg_bool fig ''api_rate_limit_fail_open'')) (\<lambda>api_rate_limit_fail_open.
     Option.bind (or_default (Config.api_rate_limit_free_rest_burst d) (fg_u32 fig ''api_rate_limit_free_rest_burst'')) (\<lambda>api_rate_limit_free_rest_burst.
     Option.bind (or_default (Config.api_rate_limit_free_rest_refill_per_sec d) (fg_f64 fig ''api_rate_limit_free_rest_refill_per_sec'')) (\<lambda>api_rate_limit_free_rest_refill_per_sec.
     Option.bind (or_default (Config.api_rate_limit_starter_rest_burst d) (fg_u32 fig ''api_rate_limit_starter_rest_burst'')) (\<lambda>api_rate_limit_starter_rest_burst.
     Option.bind (or_default (Config.api_rate_limit_starter_rest_refill_per_sec d) (fg_f64 fig ''api_rate_limit_starter_rest_refill_per_sec'')) (\<lambda>api_rate_limit_starter_rest_refill_per_sec.
     Option.bind (or_default (Config.api_rate_limit_pro_rest_burst d) (fg_u32 fig ''api_rate_limit_pro_rest_burst'')) (\<lambda>api_rate_limit_pro_rest_burst.
     Option.bind (or_default (Config.api_rate_limit_pro_rest_refill_per_sec d) (fg_f64 fig ''api_rate_limit_pro_rest_refill_per_sec'')) (\<lambda>api_rate_limit_pro_rest_refill_per_sec.
     Option.bind (or_default (Config.api_rate_limit_free_graphql_burst d) (fg_u32 fig ''api_rate_limit_free_graphql_burst'')) (\<lambda>api_rate_limit_free_graphql_burst.
     Option.bind (or_default (Config.api_rate_limit_free_graphql_refill_per_sec d) (fg_f64 fig ''api_rate_limit_free_graphql_refill_per_sec'')) (\<lambda>api_rate_limit_free_graphql_refill_per_sec.
     Option.bind (or_default (Config.api_rate_limit_starter_graphql_burst d) (fg_u32 fig ''api_rate_limit_starter_graphql_burst'')) (\<lambda>api_rate_limit_starter_graphql_burst.
     Option.bind (or_default (Config.api_rate_limit_starter_graphql_refill_per_sec d) (fg_f64 fig ''api_rate_limit_starter_graphql_refill_per_sec'')) (\<lambda>api_rate_limit_starter_graphql_refill_per_sec.
     Option.bind (or_default (Config.api_rate_limit_pro_graphql_burst d) (fg_u32 fig ''api_rate_limit_pro_graphql_burst'')) (\<lambda>api_rate_limit_pro_graphql_burst.
     Option.bind (or_default (Config.api_rate_limit_pro_graphql_refill_per_sec d) (fg_f64 fig ''api_rate_limit_pro_graphql_refill_per_sec'')) (\<lambda>api_rate_limit_pro_graphql_refill_per_sec.
       Some \<lparr>database_url = database_url,
        ckb_rpc_url = ckb_rpc_url,
        poll_interval_ms = poll_interval_ms,
        indexer_start_block = indexer_start_block,
        indexer_reorg_target_depth = indexer_reorg_target_depth,
        indexer_reorg_max_depth = indexer_reorg_max_depth,
        indexer_metrics_bind_addr = indexer_metrics_bind_addr,
        otel_otlp_endpoint = otel_otlp_endpoint,
        otel_sample_ratio = otel_sample_ratio,
        otel_service_name = otel_service_name,
        network = network,
        log_level = log_level,
        log_format = log_format,
        api_bind_addr = api_bind_addr,
        api_default_page_size = api_default_page_size,
        api_max_page_size = api_max_page_size,
        api_request_timeout_ms = api_request_timeout_ms,
        api_tip_cache_refresh_ms = api_tip_cache_refresh_ms,
        api_cors_allowed_origins = api_cors_allowed_origins,
        dashboard_oauth_github_client_id = dashboard_oauth_github_client_id,
        dashboard_oauth_github_client_secret = dashboard_oauth_github_client_secret,
        dashboard_oauth_github_redirect_url = dashboard_oauth_github_redirect_url,
        dashboard_redirect_url = dashboard_redirect_url,
        dashboard_session_ttl_days = dashboard_session_ttl_days,
        dashboard_cookie_secure = dashboard_cookie_secure,
        api_auth_cache_ttl_seconds = api_auth_cache_ttl_seconds,
        api_auth_cache_capacity = api_auth_cache_capacity,
        redis_url = redis_url,
        api_rate_limit_fail_open = api_rate_limit_fail_open,
        api_rate_limit_free_rest_burst = api_rate_limit_free_rest_burst,
        api_rate_limit_free_rest_refill_per_sec = api_rate_limit_free_rest_refill_per_sec,
        api_rate_limit_starter_rest_burst = api_rate_limit_starter_rest_burst,
        api_rate_limit_starter_rest_refill_per_sec = api_rate_limit_starter_rest_refill_per_sec,
        api_rate_limit_pro_rest_burst = api_rate_limit_pro_rest_burst,
        api_rate_limit_pro_rest_refill_per_sec = api_rate_limit_pro_rest_refill_per_sec,
        api_rate_limit_free_graphql_burst = api_rate_limit_free_graphql_burst,
        api_rate_limit_free_graphql_refill_per_sec = api_rate_limit_free_graphql_refill_per_sec,
        api_rate_limit_starter_graphql_burst = api_rate_limit_starter_graphql_burst,
        api_rate_limit_starter_graphql_refill_per_sec = api_rate_limit_starter_graphql_refill_per_sec,
        api_rate_limit_pro_graphql_burst = api_rate_limit_pro_graphql_burst,
        api_rate_limit_pro_graphql_refill_per_sec = api_rate_limit_pro_graphql_refill_per_sec\<rparr>))))))))))))))))))))))))))))))))))))))))))"

text \<open>Only the two required variables: everything else takes its default.\<close>

lemma extract_config_defaults:
  assumes "fg_string fig = (\<lambda>_. Absent)(''database_url'' := Set db, ''ckb_rpc_url'' := Set rpc)"
    and "fg_opt_string fig = (\<lambda>_. Absent)" "fg_u64 fig = (\<lambda>_. Absent)" "fg_u32 fig = (\<lambda>_. Absent)" "fg_i64 fig = (\<lambda>_. Absent)"
    and "fg_f64 fig = (\<lambda>_. Absent)" "fg_bool fig = (\<lambda>_. Absent)" "fg_variant fig = (\<lambda>_. Absent)"
  shows "extract_config fig = Some (default_config db rpc)"
  by (simp add: extract_config_def assms default_config_def)

lemma required_Some: "required x = Some y \<longleftrightarrow> x = Set y"
  by (cases x) auto

lemma or_default_Some: "or_default d x = Some y \<longleftrightarrow> x = Absent \<and> y = d \<or> x = Set y"
  by (cases x) auto

lemma extract_required:
  assumes "extract_config fig = Some c"
  shows "required (fg_string fig ''database_url'') = Some (database_url c)" "required (fg_string fig ''ckb_rpc_url'') = Some (ckb_rpc_url c)"
    and "or_default 0 (fg_u64 fig ''indexer_start_block'') = Some (indexer_start_block c)"
proof -
  have "indexer_start_block (default_config [] []) = 0" by (simp add: default_config_def)
  then show "required (fg_string fig ''database_url'') = Some (database_url c)" "required (fg_string fig ''ckb_rpc_url'') = Some (ckb_rpc_url c)"
    "or_default 0 (fg_u64 fig ''indexer_start_block'') = Some (indexer_start_block c)"
    using assms unfolding extract_config_def Let_def by (auto simp: bind_eq_Some_conv)
qed

end
