(* ===== verification/Poller.thy ===== *)
theory Poller
  imports Reorg Events Config
begin

text \<open>
  \<^verbatim>\<open>crates/indexer/src/poller.rs\<close> and the counters of \<^verbatim>\<open>crates/indexer/src/metrics.rs\<close>.  The world a
  step acts on is the database, the metrics and the messages handed to Redis; what surrounds one
  iteration of the loop (whether shutdown was requested, what the node answers, how the database
  session behaves, the clock) is an \<open>poll_env\<close>.  The loop runs over a list of such environments, one
  per iteration, so that its length is the fuel; an iteration never blocks, and the sleeps it asks
  for are logged.
\<close>

section \<open>Metrics\<close>

record indexer_metrics =
  m_latest_block :: i64
  m_blocks_indexed_total :: nat
  m_block_indexing_durations :: "int list"
  m_reorg_total :: nat
  m_reorg_oversized_total :: nat
  m_reorg_depths :: "i64 list"

definition Metrics_new :: indexer_metrics where
  "Metrics_new = \<lparr>m_latest_block = 0, m_blocks_indexed_total = 0, m_block_indexing_durations = [],
     m_reorg_total = 0, m_reorg_oversized_total = 0, m_reorg_depths = []\<rparr>"

definition observe_block_indexed :: "i64 \<Rightarrow> int \<Rightarrow> indexer_metrics \<Rightarrow> indexer_metrics" where
  "observe_block_indexed height duration m =
     m\<lparr>m_latest_block := height, m_blocks_indexed_total := m_blocks_indexed_total m + 1,
       m_block_indexing_durations := m_block_indexing_durations m @ [duration]\<rparr>"

definition set_latest_block :: "i64 \<Rightarrow> indexer_metrics \<Rightarrow> indexer_metrics" where
  "set_latest_block height m = m\<lparr>m_latest_block := height\<rparr>"

definition observe_reorg :: "i64 \<Rightarrow> bool \<Rightarrow> indexer_metrics \<Rightarrow> indexer_metrics" where
  "observe_reorg depth oversized m =
     m\<lparr>m_reorg_total := m_reorg_total m + 1,
       m_reorg_oversized_total := m_reorg_oversized_total m + (if oversized then 1 else 0),
       m_reorg_depths := m_reorg_depths m @ [depth]\<rparr>"

section \<open>The poller\<close>

datatype PollerError = PollRpc CommonError | PollDb DbError | Parse u64 ParseError
  | PollReorg ReorgError

datatype StepOutcome = Indexed | WaitingForTip | ReorgHandled i64 | InconsistentNode

text \<open>The library functions the poller reaches, whether a Redis connection is attached, and the
  configuration.\<close>

record Poller =
  po_parse :: parse_lib
  po_events :: event_lib
  po_redis :: bool
  po_config :: Config

record world =
  w_db :: chain_db
  w_metrics :: indexer_metrics
  w_messages :: "message list"

record poll_env =
  pe_cancelled :: bool
  pe_node :: node
  pe_pg :: pg_env
  pe_elapsed :: int
  pe_utc_now :: timestamp

definition is_inconsistent_node :: "i64 \<Rightarrow> i64 \<Rightarrow> bool" where
  "is_inconsistent_node suspect_height ancestor_height \<longleftrightarrow> ancestor_height \<ge> suspect_height"

text \<open>The write transaction of one block.\<close>

definition index_body :: "pg_env \<Rightarrow> ParsedBlock \<Rightarrow> chain_db \<Rightarrow> DbError + (unit \<times> chain_db)" where
  "index_body pg parsed d =
     and_then (blocks_insert (pg_block_insert pg) (pg_now pg) (pb_block parsed) d) (\<lambda>d1.
     and_then (transactions_insert_batch (pg_tx_insert pg) (pb_transactions parsed) d1) (\<lambda>d2.
     and_then (cells_insert_batch (pg_cell_insert pg) (pb_cells parsed) d2) (\<lambda>d3.
     and_then (cells_mark_consumed (pg_mark_consumed pg) (pb_consumed parsed) d3) (\<lambda>d4.
     and_then (checkpoint_upsert (pg_checkpoint pg) (br_number (pb_block parsed))
                 (br_hash (pb_block parsed)) d4) (\<lambda>d5.
     Inr ((), d5))))))"

text \<open>The second half of \<^verbatim>\<open>step\<close>: parse, write, commit, publish, count.\<close>

definition index_block ::
  "Poller \<Rightarrow> poll_env \<Rightarrow> u64 \<Rightarrow> BlockView \<Rightarrow> world \<Rightarrow> (PollerError + StepOutcome) \<times> world" where
  "index_block self env block_number block w =
     (case parse_block (po_parse self) block of
        Inl source \<Rightarrow> (Inl (Parse block_number source), w)
      | Inr parsed \<Rightarrow>
          (case in_transaction (pg_begin (pe_pg env)) (pg_commit (pe_pg env))
                  (index_body (pe_pg env) parsed) (w_db w) of
             (Inl e, d') \<Rightarrow> (Inl (PollDb e), w\<lparr>w_db := d'\<rparr>)
           | (Inr _, d') \<Rightarrow>
               (Inr Indexed,
                w\<lparr>w_db := d',
                  w_messages := w_messages w @
                    (if po_redis self
                     then publish_block_and_cells (po_events self) (pb_block parsed) (pb_cells parsed)
                     else []),
                  w_metrics := observe_block_indexed (br_number (pb_block parsed))
                                 (pe_elapsed env) (w_metrics w)\<rparr>)))"

definition handle_reorg ::
  "Poller \<Rightarrow> poll_env \<Rightarrow> i64 \<Rightarrow> bytes \<Rightarrow> world \<Rightarrow> (PollerError + StepOutcome) \<times> world" where
  "handle_reorg self env suspect_height indexed_hash_at_suspect w =
     (case find_common_ancestor (pe_node env)
             (\<lambda>h. blocks_hash_at (pg_walk_hash_at (pe_pg env) h) h (w_db w)) suspect_height of
        Inl e \<Rightarrow> (Inl (PollReorg e), w)
      | Inr ancestor \<Rightarrow>
          if is_inconsistent_node suspect_height (an_block_number ancestor)
          then (Inr InconsistentNode, w)
          else (case rollback_to (pe_pg env) ancestor suspect_height indexed_hash_at_suspect
                       (w_db w) of
                  (Inl e, d') \<Rightarrow> (Inl (PollReorg e), w\<lparr>w_db := d'\<rparr>)
                | (Inr outcome, d') \<Rightarrow>
                    let depth = ro_depth outcome;
                        max_depth = indexer_reorg_max_depth (po_config self);
                        oversized = depth > max_depth;
                        event = \<lparr>rv_ancestor_block_number = an_block_number ancestor,
                                 rv_ancestor_hash = ''0x'' @
                                   hex_encode (po_events self) (an_node_hash ancestor),
                                 rv_depth = ro_depth outcome,
                                 rv_completed_at = pe_utc_now env\<rparr>
                    in (Inr (ReorgHandled (ro_ancestor_height outcome)),
                        w\<lparr>w_db := d',
                          w_metrics := set_latest_block (ro_ancestor_height outcome)
                                         (observe_reorg depth oversized (w_metrics w)),
                          w_messages := w_messages w @
                            publish_reorg (po_events self) (po_redis self) event\<rparr>)))"

definition step ::
  "Poller \<Rightarrow> poll_env \<Rightarrow> u64 \<Rightarrow> world \<Rightarrow> (PollerError + StepOutcome) \<times> world" where
  "step self env block_number w =
     (case pe_node env block_number of
        Inl e \<Rightarrow> (Inl (PollRpc e), w)
      | Inr None \<Rightarrow> (Inr WaitingForTip, w)
      | Inr (Some block) \<Rightarrow>
          if block_number > 0 then
            let signed_height = unwrap_or (i64_try_from block_number) i64_MAX;
                prev_height = signed_height - 1
            in (case blocks_hash_at (pg_hash_at (pe_pg env)) prev_height (w_db w) of
                  Inl e \<Rightarrow> (Inl (PollDb e), w)
                | Inr (Some stored_prev_hash) \<Rightarrow>
                    if bv_parent_hash block \<noteq> stored_prev_hash
                    then handle_reorg self env prev_height stored_prev_hash w
                    else index_block self env block_number block w
                | Inr None \<Rightarrow> index_block self env block_number block w)
          else index_block self env block_number block w)"

section \<open>Backoff\<close>

text \<open>Seconds; \<^verbatim>\<open>Duration\<close> does not overflow below 60.\<close>

record Backoff =
  bo_current :: nat

definition Backoff_new :: Backoff where
  "Backoff_new = \<lparr>bo_current = 1\<rparr>"

definition next_delay :: "Backoff \<Rightarrow> nat \<times> Backoff" where
  "next_delay b = (bo_current b, b\<lparr>bo_current := min (bo_current b * 2) 30\<rparr>)"

definition Backoff_reset :: "Backoff \<Rightarrow> Backoff" where
  "Backoff_reset b = b\<lparr>bo_current := 1\<rparr>"

section \<open>The loop\<close>

record loop_state =
  ls_world :: world
  ls_next_block :: u64
  ls_backoff :: Backoff
  ls_sleeps_ms :: "int list"

definition loop_iteration :: "Poller \<Rightarrow> poll_env \<Rightarrow> loop_state \<Rightarrow> loop_state" where
  "loop_iteration self env s =
     (let (result, w') = step self env (ls_next_block s) (ls_world s);
          (delay, backoff') = next_delay (ls_backoff s)
      in case result of
           Inr Indexed \<Rightarrow>
             s\<lparr>ls_world := w', ls_next_block := u64_saturating_add (ls_next_block s) 1,
               ls_backoff := Backoff_reset (ls_backoff s)\<rparr>
         | Inr (ReorgHandled new_tip) \<Rightarrow>
             s\<lparr>ls_world := w',
               ls_next_block := u64_saturating_add (unwrap_or (u64_try_from new_tip) 0) 1,
               ls_backoff := Backoff_reset (ls_backoff s)\<rparr>
         | Inr WaitingForTip \<Rightarrow>
             s\<lparr>ls_world := w',
               ls_sleeps_ms := ls_sleeps_ms s @ [poll_interval_ms (po_config self)]\<rparr>
         | Inr InconsistentNode \<Rightarrow>
             s\<lparr>ls_world := w', ls_backoff := backoff',
               ls_sleeps_ms := ls_sleeps_ms s @ [1000 * int delay]\<rparr>
         | Inl err \<Rightarrow>
             s\<lparr>ls_world := w', ls_backoff := backoff',
               ls_sleeps_ms := ls_sleeps_ms s @ [1000 * int delay]\<rparr>)"

text \<open>The loop over the environments it meets: \<open>True\<close> when it left because of a shutdown request.\<close>

fun run_loop :: "Poller \<Rightarrow> poll_env list \<Rightarrow> loop_state \<Rightarrow> bool \<times> loop_state" where
  "run_loop self [] s = (False, s)"
| "run_loop self (env # envs) s =
     (if pe_cancelled env then (True, s)
      else run_loop self envs (loop_iteration self env s))"

definition start_block :: "Config \<Rightarrow> Checkpoint option \<Rightarrow> u64" where
  "start_block config cp =
     (case cp of
        Some c \<Rightarrow> as_u64 (i64_saturating_add (cp_last_indexed_block c) 1)
      | None \<Rightarrow> indexer_start_block config)"

definition run ::
  "Poller \<Rightarrow> bool \<Rightarrow> poll_env list \<Rightarrow> world \<Rightarrow> PollerError + (bool \<times> loop_state)" where
  "run self read_fault envs w =
     and_then (map_err PollDb (checkpoint_read read_fault (w_db w))) (\<lambda>cp.
       Inr (run_loop self envs
              \<lparr>ls_world = w, ls_next_block = start_block (po_config self) cp,
               ls_backoff = Backoff_new, ls_sleeps_ms = []\<rparr>))"

section \<open>What the write transaction of a block writes\<close>

definition indexed_db :: "timestamp \<Rightarrow> ParsedBlock \<Rightarrow> chain_db \<Rightarrow> chain_db" where
  "indexed_db now p d =
     d\<lparr>db_blocks := db_blocks d @ [mk_block now (pb_block p)],
       db_transactions := db_transactions d @ pb_transactions p,
       db_cells := map (consume_all (pb_consumed p)) (db_cells d @ map stored_of_row (pb_cells p)),
       db_indexer_state := Some \<lparr>cp_last_indexed_block = br_number (pb_block p),
                                  cp_last_indexed_hash = br_hash (pb_block p)\<rparr>\<rparr>"

lemma blocks_insert_frame:
  "blocks_insert fault now row d = Inr d' \<Longrightarrow> d' = d\<lparr>db_blocks := db_blocks d @ [mk_block now row]\<rparr>"
  by (auto simp: blocks_insert_def split: if_splits)

lemma index_body_Inr:
  assumes "index_body pg p d = Inr (u, d')"
  shows "d' = indexed_db (pg_now pg) p d"
  using assms
  by (auto simp: index_body_def res_simps indexed_db_def checkpoint_upsert_def
      dest!: blocks_insert_frame transactions_insert_batch_result cells_insert_batch_result
        cells_mark_consumed_result split: if_splits)

lemma index_body_schema:
  assumes "schema_ok d" and "index_body pg p d = Inr (u, d')"
  shows "schema_ok d'"
  using assms(2,1) unfolding index_body_def
  by (clarsimp simp: res_simps)
    (drule (1) blocks_insert_schema transactions_insert_batch_schema cells_insert_batch_schema
       cells_mark_consumed_schema checkpoint_upsert_schema)+

section \<open>Retrying\<close>

lemma failing_iteration:
  assumes "pe_node env (ls_next_block s) = Inl e"
  shows "loop_iteration self env s = s\<lparr>ls_backoff := snd (next_delay (ls_backoff s)),
    ls_sleeps_ms := ls_sleeps_ms s @ [1000 * int (bo_current (ls_backoff s))]\<rparr>"
  using assms by (simp add: loop_iteration_def step_def next_delay_def)

lemma failing_run:
  assumes "\<forall>env\<in>set envs. \<not> pe_cancelled env \<and> (\<exists>e. pe_node env (ls_next_block s) = Inl e)"
    and "bo_current (ls_backoff s) = min (2 ^ k) 30"
  shows "ls_sleeps_ms (snd (run_loop self envs s)) =
      ls_sleeps_ms s @ map (\<lambda>i. 1000 * int (min (2 ^ i) 30)) [k..<k + length envs]
    \<and> ls_world (snd (run_loop self envs s)) = ls_world s
    \<and> ls_next_block (snd (run_loop self envs s)) = ls_next_block s"
  using assms
proof (induction envs arbitrary: s k)
  case (Cons env envs)
  let ?s = "loop_iteration self env s"
  obtain e where e: "pe_node env (ls_next_block s) = Inl e" and c: "\<not> pe_cancelled env"
    using Cons.prems(1) by auto
  note it = failing_iteration [OF e, of self]
  have "min (min (2 ^ k) 30 * 2) 30 = min (2 ^ Suc k) (30 :: nat)" by (simp add: min_def)
  then have b: "bo_current (ls_backoff ?s) = min (2 ^ Suc k) 30"
    using Cons.prems(2) it by (simp add: next_delay_def)
  have n: "ls_next_block ?s = ls_next_block s" "ls_world ?s = ls_world s"
    "ls_sleeps_ms ?s = ls_sleeps_ms s @ [1000 * int (min (2 ^ k) 30)]" using it Cons.prems(2) by simp_all
  have "[k..<k + length (env # envs)] = k # [Suc k..<Suc k + length envs]" by (simp add: upt_rec)
  then show ?case using Cons.IH [OF _ b] Cons.prems(1) n c by simp
qed simp

end
