(* ===== verification/ChainInv.thy ===== *)
theory ChainInv
  imports Poller
begin

text \<open>
  The invariant of the chain tables under the indexer: the schema, the stored blocks forming one
  chain linked by parent hashes at consecutive heights, the checkpoint naming its last block, and
  every \<^verbatim>\<open>consumed_at_block_number\<close> naming a stored block.  Indexing a block and rolling
  back keep it, and so does every step of the poller whose commits are acknowledged.
\<close>

section \<open>The chain invariant\<close>

definition chain_linked :: "'a BlockRow_scheme list \<Rightarrow> bool" where
  "chain_linked = successively (\<lambda>a b. br_number b = br_number a + 1 \<and> br_parent_hash b = br_hash a)"

definition checkpoint_of :: "'a BlockRow_scheme list \<Rightarrow> Checkpoint option" where
  "checkpoint_of bs =
     (if bs = [] then None
      else Some \<lparr>cp_last_indexed_block = br_number (last bs), cp_last_indexed_hash = br_hash (last bs)\<rparr>)"

definition consumed_known :: "chain_db \<Rightarrow> bool" where
  "consumed_known d \<longleftrightarrow> (\<forall>c\<in>set (db_cells d). \<forall>n. c_consumed_at_block_number c = Some n \<longrightarrow>
     n \<in> br_number ` set (db_blocks d))"

definition heights_ok :: "chain_db \<Rightarrow> bool" where
  "heights_ok d \<longleftrightarrow> (\<forall>b\<in>set (db_blocks d). 0 \<le> br_number b \<and> br_number b < i64_MAX)"

definition chain_ok :: "chain_db \<Rightarrow> bool" where
  "chain_ok d \<longleftrightarrow> schema_ok d \<and> chain_linked (db_blocks d) \<and> heights_ok d \<and> consumed_known d \<and>
     db_indexer_state d = checkpoint_of (db_blocks d)"

lemma chain_linked_simps [simp]:
  "chain_linked []" "chain_linked [b]"
  by (simp_all add: chain_linked_def)

lemma chain_linked_snoc:
  "bs \<noteq> [] \<Longrightarrow> chain_linked (bs @ [b]) \<longleftrightarrow>
     chain_linked bs \<and> br_number b = br_number (last bs) + 1 \<and> br_parent_hash b = br_hash (last bs)"
  by (auto simp: chain_linked_def successively_append_iff)

lemma chain_linked_numbers:
  assumes "chain_linked bs" and "i < length bs"
  shows "br_number (bs ! i) = br_number (hd bs) + int i"
  using assms
proof (induction i)
  case 0
  then show ?case by (simp add: hd_conv_nth)
next
  case (Suc i)
  then have "br_number (bs ! Suc i) = br_number (bs ! i) + 1"
    by (simp add: chain_linked_def successively_conv_nth)
  with Suc show ?case by simp
qed

lemma chain_linked_last:
  "chain_linked bs \<Longrightarrow> bs \<noteq> [] \<Longrightarrow> br_number (last bs) = br_number (hd bs) + int (length bs) - 1"
  using chain_linked_numbers [of bs "length bs - 1"]
  by (cases bs rule: rev_cases) (simp_all add: nth_append)

text \<open>Deleting above a height that is stored keeps exactly the prefix that ends there.\<close>

lemma chain_linked_prefix:
  assumes "chain_linked bs" and "b \<in> set bs"
  shows "\<exists>i<length bs. b = bs ! i \<and> filter (\<lambda>x. \<not> br_number x > br_number b) bs = take (Suc i) bs
      \<and> length (filter (\<lambda>x. br_number x > br_number b) bs) = length bs - Suc i"
proof -
  obtain i where i: "i < length bs" and b: "b = bs ! i" using assms(2) by (auto simp: in_set_conv_nth)
  have num: "br_number (bs ! j) = br_number (hd bs) + int j" if "j < length bs" for j
    using chain_linked_numbers [OF assms(1) that] .
  have lo: "\<not> br_number x > br_number b" if x: "x \<in> set (take (Suc i) bs)" for x
  proof -
    from x obtain j where "j < Suc i" "j < length bs" "x = bs ! j"
      by (auto simp: in_set_conv_nth)
    then show ?thesis using num i b by simp
  qed
  have hi: "br_number x > br_number b" if x: "x \<in> set (drop (Suc i) bs)" for x
  proof -
    from x obtain j where "j < length bs - Suc i" "x = bs ! (Suc i + j)"
      by (auto simp: in_set_conv_nth)
    then show ?thesis using num i b by simp
  qed
  have "filter (\<lambda>x. \<not> br_number x > br_number b) (take (Suc i) bs @ drop (Suc i) bs)
      = take (Suc i) bs"
    unfolding filter_append using lo hi by (simp add: filter_True_iff filter_empty_conv)
  moreover have "length (filter (\<lambda>x. br_number x > br_number b) (take (Suc i) bs @ drop (Suc i) bs))
      = length bs - Suc i"
  proof -
    have "filter (\<lambda>x. br_number x > br_number b) (take (Suc i) bs) = []"
      using lo by (auto simp: filter_empty_conv)
    moreover have "filter (\<lambda>x. br_number x > br_number b) (drop (Suc i) bs) = drop (Suc i) bs"
      using hi by (simp add: filter_True_iff)
    ultimately show ?thesis unfolding filter_append by simp
  qed
  ultimately show ?thesis using i b by auto
qed

lemma chain_linked_take: "chain_linked bs \<Longrightarrow> chain_linked (take n bs)"
  unfolding chain_linked_def
  using successively_append_iff [of _ "take n bs" "drop n bs"] by simp

section \<open>Indexing and rolling back keep the invariant\<close>

lemma consume_all_consumed_at:
  "c_consumed_at_block_number (consume_all refs c) = Some n \<Longrightarrow>
     c_consumed_at_block_number c = Some n \<or> (\<exists>r\<in>set refs. cc_consumed_at_block_number r = n)"
proof (induction refs arbitrary: c)
  case (Cons r refs)
  then show ?case by (fastforce simp: consume_def split: if_splits)
qed simp

lemma parse_block_consumed_at:
  assumes "parse_block lib view = Inr p" and "r \<in> set (pb_consumed p)"
  shows "cc_consumed_at_block_number r = bv_number view"
proof -
  from assms(1) obtain ps where
    ps: "collect_results (parse_tx lib (bv_number view)) (enumerate 0 (bv_transactions view)) = Inr ps"
    and cons: "pb_consumed p = concat (map (snd \<circ> snd) ps)"
    by (rule parse_block_Inr)
  from cons assms(2) obtain row cells refs where "(row, cells, refs) \<in> set ps" "r \<in> set refs"
    by auto
  moreover from ps have "map (parse_tx lib (bv_number view)) (enumerate 0 (bv_transactions view)) = map Inr ps"
    by (simp add: collect_results_Inr)
  then have "\<exists>x\<in>set (enumerate 0 (bv_transactions view)). parse_tx lib (bv_number view) x = Inr q"
    if "q \<in> set ps" for q
    using that by (metis (no_types, opaque_lifting) image_eqI image_iff list.set_map)
  ultimately obtain i tx where "parse_tx lib (bv_number view) (i, tx) = Inr (row, cells, refs)"
    by fastforce
  then have "refs = consumed_refs (bv_number view) tx" by (rule parse_tx_rows)
  with \<open>r \<in> set refs\<close> show ?thesis by (auto simp: consumed_refs_def consumed_ref_def)
qed

lemma chain_ok_indexed:
  assumes ok: "chain_ok d" and idx: "index_body pg p d = Inr (u, d')"
    and parse: "parse_block lib view = Inr p" and n: "0 \<le> bv_number view" "bv_number view < i64_MAX"
    and link: "db_blocks d \<noteq> [] \<Longrightarrow> bv_number view = br_number (last (db_blocks d)) + 1
         \<and> bv_parent_hash view = br_hash (last (db_blocks d))"
  shows "chain_ok d'"
proof -
  have d': "d' = indexed_db (pg_now pg) p d" using idx by (rule index_body_Inr)
  have num: "br_number (pb_block p) = bv_number view" and par: "br_parent_hash (pb_block p) = bv_parent_hash view"
    using parse by (rule parse_block_Inr, simp)+
  have "schema_ok d'" using ok idx by (auto simp: chain_ok_def intro: index_body_schema)
  moreover have "chain_linked (db_blocks d')"
    using ok link num par
    by (cases "db_blocks d = []") (simp_all add: d' indexed_db_def chain_ok_def chain_linked_snoc)
  moreover have "heights_ok d'" using ok num n by (simp add: d' indexed_db_def chain_ok_def heights_ok_def)
  moreover have "consumed_known d'"
  proof -
    have "n \<in> br_number ` set (db_blocks d')"
      if "c \<in> set (db_cells d @ map stored_of_row (pb_cells p))"
        "c_consumed_at_block_number (consume_all (pb_consumed p) c) = Some n" for c n
      using consume_all_consumed_at [OF that(2)]
    proof
      assume at: "c_consumed_at_block_number c = Some n"
      then have "c \<in> set (db_cells d)" using that(1) by (auto simp: stored_of_row_def)
      with at ok show ?thesis by (auto simp: d' indexed_db_def chain_ok_def consumed_known_def)
    next
      assume "\<exists>r\<in>set (pb_consumed p). cc_consumed_at_block_number r = n"
      then have "n = bv_number view" using parse_block_consumed_at [OF parse] by auto
      then show ?thesis using num by (simp add: d' indexed_db_def)
    qed
    then show ?thesis unfolding consumed_known_def by (auto simp: d' indexed_db_def)
  qed
  moreover have "db_indexer_state d' = checkpoint_of (db_blocks d')"
    by (simp add: d' indexed_db_def checkpoint_of_def)
  ultimately show ?thesis by (simp add: chain_ok_def)
qed

lemma restore_consumed_at:
  "c_consumed_at_block_number (restore A c) = Some n \<Longrightarrow> c_consumed_at_block_number c = Some n \<and> n \<le> A"
  by (auto simp: restore_def split: option.splits if_splits)

lemma chain_ok_rolled_back:
  assumes ok: "chain_ok d" and rb: "rollback_body pg a prev ih d = Inr (out, d')"
    and b: "b \<in> set (db_blocks d)" "br_number b = an_block_number a" "br_hash b = an_node_hash a"
  shows "chain_ok d'" and "db_blocks d' \<noteq> []" and "last (db_blocks d') = b"
    and "prev = br_number (last (db_blocks d)) \<Longrightarrow> int (ro_deleted_blocks out) = prev - an_block_number a"
proof -
  let ?A = "an_block_number a"
  have linked: "chain_linked (db_blocks d)" using ok by (simp add: chain_ok_def)
  obtain i where i: "i < length (db_blocks d)" "b = db_blocks d ! i"
    and keep: "filter (\<lambda>x. \<not> br_number x > ?A) (db_blocks d) = take (Suc i) (db_blocks d)"
    and gone: "length (filter (\<lambda>x. br_number x > ?A) (db_blocks d)) = length (db_blocks d) - Suc i"
    using chain_linked_prefix [OF linked b(1)] b(2) by auto
  have d': "d' = (rolled_back ?A (an_node_hash a) d)\<lparr>db_reorg_log := db_reorg_log d @ [reorg_entry pg a prev ih]\<rparr>"
    using rb by (rule rollback_body_Inr)
  have blocks: "db_blocks d' = take (Suc i) (db_blocks d)"
    by (simp add: d' rolled_back_def Let_def keep)
  show ne: "db_blocks d' \<noteq> []" using i by (auto simp: blocks)
  show last: "last (db_blocks d') = b" using i by (simp add: blocks take_Suc_conv_app_nth)
  have "schema_ok d'" using ok rb by (auto simp: chain_ok_def intro: rollback_body_schema)
  moreover have "chain_linked (db_blocks d')" using linked by (simp add: blocks chain_linked_take)
  moreover have "heights_ok d'" using ok
    by (auto simp: chain_ok_def heights_ok_def blocks dest: in_set_takeD)
  moreover have "consumed_known d'"
  proof -
    have "n \<in> br_number ` set (db_blocks d')"
      if c: "c \<in> set (db_cells d)" and at: "c_consumed_at_block_number (restore ?A c) = Some n" for c n
    proof -
      from restore_consumed_at [OF at] c ok obtain x where "x \<in> set (db_blocks d)" "br_number x = n" "n \<le> ?A"
        by (auto simp: chain_ok_def consumed_known_def)
      then have "x \<in> set (filter (\<lambda>x. \<not> br_number x > ?A) (db_blocks d))" by simp
      then show ?thesis using \<open>br_number x = n\<close> by (auto simp: keep blocks)
    qed
    then show ?thesis unfolding consumed_known_def
      by (auto simp: d' rolled_back_def Let_def keep)
  qed
  moreover have "db_indexer_state d' = checkpoint_of (db_blocks d')"
    using ne last b by (simp add: checkpoint_of_def) (simp add: d' rolled_back_def Let_def)
  ultimately show "chain_ok d'" by (simp add: chain_ok_def)
  assume prev: "prev = br_number (last (db_blocks d))"
  have "ro_deleted_blocks out = length (db_blocks d) - Suc i"
    using rollback_body_Inr(2) [OF rb] gone by simp
  moreover have "br_number (last (db_blocks d)) = br_number (hd (db_blocks d)) + int (length (db_blocks d)) - 1"
    using linked i by (intro chain_linked_last) auto
  moreover have "?A = br_number (hd (db_blocks d)) + int i"
    using chain_linked_numbers [OF linked i(1)] i(2) b(2) by simp
  ultimately show "int (ro_deleted_blocks out) = prev - ?A" using prev i(1) by simp
qed

end
