(* ===== verification/Samples.thy ===== *)
theory Samples
  imports Poller
begin

text \<open>
  Concrete instances of the library functions, a small chain with a fork and sessions without
  faults, on which the hypotheses of the theorems are discharged.
\<close>

definition sample_parse_lib :: parse_lib where
  "sample_parse_lib = \<lparr>calc_script_hash = (\<lambda>s. sc_code_hash s @ sc_args s),
     to_value = (\<lambda>s. Inr (JStr s)), bigdecimal_from_str = (\<lambda>s. Some (int (length s)))\<rparr>"

definition sample_event_lib :: event_lib where
  "sample_event_lib = \<lparr>hex_encode = map (\<lambda>b. char_of (unat b)), ser_block = (\<lambda>e. Some (bm_hash e)),
     ser_cell = (\<lambda>e. Some (ce_tx_hash e)), ser_reorg = (\<lambda>e. Some (rv_ancestor_hash e))\<rparr>"

definition sample_poller :: Poller where
  "sample_poller = \<lparr>po_parse = sample_parse_lib, po_events = sample_event_lib, po_redis = True,
     po_config = default_config ''db'' ''rpc''\<rparr>"

definition sample_script :: Script where
  "sample_script = \<lparr>sc_code_hash = [7], sc_hash_type = ''type'', sc_args = [8]\<rparr>"

definition sample_tx :: "bytes \<Rightarrow> bytes \<Rightarrow> TransactionView" where
  "sample_tx hash spends = \<lparr>tv_hash = hash, tv_version = 0, tv_cell_deps = [], tv_header_deps = [],
     tv_witnesses = [], tv_inputs = [\<lparr>ci_previous_tx_hash = spends, ci_previous_index = 0\<rparr>],
     tv_outputs = [\<lparr>co_capacity = 100, co_lock = sample_script, co_type = None\<rparr>],
     tv_outputs_data = [[1]]\<rparr>"

definition sample_block :: "u64 \<Rightarrow> bytes \<Rightarrow> bytes \<Rightarrow> TransactionView list \<Rightarrow> BlockView" where
  "sample_block number hash parent txs = \<lparr>bv_number = number, bv_hash = hash, bv_parent_hash = parent,
     bv_timestamp = 1000 + number, bv_epoch = 0, bv_nonce = 5, bv_dao = [], bv_transactions = txs,
     bv_proposals = [], bv_uncles = []\<rparr>"

text \<open>Genesis, the block a fork puts at height 1, and the two blocks of the winning chain.\<close>

definition genesis :: BlockView where
  "genesis = sample_block 0 [10] [0] [sample_tx [20] [0]]"

definition fork_one :: BlockView where
  "fork_one = sample_block 1 [11] [10] [sample_tx [21] [20]]"

definition main_one :: BlockView where
  "main_one = sample_block 1 [12] [10] [sample_tx [22] [20]]"

definition main_two :: BlockView where
  "main_two = sample_block 2 [13] [12] [sample_tx [23] [22]]"

definition sample_node :: "BlockView list \<Rightarrow> node" where
  "sample_node bs = (\<lambda>n. Inr (if 0 \<le> n \<and> n < int (length bs) then Some (bs ! nat n) else None))"

definition sample_pg :: pg_env where
  "sample_pg = \<lparr>pg_now = 50, pg_serial = 1, pg_hash_at = False, pg_walk_hash_at = (\<lambda>_. False),
     pg_begin = False, pg_block_insert = False, pg_tx_insert = (\<lambda>_. False),
     pg_cell_insert = (\<lambda>_. False), pg_mark_consumed = (\<lambda>_. False), pg_checkpoint = False,
     pg_reorg_insert = False, pg_restore = False, pg_delete = False, pg_reorg_complete = False,
     pg_commit = CommitOk\<rparr>"

definition sample_env :: "BlockView list \<Rightarrow> poll_env" where
  "sample_env bs = \<lparr>pe_cancelled = False, pe_node = sample_node bs, pe_pg = sample_pg,
     pe_elapsed = 3, pe_utc_now = 60\<rparr>"

definition sample_world :: world where
  "sample_world = \<lparr>w_db = empty_chain_db, w_metrics = Metrics_new, w_messages = []\<rparr>"

lemmas sample_defs =
  sample_parse_lib_def sample_event_lib_def sample_poller_def sample_script_def sample_tx_def
  sample_block_def genesis_def fork_one_def main_one_def main_two_def sample_node_def sample_pg_def
  sample_env_def sample_world_def

definition sample_parsed :: "i64 \<Rightarrow> bytes \<Rightarrow> bytes \<Rightarrow> bytes \<Rightarrow> ConsumedCellRef list \<Rightarrow> ParsedBlock" where
  "sample_parsed number hash parent tx refs =
     \<lparr>pb_block = \<lparr>br_number = number, br_hash = hash, br_parent_hash = parent,
        br_timestamp_ms = 1000 + number, br_epoch = 0, br_transactions_count = 1, br_proposals_count = 0,
        br_uncles_count = 0, br_nonce = 1, br_dao = []\<rparr>,
      pb_transactions = [\<lparr>tr_hash = tx, tr_block_number = number, tr_tx_index = 0, tr_version = 0,
        tr_cell_deps = JStr [], tr_header_deps = JStr [], tr_witnesses = JStr [],
        tr_inputs_count = 1, tr_outputs_count = 1\<rparr>],
      pb_cells = [\<lparr>cr_tx_hash = tx, cr_output_index = 0, cr_block_number = number,
        cr_capacity_shannons = 100, cr_lock_code_hash = [7], cr_lock_hash_type = Type,
        cr_lock_args = [8], cr_lock_hash = [7, 8], cr_type_code_hash = None, cr_type_hash_type = None,
        cr_type_args = None, cr_type_hash = None, cr_data = [1]\<rparr>],
      pb_consumed = refs\<rparr>"

definition sample_ref :: "bytes \<Rightarrow> bytes \<Rightarrow> i64 \<Rightarrow> ConsumedCellRef" where
  "sample_ref spends tx number = \<lparr>cc_tx_hash = spends, cc_output_index = 0, cc_consumed_by_tx_hash = tx,
     cc_consumed_by_input_index = 0, cc_consumed_at_block_number = number\<rparr>"

definition parsed_genesis where "parsed_genesis = sample_parsed 0 [10] [0] [20] []"
definition parsed_fork_one where "parsed_fork_one = sample_parsed 1 [11] [10] [21] [sample_ref [20] [21] 1]"
definition parsed_main_one where "parsed_main_one = sample_parsed 1 [12] [10] [22] [sample_ref [20] [22] 1]"
definition parsed_main_two where "parsed_main_two = sample_parsed 2 [13] [12] [23] [sample_ref [22] [23] 2]"

lemmas parsed_defs = parsed_genesis_def parsed_fork_one_def parsed_main_one_def parsed_main_two_def
  sample_parsed_def sample_ref_def

lemma sample_parses:
  "parse_block sample_parse_lib genesis = Inr parsed_genesis"
  "parse_block sample_parse_lib fork_one = Inr parsed_fork_one"
  "parse_block sample_parse_lib main_one = Inr parsed_main_one"
  "parse_block sample_parse_lib main_two = Inr parsed_main_two"
  by (simp_all add: genesis_def fork_one_def main_one_def main_two_def sample_block_def sample_tx_def
      sample_script_def sample_parse_lib_def parsed_defs parse_block_def to_i64_def i64_try_from_def
      i32_try_from_def parse_transaction_row_def serialize_field_def parse_output_def parse_type_script_def
      encode_hash_type_def to_i32_def int_dec_def nat_dec.simps)

lemma sample_views:
  "bv_parent_hash genesis = [0]" "bv_parent_hash fork_one = [10]" "bv_parent_hash main_one = [10]"
  "bv_parent_hash main_two = [12]" "bv_hash genesis = [10]" "bv_hash fork_one = [11]"
  "bv_hash main_one = [12]" "bv_hash main_two = [13]" "bv_number genesis = 0" "bv_number fork_one = 1"
  "bv_number main_one = 1" "bv_number main_two = 2"
  by (simp_all add: genesis_def fork_one_def main_one_def main_two_def sample_block_def)

definition sample_fork_db :: chain_db where
  "sample_fork_db = indexed_db 50 parsed_fork_one (indexed_db 50 parsed_genesis empty_chain_db)"

definition sample_fork_world :: world where
  "sample_fork_world = sample_world\<lparr>w_db := sample_fork_db\<rparr>"

definition sample_fork_state :: loop_state where
  "sample_fork_state = \<lparr>ls_world = sample_fork_world, ls_next_block = 2, ls_backoff = Backoff_new, ls_sleeps_ms = []\<rparr>"

definition lost_ack :: "poll_env \<Rightarrow> poll_env" where
  "lost_ack env = env\<lparr>pe_pg := (pe_pg env)\<lparr>pg_commit := CommitUnknown\<rparr>\<rparr>"

definition sample_start_state :: loop_state where
  "sample_start_state = \<lparr>ls_world = sample_world, ls_next_block = 0, ls_backoff = Backoff_new, ls_sleeps_ms = []\<rparr>"

end
