(* ===== verification/PollerInv.thy ===== *)
theory PollerInv
  imports ChainInv Samples
begin

text \<open>
  The poller keeps the chain invariant: what one step can do, the invariant between iterations as a
  property of every state the loop reaches, and what a lost commit acknowledgement breaks.
\<close>

section \<open>One step of the poller\<close>

text \<open>The node answers a height with the block of that height (the contract of
  \<^verbatim>\<open>get_block_by_number\<close>), and heights fit the \<^verbatim>\<open>BIGINT\<close> column.\<close>

definition node_numbered :: "node \<Rightarrow> bool" where
  "node_numbered ckb \<longleftrightarrow> (\<forall>n b. ckb n = Inr (Some b) \<longrightarrow> bv_number b = n \<and> n < i64_MAX)"

lemma node_numberedD:
  "node_numbered ckb \<Longrightarrow> ckb n = Inr (Some b) \<Longrightarrow> bv_number b = n \<and> n < i64_MAX"
  by (auto simp: node_numbered_def)

text \<open>The height the loop asks for next, given what is stored.\<close>

definition next_height :: "Config \<Rightarrow> chain_db \<Rightarrow> u64" where
  "next_height config d =
     (if db_blocks d = [] then indexer_start_block config else br_number (last (db_blocks d)) + 1)"

lemma blocks_hash_at_last:
  assumes "chain_ok d" and "db_blocks d \<noteq> []"
  shows "blocks_hash_at fault (br_number (last (db_blocks d))) d =
    (if fault then Inl (Sqlx Driver) else Inr (Some (br_hash (last (db_blocks d)))))"
proof -
  have "find (\<lambda>b. br_number b = br_number (last (db_blocks d))) (db_blocks d) = Some (last (db_blocks d))"
    using assms by (intro find_Some_iff_unique) (simp_all add: chain_ok_def schema_ok_def)
  then show ?thesis by (simp add: blocks_hash_at_def)
qed

lemma blocks_hash_at_Some:
  assumes "blocks_hash_at fault h d = Inr (Some x)"
  shows "\<exists>b\<in>set (db_blocks d). br_number b = h \<and> br_hash b = x"
  using assms by (auto simp: blocks_hash_at_def find_Some_iff split: if_splits)

lemma index_block_cases:
  assumes "index_block self env n block w = (r, w')" and "pg_commit (pe_pg env) \<noteq> CommitUnknown"
  shows "(\<exists>e. r = Inl e) \<and> w_db w' = w_db w \<and> w' = w
       \<or> r = Inr Indexed \<and> (\<exists>p. parse_block (po_parse self) block = Inr p
            \<and> index_body (pe_pg env) p (w_db w) = Inr ((), w_db w'))"
proof (cases "parse_block (po_parse self) block")
  case (Inl e)
  with assms show ?thesis by (auto simp: index_block_def)
next
  case (Inr p)
  obtain r1 d1 where t: "in_transaction (pg_begin (pe_pg env)) (pg_commit (pe_pg env))
                  (index_body (pe_pg env) p) (w_db w) = (r1, d1)" by fastforce
  show ?thesis
  proof (cases r1)
    case Inl1: (Inl e)
    then have "d1 = w_db w" using in_transaction_Inl [OF t [unfolded Inl1]] assms(2) by auto
    with assms(1) Inr t Inl1 show ?thesis by (auto simp: index_block_def)
  next
    case Inr1: (Inr u)
    with t have "index_body (pe_pg env) p (w_db w) = Inr ((), d1)" by (simp add: in_transaction_Inr)
    with assms(1) Inr t Inr1 show ?thesis by (auto simp: index_block_def)
  qed
qed

lemma rollback_to_cases:
  assumes "rollback_to pg a prev ih d = (r, d')" and "pg_commit pg \<noteq> CommitUnknown"
  shows "(\<exists>e. r = Inl e) \<and> d' = d \<or> (\<exists>out. r = Inr out \<and> rollback_body pg a prev ih d = Inr (out, d'))"
proof -
  obtain r1 where t: "in_transaction (pg_begin pg) (pg_commit pg) (rollback_body pg a prev ih) d = (r1, d')"
    and r: "r = map_err ReorgDb r1"
    using assms(1) by (cases "in_transaction (pg_begin pg) (pg_commit pg) (rollback_body pg a prev ih) d")
      (auto simp: rollback_to_def)
  show ?thesis
  proof (cases r1)
    case (Inl e)
    then have "d' = d" using in_transaction_Inl [OF t [unfolded Inl]] assms(2) by auto
    with Inl r show ?thesis by simp
  next
    case (Inr out)
    with t r show ?thesis by (simp add: in_transaction_Inr)
  qed
qed

lemma handle_reorg_cases:
  assumes "handle_reorg self env suspect ih w = (r, w')" and "pg_commit (pe_pg env) \<noteq> CommitUnknown"
    and "suspect \<le> i64_MAX"
  shows "(\<exists>e. r = Inl e) \<and> w' = w \<or> r = Inr InconsistentNode \<and> w' = w
       \<or> (\<exists>a b out. r = Inr (ReorgHandled (an_block_number a)) \<and> b \<in> set (db_blocks (w_db w))
            \<and> br_number b = an_block_number a \<and> br_hash b = an_node_hash a
            \<and> 0 \<le> an_block_number a \<and> an_block_number a < suspect
            \<and> rollback_body (pe_pg env) a suspect ih (w_db w) = Inr (out, w_db w'))"
proof (cases "find_common_ancestor (pe_node env)
             (\<lambda>h. blocks_hash_at (pg_walk_hash_at (pe_pg env) h) h (w_db w)) suspect")
  case (Inl e)
  with assms(1) show ?thesis by (auto simp: handle_reorg_def)
next
  case (Inr a)
  note anc = find_common_ancestor_Inr [OF Inr assms(3)]
  then obtain b where b: "b \<in> set (db_blocks (w_db w))" "br_number b = an_block_number a"
      "br_hash b = an_node_hash a"
    using blocks_hash_at_Some by blast
  show ?thesis
  proof (cases "is_inconsistent_node suspect (an_block_number a)")
    case True
    with assms(1) Inr show ?thesis by (auto simp: handle_reorg_def)
  next
    case False
    then have lt: "an_block_number a < suspect" by (simp add: is_inconsistent_node_def)
    obtain r1 d1 where rb: "rollback_to (pe_pg env) a suspect ih (w_db w) = (r1, d1)" by fastforce
    from rollback_to_cases [OF rb assms(2)] show ?thesis
    proof
      assume "(\<exists>e. r1 = Inl e) \<and> d1 = w_db w"
      with assms(1) Inr False rb show ?thesis by (auto simp: handle_reorg_def)
    next
      assume "\<exists>out. r1 = Inr out \<and> rollback_body (pe_pg env) a suspect ih (w_db w) = Inr (out, d1)"
      then obtain out where out: "r1 = Inr out"
        "rollback_body (pe_pg env) a suspect ih (w_db w) = Inr (out, d1)" by blast
      then have "ro_ancestor_height out = an_block_number a" using rollback_body_Inr(2) by fastforce
      with assms(1) Inr False rb out b anc lt show ?thesis
        by (auto simp: handle_reorg_def Let_def)
    qed
  qed
qed

text \<open>Every step whose commit is not left in doubt either changes nothing, or indexes the block it
  asked for, or cuts the chain back to an ancestor below the tip.\<close>

lemma step_cases:
  assumes step: "step self env n w = (r, w')" and num: "node_numbered (pe_node env)"
    and commit: "pg_commit (pe_pg env) \<noteq> CommitUnknown"
  obtains (same) "w' = w" "(\<exists>e. r = Inl e) \<or> r = Inr WaitingForTip \<or> r = Inr InconsistentNode"
  | (indexed) block p where "r = Inr Indexed" "pe_node env n = Inr (Some block)"
      "parse_block (po_parse self) block = Inr p"
      "index_body (pe_pg env) p (w_db w) = Inr ((), w_db w')"
      "\<And>x. n > 0 \<Longrightarrow> blocks_hash_at False (n - 1) (w_db w) = Inr (Some x) \<Longrightarrow> bv_parent_hash block = x"
  | (reorged) block a b ih out where "r = Inr (ReorgHandled (an_block_number a))"
      "pe_node env n = Inr (Some block)" "bv_parent_hash block \<noteq> ih"
      "blocks_hash_at False (n - 1) (w_db w) = Inr (Some ih)"
      "b \<in> set (db_blocks (w_db w))" "br_number b = an_block_number a" "br_hash b = an_node_hash a"
      "0 \<le> an_block_number a" "an_block_number a < n - 1"
      "rollback_body (pe_pg env) a (n - 1) ih (w_db w) = Inr (out, w_db w')"
proof (cases "pe_node env n")
  case (Inr found)
  show thesis
  proof (cases found)
    case (Some block)
    note blk = Inr [unfolded Some]
    let ?at = "blocks_hash_at (pg_hash_at (pe_pg env)) (n - 1) (w_db w)"
    have small: "n < i64_MAX" using node_numberedD [OF num blk] by simp
    then have tf: "unwrap_or (i64_try_from n) i64_MAX = n" if "n > 0"
      using that by (simp add: i64_try_from_def)
    have indexing: thesis if ib: "index_block self env n block w = (r, w')"
      and link: "\<And>x. n > 0 \<Longrightarrow> blocks_hash_at False (n - 1) (w_db w) = Inr (Some x) \<Longrightarrow> bv_parent_hash block = x"
      using index_block_cases [OF ib commit]
      by (elim disjE conjE exE) (rule same, simp, simp, rule indexed [OF _ blk _ _ link], auto)
    consider (zero) "\<not> n > 0" | (fault) e where "n > 0" "?at = Inl e" | (free) "n > 0" "?at = Inr None"
      | (prev) x where "n > 0" "?at = Inr (Some x)" by (cases ?at; cases "projr ?at"; force)
    then show thesis
    proof cases
      case zero
      with step blk indexing show thesis by (simp add: step_def)
    next
      case fault
      with step blk tf same show thesis by (auto simp: step_def Let_def)
    next
      case free
      with step blk tf indexing show thesis
        by (auto simp: step_def Let_def blocks_hash_at_def split: if_splits)
    next
      case (prev x)
      then have at: "blocks_hash_at False (n - 1) (w_db w) = Inr (Some x)"
        by (simp add: blocks_hash_at_def split: if_splits)
      show thesis
      proof (cases "bv_parent_hash block = x")
        case True
        with step blk tf prev at indexing show thesis by (auto simp: step_def Let_def)
      next
        case False
        with step blk tf prev have hr: "handle_reorg self env (n - 1) x w = (r, w')"
          by (simp add: step_def Let_def)
        have "n - 1 \<le> i64_MAX" using small by simp
        from handle_reorg_cases [OF hr commit this] show thesis
          by (elim disjE conjE exE) (auto intro: same reorged [OF _ blk False at])
      qed
    qed
  qed (use step Inr same in \<open>auto simp: step_def\<close>)
qed (use step same in \<open>auto simp: step_def\<close>)

lemma next_height_prev:
  assumes "chain_ok d" and "db_blocks d \<noteq> []" and "n = next_height config d"
  shows "n > 0" and "blocks_hash_at False (n - 1) d = Inr (Some (br_hash (last (db_blocks d))))"
proof -
  have "0 \<le> br_number (last (db_blocks d))"
    using assms(1,2) last_in_set by (auto simp: chain_ok_def heights_ok_def)
  with assms(2,3) show "n > 0" by (simp add: next_height_def)
  show "blocks_hash_at False (n - 1) d = Inr (Some (br_hash (last (db_blocks d))))"
    using blocks_hash_at_last [OF assms(1,2), of False] assms(2,3) by (simp add: next_height_def)
qed

lemma step_keeps_chain:
  assumes ok: "chain_ok (w_db w)" and num: "node_numbered (pe_node env)"
    and commit: "pg_commit (pe_pg env) \<noteq> CommitUnknown"
    and n: "n = next_height config (w_db w)" "0 \<le> n"
    and step: "step self env n w = (r, w')"
  shows "chain_ok (w_db w')
      \<and> (r = Inr Indexed \<longrightarrow> db_blocks (w_db w') \<noteq> [] \<and> br_number (last (db_blocks (w_db w'))) = n)
      \<and> (\<forall>t. r = Inr (ReorgHandled t) \<longrightarrow> db_blocks (w_db w') \<noteq> []
           \<and> br_number (last (db_blocks (w_db w'))) = t \<and> 0 \<le> t \<and> t < n - 1)
      \<and> ((\<exists>e. r = Inl e) \<or> r = Inr WaitingForTip \<or> r = Inr InconsistentNode \<longrightarrow> w' = w)"
  using step num commit
proof (cases rule: step_cases)
  case (indexed block p)
  have bn: "bv_number block = n" "n < i64_MAX" using node_numberedD [OF num indexed(2)] by auto
  have link: "bv_number block = br_number (last (db_blocks (w_db w))) + 1
      \<and> bv_parent_hash block = br_hash (last (db_blocks (w_db w)))" if ne: "db_blocks (w_db w) \<noteq> []"
    using indexed(5) next_height_prev [OF ok ne n(1)] bn n(1) ne by (simp add: next_height_def)
  have "chain_ok (w_db w')"
    using n(2) bn link by (intro chain_ok_indexed [OF ok indexed(4,3)]) auto
  moreover have "br_number (pb_block p) = n" using indexed(3) bn by (auto elim: parse_block_Inr)
  ultimately show ?thesis using indexed(1) index_body_Inr [OF indexed(4)] by (simp add: indexed_db_def)
next
  case (reorged block a b ih out)
  from chain_ok_rolled_back [OF ok reorged(10,5,6,7)] reorged show ?thesis by auto
qed (use ok in auto)

section \<open>The loop\<close>

text \<open>The state between two iterations: the chain invariant holds and the loop asks for the height
  on top of the stored chain.\<close>

definition poller_ok :: "Poller \<Rightarrow> loop_state \<Rightarrow> bool" where
  "poller_ok self s \<longleftrightarrow> chain_ok (w_db (ls_world s)) \<and>
     ls_next_block s = next_height (po_config self) (w_db (ls_world s)) \<and> 0 \<le> ls_next_block s"

definition env_ok :: "poll_env \<Rightarrow> bool" where
  "env_ok env \<longleftrightarrow> node_numbered (pe_node env) \<and> pg_commit (pe_pg env) \<noteq> CommitUnknown"

inductive poller_reach :: "Poller \<Rightarrow> loop_state \<Rightarrow> loop_state \<Rightarrow> bool" for self where
  reach_refl: "poller_reach self s s"
| reach_step: "poller_reach self s t \<Longrightarrow> \<not> pe_cancelled env \<Longrightarrow> env_ok env \<Longrightarrow>
    poller_reach self s (loop_iteration self env t)"

inductive_cases poller_reachE: "poller_reach self s t"

lemma heights_last:
  "chain_ok d \<Longrightarrow> db_blocks d \<noteq> [] \<Longrightarrow>
     0 \<le> br_number (last (db_blocks d)) \<and> br_number (last (db_blocks d)) < i64_MAX"
  by (auto simp: chain_ok_def heights_ok_def)

lemma loop_iteration_ok:
  assumes "poller_ok self s" and "env_ok env"
  shows "poller_ok self (loop_iteration self env s)"
proof -
  obtain r w' where st: "step self env (ls_next_block s) (ls_world s) = (r, w')" by fastforce
  note inv = assms [unfolded poller_ok_def env_ok_def]
  have ok: "chain_ok (w_db w')"
    and idx: "r = Inr Indexed \<Longrightarrow> db_blocks (w_db w') \<noteq> [] \<and> br_number (last (db_blocks (w_db w'))) = ls_next_block s"
    and reo: "\<And>t. r = Inr (ReorgHandled t) \<Longrightarrow> db_blocks (w_db w') \<noteq> [] \<and> br_number (last (db_blocks (w_db w'))) = t
           \<and> 0 \<le> t \<and> t < ls_next_block s - 1"
    and same: "(\<exists>e. r = Inl e) \<or> r = Inr WaitingForTip \<or> r = Inr InconsistentNode \<Longrightarrow> w' = ls_world s"
    using step_keeps_chain [OF _ _ _ _ _ st, of "po_config self"] inv by blast+
  have sat: "u64_saturating_add m 1 = m + 1" if "0 \<le> m" "m < i64_MAX" for m
    using that by (simp add: u64_saturating_add_def saturate_def)
  show ?thesis
  proof (cases r)
    case (Inl e)
    with same st inv show ?thesis
      by (auto simp: poller_ok_def loop_iteration_def next_delay_def)
  next
    case (Inr out)
    show ?thesis
    proof (cases out)
      case Indexed
      with Inr idx ok st heights_last [OF ok] sat show ?thesis
        by (auto simp: poller_ok_def loop_iteration_def next_delay_def next_height_def)
    next
      case (ReorgHandled t)
      with Inr reo ok st heights_last [OF ok] sat show ?thesis
        by (auto simp: poller_ok_def loop_iteration_def next_delay_def next_height_def)
    qed (use Inr same st inv in \<open>auto simp: poller_ok_def loop_iteration_def next_delay_def\<close>)
  qed
qed

lemma poller_reach_ok: "poller_reach self s t \<Longrightarrow> poller_ok self s \<Longrightarrow> poller_ok self t"
  by (induction rule: poller_reach.induct) (auto intro: loop_iteration_ok)

lemma poller_reach_trans:
  "poller_reach self t u \<Longrightarrow> poller_reach self s t \<Longrightarrow> poller_reach self s u"
  by (induction rule: poller_reach.induct) (auto intro: poller_reach.intros)

lemma run_loop_reach:
  "\<forall>env\<in>set envs. env_ok env \<Longrightarrow> poller_reach self s (snd (run_loop self envs s))"
proof (induction envs arbitrary: s)
  case (Cons env envs)
  show ?case
  proof (cases "pe_cancelled env")
    case False
    with Cons have "poller_reach self s (loop_iteration self env s)"
      by (auto intro: poller_reach.intros)
    then show ?thesis using Cons False by (auto intro: poller_reach_trans)
  qed (simp add: reach_refl)
qed (simp add: reach_refl)

lemma start_block_next_height:
  "chain_ok d \<Longrightarrow> start_block config (db_indexer_state d) = next_height config d"
  using heights_last [of d]
  by (cases "db_blocks d = []") (auto simp: chain_ok_def start_block_def checkpoint_of_def next_height_def as_u64_def
      i64_saturating_add_def saturate_def)

lemma run_started:
  assumes "run self f envs w = Inr (c, s)"
  shows "\<not> f \<and> (c, s) = run_loop self envs
      \<lparr>ls_world = w, ls_next_block = start_block (po_config self) (db_indexer_state (w_db w)),
       ls_backoff = Backoff_new, ls_sleeps_ms = []\<rparr>"
  using assms by (auto simp: run_def res_simps checkpoint_read_def split: if_splits)


lemma sample_fork_ok: "chain_ok sample_fork_db"
  by (simp add: sample_fork_db_def indexed_db_def empty_chain_db_def parsed_defs chain_ok_def schema_ok_def
      heights_ok_def consumed_known_def checkpoint_of_def chain_linked_def mk_block_def BlockRow.defs Block.defs
      cell_key_def stored_of_row_def consume_def consumed_columns_agree_def)

lemma chain_ok_empty: "chain_ok empty_chain_db"
  using schema_ok_empty
  by (simp add: chain_ok_def heights_ok_def consumed_known_def checkpoint_of_def empty_chain_db_def)

lemma sample_node_numbered:
  "list_all2 (\<lambda>b i. bv_number b = int i) bs [0..<length bs] \<Longrightarrow> int (length bs) < i64_MAX \<Longrightarrow>
     node_numbered (sample_node bs)"
  by (auto simp: node_numbered_def sample_node_def list_all2_conv_all_nth split: if_splits)

lemma sample_env_ok:
  "node_numbered (pe_node (sample_env [genesis, main_one, main_two]))"
  "pg_commit (pe_pg (sample_env bs)) = CommitOk"
  by (auto simp: sample_env_def sample_pg_def numeral_eq_Suc
       genesis_def main_one_def main_two_def sample_block_def upt_rec
      intro!: sample_node_numbered)

definition sample_run :: "PollerError + (bool \<times> loop_state)" where
  "sample_run = run sample_poller False [sample_env [genesis, main_one, main_two]] sample_fork_world"


section \<open>A commit whose acknowledgement is lost\<close>

lemma index_body_duplicate:
  "br_number (pb_block p) \<in> br_number ` set (db_blocks d) \<Longrightarrow> \<exists>e. index_body pg p d = Inl e"
  by (auto simp: index_body_def blocks_insert_def)

lemma wedged_iteration:
  assumes "n \<in> br_number ` set (db_blocks (w_db (ls_world s)))" and "ls_next_block s = n"
    and "pe_node env n = Inr (Some block)" and "parse_block (po_parse self) block = Inr p" "bv_number block = n"
    and "\<And>x. blocks_hash_at False (n - 1) (w_db (ls_world s)) = Inr (Some x) \<Longrightarrow> x = bv_parent_hash block"
    and "n < i64_MAX"
  shows "ls_world (loop_iteration self env s) = ls_world s" "ls_next_block (loop_iteration self env s) = n"
proof -
  let ?d = "w_db (ls_world s)"
  have "br_number (pb_block p) = n" using assms(4,5) by (auto elim: parse_block_Inr)
  then obtain e where "index_body (pe_pg env) p ?d = Inl e" using assms(1) index_body_duplicate by blast
  then have ib: "\<exists>e. index_block self env n block (ls_world s) = (Inl e, ls_world s)"
    using assms(4) by (auto simp: index_block_def in_transaction_def)
  have tf: "unwrap_or (i64_try_from n) i64_MAX = n" if "n > 0" using that assms(7) by (simp add: i64_try_from_def)
  have "\<exists>e. step self env n (ls_world s) = (Inl e, ls_world s)"
  proof (cases "blocks_hash_at (pg_hash_at (pe_pg env)) (n - 1) ?d")
    case (Inl e)
    with ib assms(3) tf show ?thesis by (auto simp: step_def Let_def)
  next
    case (Inr x)
    then have "blocks_hash_at False (n - 1) ?d = Inr x" by (simp add: blocks_hash_at_def split: if_splits)
    with Inr ib assms(3,6) tf show ?thesis by (cases x) (auto simp: step_def Let_def)
  qed
  then obtain e where "step self env n (ls_world s) = (Inl e, ls_world s)" by blast
  with assms(2) show "ls_world (loop_iteration self env s) = ls_world s" "ls_next_block (loop_iteration self env s) = n"
    by (simp_all add: loop_iteration_def next_delay_def)
qed

lemma wedged_run:
  assumes "n \<in> br_number ` set (db_blocks (w_db (ls_world s)))" and "ls_next_block s = n"
    and "parse_block (po_parse self) block = Inr p" "bv_number block = n"
    and "\<And>x. blocks_hash_at False (n - 1) (w_db (ls_world s)) = Inr (Some x) \<Longrightarrow> x = bv_parent_hash block"
    and "n < i64_MAX" and "\<forall>e\<in>set envs. pe_node e n = Inr (Some block)"
  shows "ls_world (snd (run_loop self envs s)) = ls_world s \<and> ls_next_block (snd (run_loop self envs s)) = n"
  using assms
proof (induction envs arbitrary: s)
  case (Cons env envs)
  have "pe_node env n = Inr (Some block)" using Cons.prems(7) by simp
  from wedged_iteration [OF Cons.prems(1,2) this Cons.prems(3-6)]
  show ?case using Cons.IH [of "loop_iteration self env s"] Cons.prems by auto
qed simp

lemma lost_ack_iteration:
  assumes "ls_next_block s = n" and "pe_node env n = Inr (Some block)" "\<not> pg_hash_at (pe_pg env)" "\<not> pg_begin (pe_pg env)"
    and "parse_block (po_parse self) block = Inr p" "n < i64_MAX"
    and "\<And>x. blocks_hash_at False (n - 1) (w_db (ls_world s)) = Inr (Some x) \<Longrightarrow> x = bv_parent_hash block"
    and "index_body (pe_pg env) p (w_db (ls_world s)) = Inr ((), d')" "pg_commit (pe_pg env) = CommitUnknown"
  shows "w_db (ls_world (loop_iteration self env s)) = d'" "ls_next_block (loop_iteration self env s) = n"
proof -
  have ib: "index_block self env n block (ls_world s) = (Inl (PollDb (Sqlx Driver)), (ls_world s)\<lparr>w_db := d'\<rparr>)"
    using assms(4,5,8,9) by (simp add: index_block_def in_transaction_def)
  have tf: "unwrap_or (i64_try_from n) i64_MAX = n" if "n > 0" using that assms(6) by (simp add: i64_try_from_def)
  have "step self env n (ls_world s) = (Inl (PollDb (Sqlx Driver)), (ls_world s)\<lparr>w_db := d'\<rparr>)"
  proof (cases "blocks_hash_at False (n - 1) (w_db (ls_world s))")
    case (Inr x)
    with assms(2,3,7) ib tf show ?thesis by (cases x) (auto simp: step_def Let_def)
  qed (simp add: blocks_hash_at_def)
  with assms(1) show "w_db (ls_world (loop_iteration self env s)) = d'" "ls_next_block (loop_iteration self env s) = n"
    by (simp_all add: loop_iteration_def next_delay_def)
qed

text \<open>C9: when a block's commit takes effect but its acknowledgement is lost, the poller asks for the
  same block again and cannot get past it: as long as the node serves that block every further
  iteration fails and leaves the world as it is.\<close>

theorem lost_commit_ack_wedges:
  assumes ok: "poller_ok self s" and n: "ls_next_block s = n" "n < i64_MAX"
    and env: "\<not> pe_cancelled env" "\<not> pg_hash_at (pe_pg env)" "\<not> pg_begin (pe_pg env)"
      "pg_commit (pe_pg env) = CommitUnknown"
    and served: "\<forall>e\<in>set (env # envs). pe_node e n = Inr (Some block)"
    and parse: "parse_block (po_parse self) block = Inr p" "bv_number block = n"
    and link: "db_blocks (w_db (ls_world s)) \<noteq> [] \<longrightarrow> bv_parent_hash block = br_hash (last (db_blocks (w_db (ls_world s))))"
    and body: "index_body (pe_pg env) p (w_db (ls_world s)) = Inr ((), d')"
  shows "w_db (ls_world (snd (run_loop self (env # envs) s))) = d'
    \<and> ls_next_block (snd (run_loop self (env # envs) s)) = n
    \<and> br_number (last (db_blocks d')) = n"
proof -
  let ?d = "w_db (ls_world s)" and ?s1 = "loop_iteration self env s"
  have prev: "x = bv_parent_hash block" if "blocks_hash_at False (n - 1) ?d = Inr (Some x)" for x
  proof (cases "db_blocks ?d = []")
    case True
    with that show ?thesis by (simp add: blocks_hash_at_def)
  next
    case False
    with that ok n link next_height_prev(2) [of ?d n] show ?thesis by (auto simp: poller_ok_def)
  qed
  have at: "pe_node env n = Inr (Some block)" using served by simp
  note s1 = lost_ack_iteration [OF n(1) at env(2,3) parse(1) n(2) prev body env(4)]
  have num: "br_number (pb_block p) = n" using parse by (auto elim: parse_block_Inr)
  have d': "d' = indexed_db (pg_now (pe_pg env)) p ?d" using index_body_Inr [OF body] .
  have "x = bv_parent_hash block" if "blocks_hash_at False (n - 1) d' = Inr (Some x)" for x
    using that num prev by (auto simp: d' indexed_db_def blocks_hash_at_def find_append split: option.splits)
  then have "ls_world (snd (run_loop self envs ?s1)) = ls_world ?s1 \<and> ls_next_block (snd (run_loop self envs ?s1)) = n"
    using s1 served num n(2) by (intro wedged_run [OF _ _ parse]) (auto simp: d' indexed_db_def)
  then show ?thesis using env(1) s1 num by (simp add: d' indexed_db_def)
qed

theorem lost_commit_ack_wedges_witness:
  "ls_next_block (snd (run_loop sample_poller
     (lost_ack (sample_env [genesis]) # replicate 1000 (sample_env [genesis])) sample_start_state)) = 0"
proof -
  have ok: "poller_ok sample_poller sample_start_state"
    using chain_ok_empty by (simp add: poller_ok_def sample_start_state_def sample_world_def next_height_def
        empty_chain_db_def sample_poller_def default_config_def)
  have "index_body (pe_pg (lost_ack (sample_env [genesis]))) parsed_genesis empty_chain_db
      = Inr ((), indexed_db 50 parsed_genesis empty_chain_db)"
    by (simp add: lost_ack_def sample_env_def sample_pg_def index_body_def db_defs transactions_insert_batch_def
      cells_insert_batch_def cells_mark_consumed_def empty_chain_db_def indexed_db_def parsed_defs)
  then show ?thesis
    using lost_commit_ack_wedges [OF ok, of 0 "lost_ack (sample_env [genesis])"
        "replicate 1000 (sample_env [genesis])" genesis parsed_genesis]
    by (simp add: sample_start_state_def sample_world_def empty_chain_db_def sample_views sample_parses sample_poller_def
        lost_ack_def sample_env_def sample_pg_def sample_node_def)
qed


end
