(* ===== verification/IndexerProps.thy ===== *)
theory IndexerProps
  imports PollerInv
begin

text \<open>
  Properties of the parts of the indexer: what a block parses to and when, which ancestor the walk
  finds, what a rollback reports, and how the loop retries.
\<close>

text \<open>C7: a parsed block has one row per transaction in order, one cell per output with data in order
  (keyed by transaction hash and output index, counted from zero within its transaction), and one
  consumed reference per input that is not the null outpoint, in order.\<close>

theorem parse_block_rows:
  assumes "parse_block lib view = Inr p"
  shows "map tr_hash (pb_transactions p) = map tv_hash (bv_transactions view)
    \<and> map (\<lambda>c. (cr_tx_hash c, cr_output_index c)) (pb_cells p) = concat (map output_keys (bv_transactions view))
    \<and> pb_consumed p = concat (map (consumed_refs (bv_number view)) (bv_transactions view))"
proof -
  let ?txs = "bv_transactions view" and ?bn = "bv_number view"
  let ?key = "\<lambda>c. (cr_tx_hash c, cr_output_index c)"
  from assms obtain ps where ps: "collect_results (parse_tx lib ?bn) (enumerate 0 ?txs) = Inr ps"
    and p: "pb_transactions p = map fst ps" "pb_cells p = concat (map (fst \<circ> snd) ps)"
      "pb_consumed p = concat (map (snd \<circ> snd) ps)" by (rule parse_block_Inr)
  have len: "length ps = length ?txs" using collect_results_nth(1) [OF ps] by simp
  have nth: "tr_hash (fst (ps ! i)) = tv_hash (?txs ! i)
      \<and> map ?key (fst (snd (ps ! i))) = output_keys (?txs ! i) \<and> snd (snd (ps ! i)) = consumed_refs ?bn (?txs ! i)"
    if i: "i < length ?txs" for i
  proof -
    have "parse_tx lib ?bn (i, ?txs ! i) = Inr (fst (ps ! i), fst (snd (ps ! i)), snd (snd (ps ! i)))"
      using collect_results_nth(2) [OF ps, of i] i by (simp add: nth_enumerate_eq)
    from parse_tx_rows [OF this] show ?thesis using created_cells_keys by blast
  qed
  have "map tr_hash (pb_transactions p) = map tv_hash ?txs"
    using nth len by (simp add: p list_eq_iff_nth_eq)
  moreover have "map (map ?key \<circ> (fst \<circ> snd)) ps = map output_keys ?txs"
    using nth len by (simp add: list_eq_iff_nth_eq)
  then have "map ?key (pb_cells p) = concat (map output_keys ?txs)"
    by (simp add: p map_concat)
  moreover have "map (snd \<circ> snd) ps = map (consumed_refs ?bn) ?txs"
    using nth len by (simp add: list_eq_iff_nth_eq)
  ultimately show ?thesis by (simp add: p)
qed

theorem parse_block_rows_witness:
  "map (\<lambda>c. (cr_tx_hash c, cr_output_index c)) (pb_cells parsed_main_one) = [([22], 0)]
   \<and> pb_consumed parsed_main_one = [sample_ref [20] [22] 1]"
  using parse_block_rows [OF sample_parses(3)]
  by (simp add: main_one_def sample_block_def sample_tx_def output_keys_def to_i32_def i32_try_from_def
      consumed_refs_def consumed_ref_def sample_ref_def is_null_input_def)

text \<open>The types of the columns.\<close>

definition in_i32 :: "int \<Rightarrow> bool" where
  "in_i32 n \<longleftrightarrow> - i32_MAX - 1 \<le> n \<and> n \<le> i32_MAX"

definition block_typed :: "BlockRow \<Rightarrow> bool" where
  "block_typed b \<longleftrightarrow> in_i64 (br_number b) \<and> in_i64 (br_timestamp_ms b) \<and> in_i64 (br_epoch b) \<and>
     in_i32 (br_transactions_count b) \<and> in_i32 (br_proposals_count b) \<and> in_i32 (br_uncles_count b)"

definition transaction_typed :: "i64 \<Rightarrow> TransactionRow \<Rightarrow> bool" where
  "transaction_typed bn t \<longleftrightarrow> tr_block_number t = bn \<and> in_i32 (tr_tx_index t) \<and> in_i32 (tr_version t) \<and>
     in_i32 (tr_inputs_count t) \<and> in_i32 (tr_outputs_count t)"

definition cell_typed :: "i64 \<Rightarrow> CellRow \<Rightarrow> bool" where
  "cell_typed bn c \<longleftrightarrow> cr_block_number c = bn \<and> in_i32 (cr_output_index c) \<and> in_i64 (cr_capacity_shannons c) \<and>
     (cr_type_code_hash c = None) = (cr_type_hash c = None) \<and> (cr_type_hash_type c = None) = (cr_type_hash c = None) \<and>
     (cr_type_args c = None) = (cr_type_hash c = None)"

definition reference_typed :: "i64 \<Rightarrow> ConsumedCellRef \<Rightarrow> bool" where
  "reference_typed bn r \<longleftrightarrow> cc_consumed_at_block_number r = bn \<and> in_i32 (cc_output_index r) \<and> in_i32 (cc_consumed_by_input_index r)"

lemma to_i32_typed: "in_i32 (to_i32 n)"
  by (simp add: to_i32_def i32_try_from_def in_i32_def unwrap_or_def)

lemma parse_output_typed:
  assumes "parse_output lib h bn i output data = Inr row"
  shows "cell_typed bn row"
  using assms
  by (auto simp: parse_output_def parse_type_script_def to_i64_def cell_typed_def to_i32_typed res_simps split: option.splits)

lemma parse_tx_typed:
  assumes "parse_tx lib bn (i, tx) = Inr (row, cells, refs)"
  shows "transaction_typed bn row" "list_all (cell_typed bn) cells" "list_all (reference_typed bn) refs"
proof -
  show "transaction_typed bn row"
    using assms by (auto simp: parse_tx_def parse_transaction_row_def transaction_typed_def to_i32_typed res_simps)
  have "created_cells lib bn tx = Inr cells" "refs = consumed_refs bn tx" using parse_tx_rows [OF assms] by simp_all
  then show "list_all (cell_typed bn) cells" "list_all (reference_typed bn) refs"
    using created_cells_nth parse_output_typed
    by (force simp: list_all_length, auto simp: consumed_refs_def consumed_ref_def reference_typed_def to_i32_typed list_all_iff)
qed

text \<open>C11: every row of a parsed block fits the columns it is stored in: heights, times and capacities are
  64-bit, counts and indexes 32-bit, all rows carry the height of their block, and the four columns
  of a type script are present together or absent together.\<close>

theorem parsed_rows_fit_columns:
  assumes "parse_block lib view = Inr p"
  shows "block_typed (pb_block p) \<and> list_all (transaction_typed (br_number (pb_block p))) (pb_transactions p) \<and>
    list_all (cell_typed (br_number (pb_block p))) (pb_cells p) \<and> list_all (reference_typed (br_number (pb_block p))) (pb_consumed p)"
proof -
  let ?bn = "bv_number view"
  from assms obtain ps where ps: "collect_results (parse_tx lib ?bn) (enumerate 0 (bv_transactions view)) = Inr ps"
    and p: "pb_transactions p = map fst ps" "pb_cells p = concat (map (fst \<circ> snd) ps)" "pb_consumed p = concat (map (snd \<circ> snd) ps)"
      "br_number (pb_block p) = ?bn" by (rule parse_block_Inr)
  have "block_typed (pb_block p)"
    using assms by (auto simp: parse_block_def to_i64_def block_typed_def to_i32_typed res_simps)
  moreover have "transaction_typed ?bn (fst x) \<and> list_all (cell_typed ?bn) (fst (snd x)) \<and> list_all (reference_typed ?bn) (snd (snd x))"
    if mem: "x \<in> set ps" for x
  proof -
    obtain i where "i < length ps" "x = ps ! i" using mem by (auto simp: in_set_conv_nth)
    then have "parse_tx lib ?bn (i, bv_transactions view ! i) = Inr (fst x, fst (snd x), snd (snd x))"
      using collect_results_nth [OF ps] by (simp add: nth_enumerate_eq)
    from parse_tx_typed [OF this] show ?thesis by blast
  qed
  ultimately show ?thesis by (auto simp: p list_all_iff)
qed

theorem parsed_rows_fit_columns_witness:
  "block_typed (pb_block parsed_main_one) \<and> list_all (cell_typed (br_number (pb_block parsed_main_one))) (pb_cells parsed_main_one)"
  using parsed_rows_fit_columns [OF sample_parses(3)] by simp

text \<open>C8: the parser accepts a block exactly when it can be stored: height, timestamp and epoch fit a
  \<^verbatim>\<open>BIGINT\<close>, the library conversions succeed, and every output that is stored has a capacity that
  fits and scripts of a known hash type.\<close>

theorem parse_block_succeeds_iff:
  "(\<exists>p. parse_block lib view = Inr p) \<longleftrightarrow>
     in_i64 (bv_number view) \<and> (\<exists>n. bigdecimal_from_str lib (int_dec (bv_nonce view)) = Some n)
     \<and> in_i64 (bv_timestamp view) \<and> in_i64 (bv_epoch view)
     \<and> list_all (tx_storable lib) (bv_transactions view)"
proof -
  let ?txs = "bv_transactions view"
  have "(\<exists>ps. collect_results (parse_tx lib bn) (enumerate 0 ?txs) = Inr ps) \<longleftrightarrow>
      list_all (\<lambda>(i, tx). tx_storable lib tx) (enumerate 0 ?txs)" for bn
    unfolding collect_results_succeeds by (rule list.pred_cong, rule refl, simp only: split_paired_all prod.case parse_tx_succeeds)
  then have "(\<exists>ps. collect_results (parse_tx lib bn) (enumerate 0 ?txs) = Inr ps) \<longleftrightarrow>
      list_all (tx_storable lib) ?txs" for bn
    by (simp add: list_all_enumerate)
  then show ?thesis
    by (fastforce simp: parse_block_def to_i64_def parse_transactions_eq res_simps)
qed

text \<open>C6: against a node and an index that answer, the walk returns the greatest height at which the
  two agree on the block, with its hash, and gives up exactly when they agree nowhere.\<close>

theorem find_common_ancestor_greatest:
  assumes "answers ckb idx s" and "s \<le> i64_MAX"
  shows "(\<forall>a. find_common_ancestor ckb idx s = Inr a \<longleftrightarrow>
      0 \<le> an_block_number a \<and> an_block_number a \<le> s \<and> agrees_at ckb idx (an_block_number a)
      \<and> idx (an_block_number a) = Inr (Some (an_node_hash a))
      \<and> (\<forall>h. an_block_number a < h \<and> h \<le> s \<longrightarrow> \<not> agrees_at ckb idx h))
    \<and> (find_common_ancestor ckb idx s = Inl NoCommonAncestor \<longleftrightarrow>
      (\<forall>h. 0 \<le> h \<and> h \<le> s \<longrightarrow> \<not> agrees_at ckb idx h))"
proof (intro conjI allI iffI)
  fix a assume "find_common_ancestor ckb idx s = Inr a"
  from find_common_ancestor_Inr [OF this assms(2)]
  show "0 \<le> an_block_number a" "an_block_number a \<le> s" "agrees_at ckb idx (an_block_number a)"
    "idx (an_block_number a) = Inr (Some (an_node_hash a))"
    "\<And>h. an_block_number a < h \<and> h \<le> s \<longrightarrow> \<not> agrees_at ckb idx h" by auto
next
  fix a :: Ancestor
  let ?n = "an_block_number a"
  assume a: "0 \<le> ?n \<and> ?n \<le> s \<and> agrees_at ckb idx ?n \<and> idx ?n = Inr (Some (an_node_hash a))
      \<and> (\<forall>h. ?n < h \<and> h \<le> s \<longrightarrow> \<not> agrees_at ckb idx h)"
  obtain a' where a': "find_common_ancestor ckb idx s = Inr a'" "?n \<le> an_block_number a'"
    using find_common_ancestor_finds [of s ckb idx ?n] assms a by (auto simp: answers_def)
  from find_common_ancestor_Inr [OF a'(1) assms(2)] a a'(2) have "an_block_number a' = ?n \<and> an_node_hash a' = an_node_hash a"
    by (metis Inr_inject option.inject order_le_less)
  with a'(1) show "find_common_ancestor ckb idx s = Inr a" by (simp add: Ancestor.equality)
next
  fix h assume "find_common_ancestor ckb idx s = Inl NoCommonAncestor"
  then show "0 \<le> h \<and> h \<le> s \<longrightarrow> \<not> agrees_at ckb idx h"
    using find_common_ancestor_finds [of s ckb idx h] assms by (auto simp: answers_def)
next
  assume none: "\<forall>h. 0 \<le> h \<and> h \<le> s \<longrightarrow> \<not> agrees_at ckb idx h"
  with find_common_ancestor_total [OF assms] find_common_ancestor_Inr [OF _ assms(2)]
  show "find_common_ancestor ckb idx s = Inl NoCommonAncestor" by blast
qed

theorem find_common_ancestor_greatest_witness:
  "find_common_ancestor (sample_node [genesis, main_one, main_two]) (\<lambda>h. blocks_hash_at False h sample_fork_db) 1
     = Inr \<lparr>an_block_number = 0, an_node_hash = [10]\<rparr>"
proof -
  let ?ckb = "sample_node [genesis, main_one, main_two]" and ?idx = "\<lambda>h. blocks_hash_at False h sample_fork_db"
  have "answers ?ckb ?idx 1" by (auto simp: answers_def sample_node_def blocks_hash_at_def)
  moreover have node: "?ckb 0 = Inr (Some genesis)" "?ckb 1 = Inr (Some main_one)"
    by (simp_all add: sample_node_def)
  moreover have idx: "?idx 0 = Inr (Some [10])" "?idx 1 = Inr (Some [11])"
    by (simp_all add: blocks_hash_at_def sample_fork_db_def indexed_db_def empty_chain_db_def parsed_defs
        mk_block_def BlockRow.defs Block.defs)
  moreover have "\<not> agrees_at ?ckb ?idx h" if "0 < h \<and> h \<le> 1" for h
  proof -
    have "h = 1" using that by simp
    with node idx show ?thesis by (simp add: agrees_at_def sample_views)
  qed
  moreover have "agrees_at ?ckb ?idx 0" using node idx by (simp add: agrees_at_def sample_views)
  ultimately show ?thesis
    using find_common_ancestor_greatest [of ?ckb ?idx 1] by simp
qed

text \<open>The outcome of a rollback counts what it did: on a stored chain whose tip is the suspect
  height, it deletes exactly the blocks above the ancestor, reports their number as its depth (kept
  within 32 bits) and writes one completed audit row with that depth.\<close>

theorem rollback_outcome_counts:
  assumes "chain_ok d" and "db_blocks d \<noteq> []" and "previous_tip = br_number (last (db_blocks d))"
    and "blocks_hash_at False (an_block_number a) d = Inr (Some (an_node_hash a))"
    and "rollback_to pg a previous_tip ih d = (Inr out, d')"
  shows "int (ro_deleted_blocks out) = previous_tip - an_block_number a
    \<and> length (db_blocks d') = length (db_blocks d) - ro_deleted_blocks out
    \<and> ro_depth out = min (int (ro_deleted_blocks out)) i32_MAX
    \<and> db_reorg_log d' = db_reorg_log d @ [reorg_entry pg a previous_tip ih]
    \<and> rl_depth (reorg_entry pg a previous_tip ih) = ro_depth out
    \<and> rl_status (reorg_entry pg a previous_tip ih) = Completed"
proof -
  have rb: "rollback_body pg a previous_tip ih d = Inr (out, d')"
    using assms(5) by (cases "in_transaction (pg_begin pg) (pg_commit pg) (rollback_body pg a previous_tip ih) d")
      (auto simp: rollback_to_def map_err_eq_Inr in_transaction_Inr)
  obtain b where b: "b \<in> set (db_blocks d)" "br_number b = an_block_number a" "br_hash b = an_node_hash a"
    using blocks_hash_at_Some [OF assms(4)] by blast
  have del: "int (ro_deleted_blocks out) = previous_tip - an_block_number a"
    using chain_ok_rolled_back(4) [OF assms(1) rb b assms(3)] .
  have "length (filter (\<lambda>b. br_number b > an_block_number a) (db_blocks d))
      + length (filter (\<lambda>b. \<not> br_number b > an_block_number a) (db_blocks d)) = length (db_blocks d)"
    by (rule sum_length_filter_compl)
  then show ?thesis using del rollback_body_Inr [OF rb]
    by (auto simp: rolled_back_def Let_def reorg_entry_def rollback_depth_def i32_try_from_def)
qed

theorem rollback_outcome_counts_witness:
  "\<exists>out d'. rollback_to sample_pg \<lparr>an_block_number = 0, an_node_hash = [10]\<rparr> 1 [11] sample_fork_db = (Inr out, d')
     \<and> ro_deleted_blocks out = 1 \<and> ro_depth out = 1 \<and> length (db_blocks d') = 1"
proof -
  let ?a = "\<lparr>an_block_number = 0, an_node_hash = [10]\<rparr>"
  obtain r d' where rb: "rollback_to sample_pg ?a 1 [11] sample_fork_db = (r, d')" by fastforce
  moreover have "map_ok ro_log_id (fst (rollback_to sample_pg ?a 1 [11] sample_fork_db)) = Inr 1" by code_simp
  ultimately obtain out where out: "rollback_to sample_pg ?a 1 [11] sample_fork_db = (Inr out, d')"
    by (auto simp: map_ok_eq_Inr)
  moreover have "db_blocks sample_fork_db = [mk_block 50 (pb_block parsed_genesis), mk_block 50 (pb_block parsed_fork_one)]"
    by (simp add: sample_fork_db_def indexed_db_def empty_chain_db_def)
  ultimately show ?thesis
    using rollback_outcome_counts [OF sample_fork_ok _ _ _ out]
    by (simp add: blocks_hash_at_def parsed_defs)
qed

text \<open>While the node cannot be reached the loop retries the same height with delays of 1, 2, 4, 8,
  16 and then 30 seconds, and nothing that is stored, published or counted changes.\<close>

theorem backoff_schedule:
  assumes "\<forall>env\<in>set envs. \<not> pe_cancelled env \<and> (\<exists>e. pe_node env (ls_next_block s) = Inl e)"
    and "ls_backoff s = Backoff_new"
  shows "ls_sleeps_ms (snd (run_loop self envs s)) =
      ls_sleeps_ms s @ map (\<lambda>i. 1000 * int (min (2 ^ i) 30)) [0..<length envs]
    \<and> ls_world (snd (run_loop self envs s)) = ls_world s
    \<and> ls_next_block (snd (run_loop self envs s)) = ls_next_block s"
  using failing_run [of envs s 0 self] assms by (simp add: Backoff_new_def)

theorem backoff_schedule_witness:
  "ls_sleeps_ms (snd (run_loop sample_poller
     (replicate 7 ((sample_env [])\<lparr>pe_node := \<lambda>_. Inl (CkbHttp ''refused'')\<rparr>)) sample_start_state))
   = [1000, 2000, 4000, 8000, 16000, 30000, 30000]"
  using backoff_schedule [of "replicate 7 ((sample_env [])\<lparr>pe_node := \<lambda>_. Inl (CkbHttp ''refused'')\<rparr>)"
      sample_start_state sample_poller]
  by (simp add: sample_env_def sample_start_state_def upt_rec)

end
