(* ===== verification/ApiError.thy ===== *)
theory ApiError
  imports Models Strings
begin

text \<open>
  \<^verbatim>\<open>crates/api/src/error.rs\<close>: the API error type, its conversion into a status and a JSON envelope,
  and what of it a client can see.  The payload of \<open>Internal\<close> is the wrapped error (an
  \<^verbatim>\<open>anyhow\<close> text or a database error), which only reaches the log.
\<close>

datatype internal_cause = Anyhow string | DbCause DbError

datatype ApiError = NotFound string | BadRequest string | InvalidCursor string
  | Unauthorized string | RateLimited u64 | UpstreamUnavailable string | Internal internal_cause

fun ApiError_code :: "ApiError \<Rightarrow> string" where
  "ApiError_code (NotFound _) = ''not_found''"
| "ApiError_code (BadRequest _) = ''bad_request''"
| "ApiError_code (InvalidCursor _) = ''invalid_cursor''"
| "ApiError_code (Unauthorized _) = ''unauthorized''"
| "ApiError_code (RateLimited _) = ''rate_limited''"
| "ApiError_code (UpstreamUnavailable _) = ''upstream_unavailable''"
| "ApiError_code (Internal _) = ''internal''"

fun ApiError_status :: "ApiError \<Rightarrow> nat" where
  "ApiError_status (NotFound _) = 404"
| "ApiError_status (BadRequest _) = 400"
| "ApiError_status (InvalidCursor _) = 400"
| "ApiError_status (Unauthorized _) = 401"
| "ApiError_status (RateLimited _) = 429"
| "ApiError_status (UpstreamUnavailable _) = 503"
| "ApiError_status (Internal _) = 500"

fun public_message :: "ApiError \<Rightarrow> string" where
  "public_message (NotFound msg) = msg"
| "public_message (InvalidCursor msg) = msg"
| "public_message (UpstreamUnavailable msg) = msg"
| "public_message (BadRequest msg) = msg"
| "public_message (Internal _) = ''internal error''"
| "public_message (Unauthorized _) = ''unauthorized''"
| "public_message (RateLimited _) = ''rate limited''"

record ErrorBody =
  eb_code :: string
  eb_message :: string
  eb_details :: "json option"

datatype log_line = ErrorLine internal_cause | UnauthorizedLine string | ClientLine string

text \<open>The envelope together with its status, and the line that is logged.\<close>

definition into_response :: "ApiError \<Rightarrow> nat \<times> ErrorBody" where
  "into_response e =
     (ApiError_status e,
      \<lparr>eb_code = ApiError_code e, eb_message = public_message e, eb_details = None\<rparr>)"

definition response_log :: "ApiError \<Rightarrow> log_line" where
  "response_log e =
     (case e of Internal err \<Rightarrow> ErrorLine err
      | Unauthorized reason \<Rightarrow> UnauthorizedLine reason
      | _ \<Rightarrow> ClientLine (ApiError_code e))"

text \<open>\<^verbatim>\<open>From<DbError>\<close>: every database failure becomes an opaque internal error.\<close>

definition from_db :: "DbError \<Rightarrow> ApiError" where
  "from_db e = Internal (DbCause e)"

text \<open>\<^verbatim>\<open>Display\<close>, as \<^verbatim>\<open>thiserror\<close> derives it.\<close>

fun ApiError_display :: "ApiError \<Rightarrow> string" where
  "ApiError_display (NotFound m) = ''not found: '' @ m"
| "ApiError_display (BadRequest m) = ''bad request: '' @ m"
| "ApiError_display (InvalidCursor m) = ''invalid cursor: '' @ m"
| "ApiError_display (Unauthorized m) = ''unauthorized: '' @ m"
| "ApiError_display (RateLimited s) = ''rate limited: retry after '' @ int_dec s @ ''s''"
| "ApiError_display (UpstreamUnavailable m) = ''upstream unavailable: '' @ m"
| "ApiError_display (Internal _) = ''internal error''"

lemma opaque_responses:
  "into_response (Internal a) = into_response (Internal b)"
  "into_response (Unauthorized r) = into_response (Unauthorized s)"
  by (simp_all add: into_response_def)

lemma from_db_response: "into_response (from_db e) = into_response (Internal (Anyhow []))"
  by (simp add: from_db_def into_response_def)

end
