(* ===== verification/Hex.thy ===== *)
theory Hex
  imports ApiError
begin

text \<open>
  \<^verbatim>\<open>crates/api/src/hex.rs\<close>: byte strings on the wire as \<^verbatim>\<open>0x\<close>-prefixed lowercase hexadecimal.  Encoding
  is the module's own loop; decoding calls \<^verbatim>\<open>hex::decode\<close>, which is an argument here, with its
  documented behaviour (the inverse of the lowercase encoding) as the hypothesis \<open>hex_decodes\<close>.
\<close>

section \<open>Codecs\<close>

text \<open>An encoder and a decoder that undoes it.\<close>

locale codec =
  fixes enc :: "'a \<Rightarrow> 'b" and dec :: "'b \<Rightarrow> 'a option"
  assumes dec_enc: "dec (enc x) = Some x"
begin

lemma enc_inject [simp]: "enc x = enc y \<longleftrightarrow> x = y"
  using dec_enc by (metis option.inject)

lemma enc_inj: "inj enc"
  by (simp add: inj_def)

lemma dec_surj: "\<exists>w. dec w = Some x"
  using dec_enc by blast

end

section \<open>Encoding\<close>

definition nibble_char :: "nat \<Rightarrow> char" where
  "nibble_char d = char_of (if d < 10 then 48 + d else 87 + d)"

text \<open>\<^verbatim>\<open>{byte:02x}\<close>.\<close>

definition byte_hex :: "byte \<Rightarrow> string" where
  "byte_hex b = [nibble_char (unat b div 16), nibble_char (unat b mod 16)]"

definition hex_lower :: "bytes \<Rightarrow> string" where
  "hex_lower bs = concat (map byte_hex bs)"

primrec push_bytes :: "string \<Rightarrow> bytes \<Rightarrow> string" where
  "push_bytes buf [] = buf"
| "push_bytes buf (b # bs) = push_bytes (buf @ byte_hex b) bs"

definition encode_prefixed :: "bytes \<Rightarrow> string" where
  "encode_prefixed bytes = push_bytes ''0x'' bytes"

definition decode_prefixed :: "(string \<Rightarrow> bytes option) \<Rightarrow> string \<Rightarrow> bytes option" where
  "decode_prefixed hex_decode input = Option.bind (strip_prefix ''0x'' input) hex_decode"

definition hex_decodes :: "(string \<Rightarrow> bytes option) \<Rightarrow> bool" where
  "hex_decodes hex_decode \<longleftrightarrow> (\<forall>bs. hex_decode (hex_lower bs) = Some bs)"

section \<open>Fixed-width and variable-width values\<close>

datatype Hex32 = Hex32 bytes

datatype Hex = Hex bytes

fun Hex32_as_bytes :: "Hex32 \<Rightarrow> bytes" where
  "Hex32_as_bytes (Hex32 b) = b"

fun Hex_as_bytes :: "Hex \<Rightarrow> bytes" where
  "Hex_as_bytes (Hex b) = b"

definition try_from_slice :: "bytes \<Rightarrow> ApiError + Hex32" where
  "try_from_slice bs =
     (if length bs = 32 then Inr (Hex32 bs)
      else Inl (Internal (Anyhow (''expected 32-byte hash, got '' @ nat_dec (length bs) @ '' bytes''))))"

definition Hex32_serialize :: "Hex32 \<Rightarrow> string" where
  "Hex32_serialize h = encode_prefixed (Hex32_as_bytes h)"

definition Hex_serialize :: "Hex \<Rightarrow> string" where
  "Hex_serialize h = encode_prefixed (Hex_as_bytes h)"

section \<open>Facts\<close>

lemma push_bytes_eq: "push_bytes buf bs = buf @ hex_lower bs"
  by (induction bs arbitrary: buf) (simp_all add: hex_lower_def)

lemma encode_prefixed_eq: "encode_prefixed bs = ''0x'' @ hex_lower bs"
  unfolding encode_prefixed_def by (rule push_bytes_eq)

lemma length_hex_lower: "length (hex_lower bs) = 2 * length bs"
  by (induction bs) (simp_all add: hex_lower_def byte_hex_def)

lemma hex_lower_digits: "list_all is_ascii_hexdigit (hex_lower bs)"
proof (induction bs)
  case (Cons b bs)
  have "unat b < 256" using unsigned_less [of b, where ?'a = nat] by simp
  moreover have "is_ascii_hexdigit (nibble_char d)" if "d < 16" for d
    using that by (auto simp: is_ascii_hexdigit_def nibble_char_def Let_def)
  ultimately have "list_all is_ascii_hexdigit (byte_hex b)" by (simp add: byte_hex_def)
  then show ?case using Cons by (simp add: hex_lower_def)
qed (simp add: hex_lower_def)

lemma decode_encode_prefixed:
  "hex_decodes dec \<Longrightarrow> decode_prefixed dec (encode_prefixed bs) = Some bs"
  using strip_prefix_append [of "''0x''" "hex_lower bs"]
  by (simp add: decode_prefixed_def encode_prefixed_eq hex_decodes_def del: strip_prefix.simps)

lemma try_from_slice_Inr [res_simps]: "try_from_slice s = Inr h \<longleftrightarrow> length s = 32 \<and> h = Hex32 s"
  by (auto simp: try_from_slice_def)

section \<open>A reference decoder\<close>

text \<open>What \<^verbatim>\<open>hex::decode\<close> documents: an even number of hexadecimal digits of either case.\<close>

definition hexdigit_value :: "char \<Rightarrow> nat option" where
  "hexdigit_value c = (let k = of_char c :: nat in
     if 48 \<le> k \<and> k \<le> 57 then Some (k - 48)
     else if 97 \<le> k \<and> k \<le> 102 then Some (k - 87)
     else if 65 \<le> k \<and> k \<le> 70 then Some (k - 55) else None)"

fun ref_hex_decode :: "string \<Rightarrow> bytes option" where
  "ref_hex_decode [] = Some []"
| "ref_hex_decode [c] = None"
| "ref_hex_decode (c # d # s) =
     Option.bind (hexdigit_value c) (\<lambda>hi. Option.bind (hexdigit_value d) (\<lambda>lo.
       map_option (\<lambda>bs. word_of_nat (16 * hi + lo) # bs) (ref_hex_decode s)))"

lemma hexdigit_nibble: "d < 16 \<Longrightarrow> hexdigit_value (nibble_char d) = Some d"
  by (auto simp: hexdigit_value_def nibble_char_def Let_def)

lemma byte_hex_decode:
  "ref_hex_decode (byte_hex b @ s) = map_option (\<lambda>bs. b # bs) (ref_hex_decode s)"
proof -
  have "unat b < 256" using unsigned_less [of b, where ?'a = nat] by simp
  then have "hexdigit_value (nibble_char (unat b div 16)) = Some (unat b div 16)"
    and "hexdigit_value (nibble_char (unat b mod 16)) = Some (unat b mod 16)"
    by (simp_all add: hexdigit_nibble)
  moreover have "word_of_nat (16 * (unat b div 16) + unat b mod 16) = b"
    unfolding mult_div_mod_eq by simp
  ultimately show ?thesis by (simp add: byte_hex_def del: of_nat_add of_nat_mult)
qed

lemma ref_hex_decodes: "hex_decodes ref_hex_decode"
proof -
  have "ref_hex_decode (hex_lower bs) = Some bs" for bs
    by (induction bs) (simp_all add: hex_lower_def byte_hex_decode)
  then show ?thesis by (simp add: hex_decodes_def)
qed

interpretation prefixed_hex: codec encode_prefixed "decode_prefixed ref_hex_decode"
  by unfold_locales (rule decode_encode_prefixed [OF ref_hex_decodes])

end
