(* ===== verification/Keys.thy ===== *)
theory Keys
  imports Hex
begin

text \<open>
  \<^verbatim>\<open>api/src/keys.rs\<close>: keys of the shape \<^verbatim>\<open>cell_<8 hex>_<32 hex>\<close>.  Random bytes and the salt are
  arguments; \<^verbatim>\<open>hex::encode\<close> and Argon2 are the library \<open>key_lib\<close>, of which \<open>key_lib_ok\<close> states the
  documented behaviour: lowercase encoding, and a hash that parses and verifies its own password.
\<close>

record key_lib =
  kl_hex_encode :: "bytes \<Rightarrow> string"
  kl_hash_password :: "string \<Rightarrow> string \<Rightarrow> string + string"
  kl_phc_parses :: "string \<Rightarrow> bool"
  kl_verify_password :: "string \<Rightarrow> string \<Rightarrow> bool"

definition key_lib_ok :: "key_lib \<Rightarrow> bool" where
  "key_lib_ok lib \<longleftrightarrow> kl_hex_encode lib = hex_lower \<and>
     (\<forall>secret salt phc. kl_hash_password lib secret salt = Inr phc \<longrightarrow>
        kl_phc_parses lib phc \<and> kl_verify_password lib secret phc)"

definition KEY_PREFIX_TAG :: string where "KEY_PREFIX_TAG = ''cell''"
definition PREFIX_HEX_LEN :: nat where "PREFIX_HEX_LEN = 8"
definition SECRET_HEX_LEN :: nat where "SECRET_HEX_LEN = 32"

record IssuedKey =
  ik_prefix :: string
  ik_secret :: string
  ik_secret_hash :: string
  ik_full :: string

datatype KeyError = Hashing string | BadFormat | Mismatch

definition generate :: "key_lib \<Rightarrow> bytes \<Rightarrow> bytes \<Rightarrow> string \<Rightarrow> KeyError + IssuedKey" where
  "generate lib prefix_bytes secret_bytes salt =
     (let prefix_random = kl_hex_encode lib prefix_bytes;
          secret = kl_hex_encode lib secret_bytes;
          prefix = KEY_PREFIX_TAG @ ''_'' @ prefix_random;
          full = prefix @ ''_'' @ secret
      in and_then (map_err Hashing (kl_hash_password lib secret salt)) (\<lambda>phc.
         Inr \<lparr>ik_prefix = prefix, ik_secret = secret, ik_secret_hash = phc, ik_full = full\<rparr>))"

text \<open>\<^verbatim>\<open>str::splitn\<close>: at most \<open>n\<close> pieces, the last one unsplit.\<close>

fun splitn :: "nat \<Rightarrow> char \<Rightarrow> string \<Rightarrow> string list" where
  "splitn 0 c s = []"
| "splitn (Suc 0) c s = [s]"
| "splitn (Suc (Suc n)) c s = (case split_once c s of None \<Rightarrow> [s] | Some (a, b) \<Rightarrow> a # splitn (Suc n) c b)"

definition keys_split :: "string \<Rightarrow> KeyError + (string \<times> string)" where
  "keys_split full = (case splitn 3 (CHR ''_'') full of
     [tag, prefix_random, secret] \<Rightarrow>
       if tag \<noteq> KEY_PREFIX_TAG then Inl BadFormat
       else if length prefix_random \<noteq> PREFIX_HEX_LEN \<or> \<not> list_all is_ascii_hexdigit prefix_random then Inl BadFormat
       else if length secret \<noteq> SECRET_HEX_LEN \<or> \<not> list_all is_ascii_hexdigit secret then Inl BadFormat
       else let prefix_end = length tag + 1 + length prefix_random
            in Inr (take prefix_end full, drop (prefix_end + 1) full)
   | _ \<Rightarrow> Inl BadFormat)"

definition keys_verify :: "key_lib \<Rightarrow> string \<Rightarrow> string \<Rightarrow> KeyError + unit" where
  "keys_verify lib secret phc =
     (if \<not> kl_phc_parses lib phc then Inl Mismatch
      else if kl_verify_password lib secret phc then Inr () else Inl Mismatch)"

section \<open>Facts\<close>

definition key_parts :: "string \<Rightarrow> string \<Rightarrow> bool" where
  "key_parts r s \<longleftrightarrow> length r = 8 \<and> list_all is_ascii_hexdigit r \<and> length s = 32 \<and> list_all is_ascii_hexdigit s"

lemma underscore_not_hex: "list_all is_ascii_hexdigit s \<Longrightarrow> CHR ''_'' \<notin> set s"
  by (auto simp: list_all_iff is_ascii_hexdigit_def)

lemma splitn_three:
  "splitn 3 c s = [a, b, d] \<longleftrightarrow> s = a @ c # b @ c # d \<and> c \<notin> set a \<and> c \<notin> set b"
proof -
  have "splitn 3 c s = [a, b, d] \<longleftrightarrow> (\<exists>s'. split_once c s = Some (a, s') \<and> split_once c s' = Some (b, d))"
    by (auto simp: numeral_3_eq_3 split: option.splits)
  then show ?thesis unfolding split_once_Some by auto
qed

lemma keys_split_iff:
  "keys_split full = Inr (prefix, secret) \<longleftrightarrow>
     (\<exists>r. prefix = ''cell_'' @ r \<and> full = prefix @ ''_'' @ secret \<and> key_parts r secret)"
proof -
  have "keys_split (''cell'' @ CHR ''_'' # r @ CHR ''_'' # s) = Inr (''cell_'' @ r, s)" if "key_parts r s" for r s
  proof -
    have "splitn 3 (CHR ''_'') (''cell'' @ CHR ''_'' # r @ CHR ''_'' # s) = [''cell'', r, s]"
      using that underscore_not_hex unfolding splitn_three key_parts_def by auto
    then show ?thesis using that
      by (simp add: keys_split_def KEY_PREFIX_TAG_def PREFIX_HEX_LEN_def SECRET_HEX_LEN_def key_parts_def)
  qed
  note parse = this
  show ?thesis
  proof
    assume ok: "keys_split full = Inr (prefix, secret)"
    then obtain r s where parts: "splitn 3 (CHR ''_'') full = [''cell'', r, s]" "key_parts r s"
      by (auto simp: keys_split_def KEY_PREFIX_TAG_def PREFIX_HEX_LEN_def SECRET_HEX_LEN_def key_parts_def
          split: list.splits if_splits)
    then have "full = ''cell'' @ CHR ''_'' # r @ CHR ''_'' # s" unfolding splitn_three by simp
    then show "\<exists>r. prefix = ''cell_'' @ r \<and> full = prefix @ ''_'' @ secret \<and> key_parts r secret"
      using ok parse [OF parts(2)] parts(2) by auto
  qed (use parse in auto)
qed

lemma generated_key:
  assumes "key_lib_ok lib" "length pb = 4" "length sb = 16" "generate lib pb sb salt = Inr k"
  shows "keys_split (ik_full k) = Inr (ik_prefix k, ik_secret k)"
    and "keys_verify lib (ik_secret k) (ik_secret_hash k) = Inr ()"
proof -
  have k: "ik_prefix k = ''cell_'' @ hex_lower pb" "ik_secret k = hex_lower sb"
    "ik_full k = ik_prefix k @ ''_'' @ ik_secret k" "kl_hash_password lib (hex_lower sb) salt = Inr (ik_secret_hash k)"
    using assms(1,4) by (auto simp: generate_def key_lib_ok_def KEY_PREFIX_TAG_def Let_def res_simps)
  show "keys_split (ik_full k) = Inr (ik_prefix k, ik_secret k)"
    unfolding keys_split_iff k(3) using assms(2,3)
    by (auto simp: k(1,2) key_parts_def length_hex_lower hex_lower_digits)
  show "keys_verify lib (ik_secret k) (ik_secret_hash k) = Inr ()"
    using assms(1) k(2,4) by (simp add: keys_verify_def key_lib_ok_def)
qed

section \<open>A reference library\<close>

text \<open>A toy password hash that satisfies the documented contract.\<close>

definition ref_key_lib :: key_lib where
  "ref_key_lib = \<lparr>kl_hex_encode = hex_lower, kl_hash_password = (\<lambda>secret salt. Inr (''$'' @ secret)),
     kl_phc_parses = (\<lambda>phc. take 1 phc = ''$''), kl_verify_password = (\<lambda>secret phc. phc = ''$'' @ secret)\<rparr>"

lemma ref_key_lib_ok: "key_lib_ok ref_key_lib"
  by (simp add: key_lib_ok_def ref_key_lib_def)

end
