(* ===== verification/AccountDb.thy ===== *)
theory AccountDb
  imports Prelude Models
begin

text \<open>
  The account tables and their repositories: \<^verbatim>\<open>db/src/users.rs\<close>, \<^verbatim>\<open>db/src/sessions.rs\<close>,
  \<^verbatim>\<open>db/src/api_keys.rs\<close>, and the \<^verbatim>\<open>webhooks\<close> statements the API issues itself.  Generated
  identifiers and the clock are arguments, as is the failure of a statement.  \<open>account_ok\<close> is
  the schema: primary keys, unique indexes and foreign keys.
\<close>

named_theorems account_defs \<open>definitions of the account repositories\<close>

record WebhookRow =
  wh_id :: uuid
  wh_user_id :: uuid
  wh_url :: string
  wh_events :: "string list"
  wh_secret :: "string option"
  wh_created_at :: timestamp

record account_db =
  ac_users :: "User list"
  ac_sessions :: "Session list"
  ac_keys :: "ApiKey list"
  ac_webhooks :: "WebhookRow list"

definition user_ids :: "account_db \<Rightarrow> uuid set" where
  "user_ids a = us_id ` set (ac_users a)"

definition account_ok :: "account_db \<Rightarrow> bool" where
  "account_ok a \<longleftrightarrow>
     distinct (map us_id (ac_users a)) \<and> distinct (map us_github_user_id (ac_users a)) \<and>
     distinct (map se_token_hash (ac_sessions a)) \<and>
     distinct (map ak_id (ac_keys a)) \<and> distinct (map ak_prefix (ac_keys a)) \<and>
     distinct (map wh_id (ac_webhooks a)) \<and>
     list_all (\<lambda>s. se_user_id s \<in> user_ids a) (ac_sessions a) \<and> list_all (\<lambda>k. ak_user_id k \<in> user_ids a) (ac_keys a) \<and>
     list_all (\<lambda>w. wh_user_id w \<in> user_ids a) (ac_webhooks a)"

section \<open>users.rs\<close>

definition upsert_from_github ::
    "bool \<Rightarrow> timestamp \<Rightarrow> uuid \<Rightarrow> i64 \<Rightarrow> string \<Rightarrow> string option \<Rightarrow> string option \<Rightarrow> account_db
      \<Rightarrow> DbError + (User \<times> account_db)" where
  [account_defs]: "upsert_from_github fault now fresh github_user_id github_login email avatar_url a =
     (if fault then Inl (Sqlx Driver)
      else case find (\<lambda>u. us_github_user_id u = github_user_id) (ac_users a) of
        Some u \<Rightarrow>
          (let u' = u\<lparr>us_github_login := github_login, us_email := email, us_avatar_url := avatar_url,
                      us_updated_at := now\<rparr>
           in Inr (u', a\<lparr>ac_users := map (\<lambda>x. if us_github_user_id x = github_user_id then u' else x) (ac_users a)\<rparr>))
      | None \<Rightarrow>
          if fresh \<in> user_ids a then Inl (Sqlx (UniqueViolation ''users_pkey''))
          else let u = \<lparr>us_id = fresh, us_github_user_id = github_user_id, us_github_login = github_login,
                        us_email = email, us_avatar_url = avatar_url, us_created_at = now, us_updated_at = now\<rparr>
               in Inr (u, a\<lparr>ac_users := ac_users a @ [u]\<rparr>))"

definition users_find_by_id :: "bool \<Rightarrow> uuid \<Rightarrow> account_db \<Rightarrow> DbError + User option" where
  [account_defs]: "users_find_by_id fault uid a =
     (if fault then Inl (Sqlx Driver) else Inr (find (\<lambda>u. us_id u = uid) (ac_users a)))"

definition find_by_github_login :: "bool \<Rightarrow> string \<Rightarrow> account_db \<Rightarrow> DbError + User option" where
  [account_defs]: "find_by_github_login fault login a =
     (if fault then Inl (Sqlx Driver) else Inr (find (\<lambda>u. us_github_login u = login) (ac_users a)))"

section \<open>sessions.rs\<close>

definition sessions_insert ::
    "bool \<Rightarrow> timestamp \<Rightarrow> string \<Rightarrow> uuid \<Rightarrow> timestamp \<Rightarrow> string option \<Rightarrow> account_db
      \<Rightarrow> DbError + (Session \<times> account_db)" where
  [account_defs]: "sessions_insert fault now token_hash user_id expires_at user_agent a =
     (if fault then Inl (Sqlx Driver)
      else if token_hash \<in> se_token_hash ` set (ac_sessions a)
      then Inl (Sqlx (UniqueViolation ''sessions_pkey''))
      else if user_id \<notin> user_ids a
      then Inl (Sqlx (ForeignKeyViolation ''sessions_user_id_fkey''))
      else let s = \<lparr>se_token_hash = token_hash, se_user_id = user_id, se_created_at = now,
                    se_expires_at = expires_at, se_last_seen_at = now, se_user_agent = user_agent\<rparr>
           in Inr (s, a\<lparr>ac_sessions := ac_sessions a @ [s]\<rparr>))"

definition sessions_find_active :: "bool \<Rightarrow> timestamp \<Rightarrow> string \<Rightarrow> account_db \<Rightarrow> DbError + Session option" where
  [account_defs]: "sessions_find_active fault now token_hash a =
     (if fault then Inl (Sqlx Driver)
      else Inr (find (\<lambda>s. se_token_hash s = token_hash \<and> se_expires_at s > now) (ac_sessions a)))"

definition touch_last_seen :: "bool \<Rightarrow> timestamp \<Rightarrow> string \<Rightarrow> account_db \<Rightarrow> DbError + account_db" where
  [account_defs]: "touch_last_seen fault now token_hash a =
     (if fault then Inl (Sqlx Driver)
      else Inr (a\<lparr>ac_sessions := map (\<lambda>s. if se_token_hash s = token_hash then s\<lparr>se_last_seen_at := now\<rparr> else s)
                                   (ac_sessions a)\<rparr>))"

definition sessions_delete :: "bool \<Rightarrow> string \<Rightarrow> account_db \<Rightarrow> DbError + (bool \<times> account_db)" where
  [account_defs]: "sessions_delete fault token_hash a =
     (if fault then Inl (Sqlx Driver)
      else Inr (token_hash \<in> se_token_hash ` set (ac_sessions a),
                a\<lparr>ac_sessions := filter (\<lambda>s. se_token_hash s \<noteq> token_hash) (ac_sessions a)\<rparr>))"

definition sessions_delete_expired :: "bool \<Rightarrow> timestamp \<Rightarrow> account_db \<Rightarrow> DbError + (nat \<times> account_db)" where
  [account_defs]: "sessions_delete_expired fault now a =
     (if fault then Inl (Sqlx Driver)
      else Inr (length (filter (\<lambda>s. se_expires_at s \<le> now) (ac_sessions a)),
                a\<lparr>ac_sessions := filter (\<lambda>s. \<not> se_expires_at s \<le> now) (ac_sessions a)\<rparr>))"

section \<open>api\_keys.rs\<close>

definition api_keys_insert ::
    "bool \<Rightarrow> timestamp \<Rightarrow> uuid \<Rightarrow> uuid \<Rightarrow> string \<Rightarrow> string \<Rightarrow> ApiKeyTier \<Rightarrow> string option \<Rightarrow> account_db
      \<Rightarrow> DbError + (ApiKey \<times> account_db)" where
  [account_defs]: "api_keys_insert fault now fresh user_id prefix secret_hash tier label a =
     (if fault then Inl (Sqlx Driver)
      else if fresh \<in> ak_id ` set (ac_keys a) then Inl (Sqlx (UniqueViolation ''api_keys_pkey''))
      else if prefix \<in> ak_prefix ` set (ac_keys a) then Inl (Sqlx (UniqueViolation ''api_keys_prefix_uidx''))
      else if user_id \<notin> user_ids a then Inl (Sqlx (ForeignKeyViolation ''api_keys_user_id_fkey''))
      else let k = \<lparr>ak_id = fresh, ak_user_id = user_id, ak_prefix = prefix, ak_secret_hash = secret_hash,
                    ak_tier = tier, ak_label = label, ak_created_at = now, ak_revoked_at = None,
                    ak_last_used_at = None\<rparr>
           in Inr (k, a\<lparr>ac_keys := ac_keys a @ [k]\<rparr>))"

definition find_active_by_prefix :: "bool \<Rightarrow> string \<Rightarrow> account_db \<Rightarrow> DbError + ApiKey option" where
  [account_defs]: "find_active_by_prefix fault prefix a =
     (if fault then Inl (Sqlx Driver)
      else Inr (find (\<lambda>k. ak_prefix k = prefix \<and> ak_revoked_at k = None) (ac_keys a)))"

definition list_all_keys :: "bool \<Rightarrow> account_db \<Rightarrow> DbError + ApiKey list" where
  [account_defs]: "list_all_keys fault a =
     (if fault then Inl (Sqlx Driver) else Inr (sort_key (\<lambda>k. - ak_created_at k) (ac_keys a)))"

text \<open>\<^verbatim>\<open>UPDATE api_keys SET ... WHERE ...\<close>: every matching row is changed.\<close>

definition update_keys :: "(ApiKey \<Rightarrow> bool) \<Rightarrow> (ApiKey \<Rightarrow> ApiKey) \<Rightarrow> account_db \<Rightarrow> account_db" where
  "update_keys P f a = a\<lparr>ac_keys := map (\<lambda>k. if P k then f k else k) (ac_keys a)\<rparr>"

definition revoke :: "bool \<Rightarrow> timestamp \<Rightarrow> string \<Rightarrow> account_db \<Rightarrow> DbError + (bool \<times> account_db)" where
  [account_defs]: "revoke fault now prefix a =
     (let P = (\<lambda>k. ak_prefix k = prefix \<and> ak_revoked_at k = None) in
      if fault then Inl (Sqlx Driver)
      else Inr (list_ex P (ac_keys a), update_keys P (\<lambda>k. k\<lparr>ak_revoked_at := Some now\<rparr>) a))"

definition touch_last_used :: "bool \<Rightarrow> timestamp \<Rightarrow> string \<Rightarrow> account_db \<Rightarrow> DbError + account_db" where
  [account_defs]: "touch_last_used fault now prefix a =
     (if fault then Inl (Sqlx Driver)
      else Inr (update_keys (\<lambda>k. ak_prefix k = prefix) (\<lambda>k. k\<lparr>ak_last_used_at := Some now\<rparr>) a))"

definition list_for_user :: "bool \<Rightarrow> uuid \<Rightarrow> account_db \<Rightarrow> DbError + ApiKey list" where
  [account_defs]: "list_for_user fault user_id a =
     (if fault then Inl (Sqlx Driver)
      else Inr (sort_key (\<lambda>k. - ak_created_at k) (filter (\<lambda>k. ak_user_id k = user_id) (ac_keys a))))"

definition find_for_user :: "bool \<Rightarrow> uuid \<Rightarrow> uuid \<Rightarrow> account_db \<Rightarrow> DbError + ApiKey option" where
  [account_defs]: "find_for_user fault kid user_id a =
     (if fault then Inl (Sqlx Driver)
      else Inr (find (\<lambda>k. ak_id k = kid \<and> ak_user_id k = user_id) (ac_keys a)))"

definition rotate_for_user ::
    "bool \<Rightarrow> uuid \<Rightarrow> uuid \<Rightarrow> string \<Rightarrow> string \<Rightarrow> account_db \<Rightarrow> DbError + (ApiKey option \<times> account_db)" where
  [account_defs]: "rotate_for_user fault kid user_id new_prefix new_secret_hash a =
     (let P = (\<lambda>k. ak_id k = kid \<and> ak_user_id k = user_id \<and> ak_revoked_at k = None);
          f = (\<lambda>k. k\<lparr>ak_prefix := new_prefix, ak_secret_hash := new_secret_hash, ak_last_used_at := None\<rparr>) in
      if fault then Inl (Sqlx Driver)
      else case find P (ac_keys a) of
        None \<Rightarrow> Inr (None, a)
      | Some k \<Rightarrow>
          if list_ex (\<lambda>x. ak_prefix x = new_prefix \<and> ak_id x \<noteq> kid) (ac_keys a)
          then Inl (Sqlx (UniqueViolation ''api_keys_prefix_uidx''))
          else Inr (Some (f k), update_keys P f a))"

definition revoke_for_user :: "bool \<Rightarrow> timestamp \<Rightarrow> uuid \<Rightarrow> uuid \<Rightarrow> account_db \<Rightarrow> DbError + (bool \<times> account_db)" where
  [account_defs]: "revoke_for_user fault now kid user_id a =
     (let P = (\<lambda>k. ak_id k = kid \<and> ak_user_id k = user_id \<and> ak_revoked_at k = None) in
      if fault then Inl (Sqlx Driver)
      else Inr (list_ex P (ac_keys a), update_keys P (\<lambda>k. k\<lparr>ak_revoked_at := Some now\<rparr>) a))"

section \<open>The webhooks table\<close>

definition webhooks_select :: "bool \<Rightarrow> uuid \<Rightarrow> account_db \<Rightarrow> DbError + WebhookRow list" where
  [account_defs]: "webhooks_select fault user_id a =
     (if fault then Inl (Sqlx Driver)
      else Inr (sort_key (\<lambda>w. - wh_created_at w) (filter (\<lambda>w. wh_user_id w = user_id) (ac_webhooks a))))"

definition webhooks_insert ::
    "bool \<Rightarrow> timestamp \<Rightarrow> uuid \<Rightarrow> uuid \<Rightarrow> string \<Rightarrow> string list \<Rightarrow> string option \<Rightarrow> account_db
      \<Rightarrow> DbError + (WebhookRow \<times> account_db)" where
  [account_defs]: "webhooks_insert fault now fresh user_id url events secret a =
     (if fault then Inl (Sqlx Driver)
      else if fresh \<in> wh_id ` set (ac_webhooks a) then Inl (Sqlx (UniqueViolation ''webhooks_pkey''))
      else if user_id \<notin> user_ids a then Inl (Sqlx (ForeignKeyViolation ''webhooks_user_id_fkey''))
      else let w = \<lparr>wh_id = fresh, wh_user_id = user_id, wh_url = url, wh_events = events, wh_secret = secret,
                    wh_created_at = now\<rparr>
           in Inr (w, a\<lparr>ac_webhooks := ac_webhooks a @ [w]\<rparr>))"

definition webhooks_delete :: "bool \<Rightarrow> uuid \<Rightarrow> uuid \<Rightarrow> account_db \<Rightarrow> DbError + (nat \<times> account_db)" where
  [account_defs]: "webhooks_delete fault wid user_id a =
     (let P = (\<lambda>w. wh_id w = wid \<and> wh_user_id w = user_id) in
      if fault then Inl (Sqlx Driver)
      else Inr (length (filter P (ac_webhooks a)), a\<lparr>ac_webhooks := filter (\<lambda>w. \<not> P w) (ac_webhooks a)\<rparr>))"

definition load_webhooks :: "bool \<Rightarrow> string \<Rightarrow> account_db \<Rightarrow> DbError + WebhookRow list" where
  [account_defs]: "load_webhooks fault event_type a =
     (if fault then Inl (Sqlx Driver) else Inr (filter (\<lambda>w. event_type \<in> set (wh_events w)) (ac_webhooks a)))"

section \<open>Every statement keeps the schema\<close>

lemma user_ids_simps [simp]:
  "user_ids (a\<lparr>ac_sessions := xs\<rparr>) = user_ids a" "user_ids (a\<lparr>ac_keys := ks\<rparr>) = user_ids a"
  "user_ids (a\<lparr>ac_webhooks := ws\<rparr>) = user_ids a" "user_ids (update_keys P f a) = user_ids a"
  by (simp_all add: user_ids_def update_keys_def)

lemma account_ok_users:
  assumes "account_ok a" "distinct (map us_id us)" "distinct (map us_github_user_id us)" "user_ids a \<subseteq> us_id ` set us"
  shows "account_ok (a\<lparr>ac_users := us\<rparr>)"
  using assms unfolding account_ok_def by (auto simp: user_ids_def list_all_iff)

lemma account_ok_keys:
  assumes "account_ok a" "distinct (map ak_id ks)" "distinct (map ak_prefix ks)" "list_all (\<lambda>k. ak_user_id k \<in> user_ids a) ks"
  shows "account_ok (a\<lparr>ac_keys := ks\<rparr>)"
  using assms unfolding account_ok_def by simp

lemma find_github_user:
  assumes "distinct (map us_github_user_id us)" "find (\<lambda>u. us_github_user_id u = g) us = Some u"
  shows "map (\<lambda>x. if us_github_user_id x = g then u' else x) us = map (\<lambda>x. if x = u then u' else x) us"
proof -
  have u: "u \<in> set us" "us_github_user_id u = g" using assms(2) by (auto simp: find_Some_iff)
  have "us_github_user_id x = g \<longleftrightarrow> x = u" if "x \<in> set us" for x
    using assms(1) u that by (auto simp: distinct_map inj_on_def)
  then show ?thesis by simp
qed

lemma upsert_ok:
  assumes "account_ok a" "upsert_from_github fault now fresh g login email avatar a = Inr (u, a')"
  shows "account_ok a'"
proof (cases "find (\<lambda>u. us_github_user_id u = g) (ac_users a)")
  case None
  then have "g \<notin> us_github_user_id ` set (ac_users a)" by (auto simp: find_None_iff)
  moreover have "distinct (map us_id (ac_users a))" "distinct (map us_github_user_id (ac_users a))"
    using assms(1) by (simp_all add: account_ok_def)
  ultimately show ?thesis using assms(2) None
    by (auto simp: upsert_from_github_def user_ids_def Let_def intro!: account_ok_users [OF assms(1)] split: if_splits)
next
  case (Some u0)
  let ?f = "\<lambda>x. if x = u0 then u0\<lparr>us_github_login := login, us_email := email, us_avatar_url := avatar,
      us_updated_at := now\<rparr> else x"
  have "distinct (map us_github_user_id (ac_users a))" using assms(1) by (simp add: account_ok_def)
  then have a': "a' = a\<lparr>ac_users := map ?f (ac_users a)\<rparr>" "\<not> fault"
    using assms(2) Some find_github_user [OF _ Some]
    by (auto simp: upsert_from_github_def Let_def split: if_splits)
  have maps: "map us_id (map ?f us) = map us_id us" "map us_github_user_id (map ?f us) = map us_github_user_id us" for us
    by simp_all
  have "us_id ` set (map ?f (ac_users a)) = user_ids a" unfolding user_ids_def by (metis maps(1) set_map)
  then show ?thesis using assms(1) unfolding a'
    by (intro account_ok_users) (simp_all only: maps order_refl, simp_all add: account_ok_def)
qed

lemma session_statements_ok:
  assumes "account_ok a"
  shows "sessions_insert fault now th uid exp ua a = Inr (s, a') \<Longrightarrow> account_ok a'"
    and "touch_last_seen fault now th a = Inr a' \<Longrightarrow> account_ok a'"
    and "sessions_delete fault th a = Inr (b, a') \<Longrightarrow> account_ok a'"
    and "sessions_delete_expired fault now a = Inr (n, a') \<Longrightarrow> account_ok a'"
  using assms
  by (auto simp: account_defs account_ok_def Let_def comp_def if_distrib [of se_token_hash] distinct_map_filter list_all_iff
      cong: if_cong split: if_splits)

lemma update_keys_columns:
  assumes "\<And>k. ak_id (f k) = ak_id k" "\<And>k. ak_user_id (f k) = ak_user_id k"
  shows "map ak_id (ac_keys (update_keys P f a)) = map ak_id (ac_keys a)"
    and "list_all (\<lambda>k. ak_user_id k \<in> U) (ac_keys (update_keys P f a)) = list_all (\<lambda>k. ak_user_id k \<in> U) (ac_keys a)"
  by (simp_all add: update_keys_def list.pred_map comp_def if_distrib [of ak_user_id] assms)

lemma update_keys_ok:
  assumes "account_ok a" "\<And>k. ak_id (f k) = ak_id k" "\<And>k. ak_user_id (f k) = ak_user_id k"
    and "distinct (map ak_prefix (ac_keys (update_keys P f a)))"
  shows "account_ok (update_keys P f a)"
proof -
  have "account_ok (a\<lparr>ac_keys := ac_keys (update_keys P f a)\<rparr>)"
    using assms(1,4) update_keys_columns [of f, OF assms(2,3)]
    by (intro account_ok_keys) (simp_all add: account_ok_def)
  then show ?thesis by (simp add: update_keys_def)
qed

lemma update_keys_same_prefix:
  assumes "account_ok a" "\<And>k. ak_id (f k) = ak_id k" "\<And>k. ak_user_id (f k) = ak_user_id k" "\<And>k. ak_prefix (f k) = ak_prefix k"
  shows "account_ok (update_keys P f a)"
proof (rule update_keys_ok [OF assms(1-3)])
  have "map ak_prefix (ac_keys (update_keys P f a)) = map ak_prefix (ac_keys a)" by (simp add: update_keys_def assms(4))
  then show "distinct (map ak_prefix (ac_keys (update_keys P f a)))" using assms(1) by (simp only: account_ok_def)
qed

lemma rotate_prefixes:
  assumes "distinct (map ak_id ks)" "distinct (map ak_prefix ks)"
    and "\<not> list_ex (\<lambda>x. ak_prefix x = p \<and> ak_id x \<noteq> kid) ks"
    and "\<And>k. ak_prefix (f k) = p" "\<And>k. P k \<Longrightarrow> ak_id k = kid"
  shows "distinct (map ak_prefix (map (\<lambda>k. if P k then f k else k) ks))"
proof -
  let ?g = "\<lambda>k. ak_prefix (if P k then f k else k)"
  have ids: "x = y" if "x \<in> set ks" "y \<in> set ks" "ak_id x = ak_id y" for x y
    using assms(1) that by (auto simp: distinct_map inj_on_def)
  have prefixes: "x = y" if "x \<in> set ks" "y \<in> set ks" "ak_prefix x = ak_prefix y" for x y
    using assms(2) that by (auto simp: distinct_map inj_on_def)
  have free: "ak_id x = kid" if "x \<in> set ks" "ak_prefix x = p" for x
    using assms(3) that by (auto simp: list_ex_iff)
  have "x = y" if "x \<in> set ks" "y \<in> set ks" "?g x = ?g y" for x y
    using that ids [of x y] prefixes [of x y] free [of x] free [of y] assms(5) [of x] assms(5) [of y]
    by (cases "P x"; cases "P y") (simp_all add: assms(4))
  then have "inj_on ?g (set ks)" by (rule inj_onI)
  moreover have "distinct ks" using assms(1) by (simp add: distinct_map)
  ultimately show ?thesis by (simp add: distinct_map comp_def)
qed

lemma rotate_ok:
  assumes "account_ok a" "rotate_for_user fault kid uid p h a = Inr (r, a')"
  shows "account_ok a'"
proof -
  let ?P = "\<lambda>k. ak_id k = kid \<and> ak_user_id k = uid \<and> ak_revoked_at k = None"
  let ?f = "\<lambda>k. k\<lparr>ak_prefix := p, ak_secret_hash := h, ak_last_used_at := None\<rparr>"
  consider "a' = a"
    | "a' = update_keys ?P ?f a" "\<not> list_ex (\<lambda>x. ak_prefix x = p \<and> ak_id x \<noteq> kid) (ac_keys a)"
    using assms(2) by (auto simp: rotate_for_user_def Let_def split: if_splits option.splits)
  then show ?thesis
  proof cases
    case 2
    have "distinct (map ak_prefix (map (\<lambda>k. if ?P k then ?f k else k) (ac_keys a)))"
      using assms(1) 2(2) by (intro rotate_prefixes) (auto simp: account_ok_def)
    then show ?thesis unfolding 2(1) by (intro update_keys_ok [OF assms(1)]) (simp_all add: update_keys_def)
  qed (use assms(1) in simp)
qed

lemma key_statements_ok:
  assumes "account_ok a"
  shows "api_keys_insert fault now fresh uid p h tier label a = Inr (k, a') \<Longrightarrow> account_ok a'"
    and "revoke fault now p a = Inr (b, a') \<Longrightarrow> account_ok a'"
    and "touch_last_used fault now p a = Inr a' \<Longrightarrow> account_ok a'"
    and "revoke_for_user fault now kid uid a = Inr (b, a') \<Longrightarrow> account_ok a'"
  using assms
  by (auto simp: api_keys_insert_def revoke_def touch_last_used_def revoke_for_user_def Let_def intro!: update_keys_same_prefix account_ok_keys split: if_splits)
    (auto simp: account_ok_def)

lemma webhook_statements_ok:
  assumes "account_ok a"
  shows "webhooks_insert fault now fresh uid url evs sec a = Inr (w, a') \<Longrightarrow> account_ok a'"
    and "webhooks_delete fault wid uid a = Inr (n, a') \<Longrightarrow> account_ok a'"
  using assms by (auto simp: account_defs account_ok_def Let_def distinct_map_filter list_all_iff split: if_splits)

lemmas account_statements_ok =
  upsert_ok session_statements_ok rotate_ok key_statements_ok webhook_statements_ok

end
