(* ===== verification/Auth.thy ===== *)
theory Auth
  imports Keys AccountDb
begin

text \<open>
  \<^verbatim>\<open>api/src/auth.rs\<close>: bearer authentication with a verification cache.  The cache is a map from
  bearer strings to resolved keys with their insertion time; an entry answers until its time to
  live has passed, and the cache library may drop entries at any moment.  The update of
  \<^verbatim>\<open>last_used_at\<close> is a spawned task: it is queued and runs later or fails.
\<close>

section \<open>Requests and responses\<close>

record AuthenticatedKey =
  au_id :: uuid
  au_prefix :: string
  au_tier :: ApiKeyTier

record AuthenticatedSession =
  as_session :: Session
  as_user :: User

text \<open>
  Headers are pairs of a lower-case name and a value; \<open>rq_key\<close> and \<open>rq_session\<close> are the request
  extensions the middleware fills.
\<close>

record http_request =
  rq_method :: string
  rq_path :: string
  rq_headers :: "(string \<times> string) list"
  rq_key :: "AuthenticatedKey option"
  rq_session :: "AuthenticatedSession option"

datatype 'b body = ErrorJson ErrorBody | Payload 'b | NoBody

record 'b http_response =
  rs_status :: nat
  rs_headers :: "(string \<times> string) list"
  rs_body :: "'b body"
  rs_key :: "AuthenticatedKey option"

definition error_response :: "ApiError \<Rightarrow> 'b http_response" where
  "error_response err = (case into_response err of (status, body) \<Rightarrow>
     \<lparr>rs_status = status, rs_headers = [], rs_body = ErrorJson body, rs_key = None\<rparr>)"

definition header_get :: "string \<Rightarrow> http_request \<Rightarrow> string option" where
  "header_get name rq = map_of (rq_headers rq) name"

text \<open>\<^verbatim>\<open>HeaderMap::insert\<close> replaces the values of a name.\<close>

definition header_insert :: "string \<Rightarrow> string \<Rightarrow> 'b http_response \<Rightarrow> 'b http_response" where
  "header_insert name v rs = rs\<lparr>rs_headers := filter (\<lambda>(n, _). n \<noteq> name) (rs_headers rs) @ [(name, v)]\<rparr>"

text \<open>\<^verbatim>\<open>HeaderValue::to_str\<close> succeeds on visible ASCII and tabs.\<close>

definition to_str :: "string \<Rightarrow> string option" where
  "to_str v = (if list_all (\<lambda>c. let k = of_char c :: nat in (32 \<le> k \<and> k < 127) \<or> k = 9) v then Some v else None)"

section \<open>The cache\<close>

type_synonym auth_cache = "string \<rightharpoonup> AuthenticatedKey \<times> int"

definition cache_get :: "int \<Rightarrow> int \<Rightarrow> string \<Rightarrow> auth_cache \<Rightarrow> AuthenticatedKey option" where
  "cache_get ttl now key c = (case c key of
     None \<Rightarrow> None
   | Some (v, inserted) \<Rightarrow> if now - inserted < ttl then Some v else None)"

definition cache_insert :: "int \<Rightarrow> string \<Rightarrow> AuthenticatedKey \<Rightarrow> auth_cache \<Rightarrow> auth_cache" where
  "cache_insert now key v c = c(key \<mapsto> (v, now))"

section \<open>Resolution\<close>

record auth_world =
  aw_cache :: auth_cache
  aw_accounts :: account_db
  aw_pending :: "string list"

record auth_env =
  ae_now :: int
  ae_ttl :: int
  ae_fault :: bool

definition extract_bearer :: "http_request \<Rightarrow> ApiError + string" where
  "extract_bearer rq =
     and_then (ok_or (header_get ''authorization'' rq) (Unauthorized ''missing header'')) (\<lambda>header_value.
     and_then (ok_or (to_str header_value) (Unauthorized ''non-ascii header'')) (\<lambda>raw.
     and_then (ok_or (strip_prefix ''Bearer '' raw) (Unauthorized ''not bearer'')) (\<lambda>bearer.
     if bearer = [] then Inl (Unauthorized ''empty token'') else Inr bearer)))"

definition auth_resolve ::
    "key_lib \<Rightarrow> auth_env \<Rightarrow> string \<Rightarrow> 'a auth_world_scheme \<Rightarrow> (ApiError + AuthenticatedKey) \<times> 'a auth_world_scheme" where
  "auth_resolve lib env bearer w =
     (case cache_get (ae_ttl env) (ae_now env) bearer (aw_cache w) of
        Some cached \<Rightarrow> (Inr cached, w)
      | None \<Rightarrow>
          (case and_then (map_err (\<lambda>_. Unauthorized ''bad format'') (keys_split bearer)) (\<lambda>(prefix, secret).
                and_then (map_err from_db (find_active_by_prefix (ae_fault env) prefix (aw_accounts w))) (\<lambda>found.
                and_then (ok_or found (Unauthorized ''unknown prefix'')) (\<lambda>row.
                and_then (map_err (\<lambda>_. Unauthorized ''secret mismatch'') (keys_verify lib secret (ak_secret_hash row)))
                  (\<lambda>_. Inr row)))) of
             Inl err \<Rightarrow> (Inl err, w)
           | Inr row \<Rightarrow>
               (let resolved = \<lparr>au_id = ak_id row, au_prefix = ak_prefix row, au_tier = ak_tier row\<rparr>
                in (Inr resolved, w\<lparr>aw_cache := cache_insert (ae_now env) bearer resolved (aw_cache w),
                                     aw_pending := aw_pending w @ [ak_prefix row]\<rparr>))))"

text \<open>The spawned task: the oldest queued prefix is touched; a failure is logged and dropped.\<close>

definition run_touch :: "bool \<Rightarrow> timestamp \<Rightarrow> 'a auth_world_scheme \<Rightarrow> 'a auth_world_scheme" where
  "run_touch fault now w = (case aw_pending w of
     [] \<Rightarrow> w
   | prefix # rest \<Rightarrow> (case touch_last_used fault now prefix (aw_accounts w) of
        Inl _ \<Rightarrow> w\<lparr>aw_pending := rest\<rparr>
      | Inr a \<Rightarrow> w\<lparr>aw_pending := rest, aw_accounts := a\<rparr>))"

text \<open>The middleware around the inner service \<open>next_run\<close>.\<close>

type_synonym ('b, 'w) service = "http_request \<Rightarrow> 'w \<Rightarrow> 'b http_response \<times> 'w"

definition auth_middleware ::
    "key_lib \<Rightarrow> auth_env \<Rightarrow> ('b, 'a auth_world_scheme) service \<Rightarrow> ('b, 'a auth_world_scheme) service" where
  "auth_middleware lib env next_run rq w = (case extract_bearer rq of
     Inl err \<Rightarrow> (error_response err, w)
   | Inr bearer \<Rightarrow>
       (case auth_resolve lib env bearer w of
          (Inr key, w') \<Rightarrow>
            (let (response, w'') = next_run (rq\<lparr>rq_key := Some key\<rparr>) w'
             in (response\<lparr>rs_key := Some key\<rparr>, w''))
        | (Inl err, w') \<Rightarrow> (error_response err, w')))"

section \<open>Soundness\<close>

text \<open>The account tables authorise a bearer string for a key.\<close>

definition authorises :: "key_lib \<Rightarrow> account_db \<Rightarrow> string \<Rightarrow> AuthenticatedKey \<Rightarrow> bool" where
  "authorises lib a bearer key \<longleftrightarrow> (\<exists>row \<in> set (ac_keys a).
     ak_revoked_at row = None \<and> key = \<lparr>au_id = ak_id row, au_prefix = ak_prefix row, au_tier = ak_tier row\<rparr> \<and>
     (\<exists>secret. bearer = ak_prefix row @ ''_'' @ secret \<and> keys_verify lib secret (ak_secret_hash row) = Inr ()))"

text \<open>
  Worlds the process can be in, with the moments and account tables at which it resolved a bearer
  string so far.  Between two resolutions anything may change, the tables by other actors and the rest
  of the state by the server itself, and the cache may lose entries; only resolving adds to it.
\<close>

inductive auth_run :: "key_lib \<Rightarrow> int \<Rightarrow> (int \<times> account_db) list \<Rightarrow> 'a auth_world_scheme \<Rightarrow> bool"
  for lib :: key_lib and ttl :: int where
  start: "aw_cache w = Map.empty \<Longrightarrow> auth_run lib ttl [] w"
| resolved: "auth_run lib ttl hs w \<Longrightarrow> ae_ttl env = ttl \<Longrightarrow> auth_resolve lib env bearer w = (r, w')
    \<Longrightarrow> auth_run lib ttl ((ae_now env, aw_accounts w) # hs) w'"
| elsewhere: "auth_run lib ttl hs w \<Longrightarrow> aw_cache w' \<subseteq>\<^sub>m aw_cache w \<Longrightarrow> auth_run lib ttl hs w'"

inductive_cases auth_runE: "auth_run lib ttl hs w"

lemma auth_resolve_cases:
  assumes "auth_resolve lib env bearer w = (r, w')"
  obtains (hit) key where "r = Inr key" "w' = w" "cache_get (ae_ttl env) (ae_now env) bearer (aw_cache w) = Some key"
  | (fresh) key where "r = Inr key" "authorises lib (aw_accounts w) bearer key" "\<not> ae_fault env"
      "w' = w\<lparr>aw_cache := cache_insert (ae_now env) bearer key (aw_cache w), aw_pending := aw_pending w @ [au_prefix key]\<rparr>"
  | (refused) e where "r = Inl e" "w' = w" "ApiError_status e \<in> {401, 500}"
      "cache_get (ae_ttl env) (ae_now env) bearer (aw_cache w) = None"
proof (cases "cache_get (ae_ttl env) (ae_now env) bearer (aw_cache w)")
  case (Some key)
  then show thesis using assms by (intro hit) (simp_all add: auth_resolve_def)
next
  case None
  show thesis
  proof (cases r)
    case (Inl e)
    then show thesis using assms None
      by (intro refused [of e])
        (auto simp: auth_resolve_def find_active_by_prefix_def keys_verify_def from_db_def and_then_def map_err_def ok_or_def Let_def
          split: sum.splits option.splits prod.splits if_splits)
  next
    case (Inr key)
    then obtain prefix secret row where row: "keys_split bearer = Inr (prefix, secret)" "\<not> ae_fault env"
      "find (\<lambda>k. ak_prefix k = prefix \<and> ak_revoked_at k = None) (ac_keys (aw_accounts w)) = Some row"
      "keys_verify lib secret (ak_secret_hash row) = Inr ()"
      "key = \<lparr>au_id = ak_id row, au_prefix = ak_prefix row, au_tier = ak_tier row\<rparr>"
      "w' = w\<lparr>aw_cache := cache_insert (ae_now env) bearer key (aw_cache w), aw_pending := aw_pending w @ [ak_prefix row]\<rparr>"
      using assms None
      by (auto simp: auth_resolve_def find_active_by_prefix_def res_simps Let_def split: sum.splits if_splits)
    have mem: "row \<in> set (ac_keys (aw_accounts w))" "ak_prefix row = prefix" "ak_revoked_at row = None"
      using row(3) by (auto simp: find_Some_iff)
    have "bearer = prefix @ ''_'' @ secret" using row(1) unfolding keys_split_iff by auto
    then show thesis using row mem Inr by (intro fresh [of key]) (auto simp: authorises_def)
  qed
qed

lemma run_touch_cache: "aw_cache (run_touch fault now w) = aw_cache w"
  by (auto simp: run_touch_def split: list.splits sum.splits)

lemma cache_justified:
  assumes "auth_run lib ttl hs w" "aw_cache w bearer = Some (key, t)"
  shows "\<exists>a. (t, a) \<in> set hs \<and> authorises lib a bearer key"
  using assms
proof (induction arbitrary: bearer key t rule: auth_run.induct)
  case (resolved hs w env b r w')
  from resolved.hyps(3) show ?case
  proof (cases rule: auth_resolve_cases)
    case (fresh k)
    then show ?thesis using resolved.IH [of bearer key t] resolved.prems
      by (cases "bearer = b") (auto simp: cache_insert_def)
  qed (use resolved.IH [of bearer key t] resolved.prems in auto)
next
  case (elsewhere hs w w')
  then have "aw_cache w bearer = Some (key, t)" by (auto simp: map_le_def dom_def)
  then show ?case by (rule elsewhere.IH)
qed auto

lemma resolve_justified:
  assumes "auth_run lib (ae_ttl env) hs w" "auth_resolve lib env bearer w = (Inr key, w')"
  obtains t a where "(t, a) \<in> set ((ae_now env, aw_accounts w) # hs)" "t = ae_now env \<or> ae_now env - t < ae_ttl env"
    "authorises lib a bearer key"
  using assms(2)
proof (cases rule: auth_resolve_cases)
  case (hit k)
  then obtain t where t: "aw_cache w bearer = Some (key, t)" "ae_now env - t < ae_ttl env"
    by (auto simp: cache_get_def split: option.splits if_splits)
  then show thesis using cache_justified [OF assms(1) t(1)] that by auto
next
  case (fresh k)
  then show thesis using that [of "ae_now env" "aw_accounts w"] by simp
qed simp

text \<open>C12: behind the authentication layer every request either is answered with a uniform 401 or 500
  without reaching the handler, or reaches the handler with a key that the account tables
  authorised for exactly the presented bearer string, now or less than one cache lifetime ago.\<close>

theorem auth_middleware_sound:
  assumes "auth_run lib (ae_ttl env) hs w" "auth_middleware lib env next_run rq w = (rs, w')"
  shows "(\<exists>e. rs = error_response e \<and> rs_status rs \<in> {401, 500} \<and> w' = w) \<or>
    (\<exists>bearer key t a w1. header_get ''authorization'' rq = Some (''Bearer '' @ bearer) \<and>
       (t, a) \<in> set ((ae_now env, aw_accounts w) # hs) \<and> (t = ae_now env \<or> ae_now env - t < ae_ttl env) \<and>
       authorises lib a bearer key \<and>
       rs = (fst (next_run (rq\<lparr>rq_key := Some key\<rparr>) w1))\<lparr>rs_key := Some key\<rparr>)"
proof (cases "extract_bearer rq")
  case (Inl e)
  then have "ApiError_status e = 401"
    by (auto simp: extract_bearer_def and_then_def ok_or_def split: sum.splits option.splits if_splits)
  then show ?thesis using assms(2) Inl by (auto simp: auth_middleware_def error_response_def into_response_def)
next
  case (Inr bearer)
  then have header: "header_get ''authorization'' rq = Some (''Bearer '' @ bearer)"
    by (auto simp: extract_bearer_def to_str_def strip_prefix_Some res_simps split: if_splits simp del: strip_prefix.simps)
  obtain r w1 where res: "auth_resolve lib env bearer w = (r, w1)" by (cases "auth_resolve lib env bearer w") auto
  show ?thesis
  proof (cases r)
    case (Inl e)
    have "w1 = w \<and> ApiError_status e \<in> {401, 500}" using res unfolding Inl by (cases rule: auth_resolve_cases) auto
    then show ?thesis using assms(2) Inl res \<open>extract_bearer rq = Inr bearer\<close>
      by (auto simp: auth_middleware_def error_response_def into_response_def)
  next
    case (Inr key)
    obtain t a where "(t, a) \<in> set ((ae_now env, aw_accounts w) # hs)" "t = ae_now env \<or> ae_now env - t < ae_ttl env"
      "authorises lib a bearer key"
      using resolve_justified [OF assms(1) res [unfolded Inr]] by blast
    moreover have "rs = (fst (next_run (rq\<lparr>rq_key := Some key\<rparr>) w1))\<lparr>rs_key := Some key\<rparr>"
      using assms(2) res Inr \<open>extract_bearer rq = Inr bearer\<close> by (auto simp: auth_middleware_def Let_def split: prod.splits)
    ultimately show ?thesis using header by blast
  qed
qed


text \<open>C14: a key handed out by the generator and stored for a user authenticates that very row, at the
  tier it was issued for, on the first presentation of the full string.\<close>

theorem issued_key_authenticates:
  assumes "key_lib_ok lib" "length prefix_bytes = 4" "length secret_bytes = 16"
    and "generate lib prefix_bytes secret_bytes salt = Inr k"
    and "api_keys_insert fault now fresh user_id (ik_prefix k) (ik_secret_hash k) tier label a = Inr (row, a')"
    and "aw_accounts w = a'" "aw_cache w (ik_full k) = None" "\<not> ae_fault env"
  shows "fst (auth_resolve lib env (ik_full k) w) = Inr \<lparr>au_id = fresh, au_prefix = ik_prefix k, au_tier = tier\<rparr> \<and>
    authorises lib a' (ik_full k) \<lparr>au_id = fresh, au_prefix = ik_prefix k, au_tier = tier\<rparr>"
proof -
  note key = generated_key [OF assms(1-4)]
  have row: "row = \<lparr>ak_id = fresh, ak_user_id = user_id, ak_prefix = ik_prefix k, ak_secret_hash = ik_secret_hash k,
      ak_tier = tier, ak_label = label, ak_created_at = now, ak_revoked_at = None, ak_last_used_at = None\<rparr>"
    "ac_keys a' = ac_keys a @ [row]" "ik_prefix k \<notin> ak_prefix ` set (ac_keys a)"
    using assms(5) by (auto simp: api_keys_insert_def Let_def split: if_splits)
  have "find (\<lambda>x. ak_prefix x = ik_prefix k \<and> ak_revoked_at x = None) (ac_keys a) = None"
    unfolding find_None_iff using row(3) by (metis image_eqI)
  then have "find (\<lambda>x. ak_prefix x = ik_prefix k \<and> ak_revoked_at x = None) (ac_keys a') = Some row"
    using row(1,2) by (simp add: find_append)
  moreover have "ik_full k = ik_prefix k @ ''_'' @ ik_secret k" using key(1) unfolding keys_split_iff by auto
  ultimately show ?thesis using key row assms(6-8)
    by (auto simp: auth_resolve_def cache_get_def find_active_by_prefix_def authorises_def and_then_def map_err_def ok_or_def Let_def)
qed

section \<open>A sample process\<close>

definition alice :: User where
  "alice = \<lparr>us_id = 1, us_github_user_id = 42, us_github_login = ''alice'', us_email = None, us_avatar_url = None,
     us_created_at = 0, us_updated_at = 0\<rparr>"

definition bob :: User where
  "bob = \<lparr>us_id = 2, us_github_user_id = 43, us_github_login = ''bob'', us_email = None, us_avatar_url = None,
     us_created_at = 0, us_updated_at = 0\<rparr>"

definition sample_accounts :: account_db where
  "sample_accounts = \<lparr>ac_users = [alice, bob], ac_sessions = [], ac_keys = [], ac_webhooks = []\<rparr>"

definition sample_issued :: IssuedKey where
  "sample_issued = \<lparr>ik_prefix = ''cell_'' @ hex_lower [1, 2, 3, 4], ik_secret = hex_lower (replicate 16 7),
     ik_secret_hash = ''$'' @ hex_lower (replicate 16 7),
     ik_full = ''cell_'' @ hex_lower [1, 2, 3, 4] @ ''_'' @ hex_lower (replicate 16 7)\<rparr>"

definition sample_row :: ApiKey where
  "sample_row = \<lparr>ak_id = 7, ak_user_id = 1, ak_prefix = ik_prefix sample_issued, ak_secret_hash = ik_secret_hash sample_issued,
     ak_tier = Pro, ak_label = None, ak_created_at = 5, ak_revoked_at = None, ak_last_used_at = None\<rparr>"

definition sample_auth_env :: "int \<Rightarrow> auth_env" where
  "sample_auth_env now = \<lparr>ae_now = now, ae_ttl = 60000, ae_fault = False\<rparr>"

definition sample_auth_world :: "ApiKey list \<Rightarrow> auth_world" where
  "sample_auth_world ks = \<lparr>aw_cache = Map.empty, aw_accounts = sample_accounts\<lparr>ac_keys := ks\<rparr>, aw_pending = []\<rparr>"

lemma sample_generate: "generate ref_key_lib [1, 2, 3, 4] (replicate 16 7) salt = Inr sample_issued"
  by (simp add: generate_def ref_key_lib_def sample_issued_def KEY_PREFIX_TAG_def Let_def res_simps)

lemma sample_insert:
  "api_keys_insert False 5 7 1 (ik_prefix sample_issued) (ik_secret_hash sample_issued) Pro None sample_accounts =
     Inr (sample_row, sample_accounts\<lparr>ac_keys := [sample_row]\<rparr>)"
  by (simp add: api_keys_insert_def Let_def sample_accounts_def user_ids_def alice_def bob_def sample_row_def)

theorem issued_key_authenticates_witness:
  "fst (auth_resolve ref_key_lib (sample_auth_env 0) (ik_full sample_issued) (sample_auth_world [sample_row])) =
     Inr \<lparr>au_id = 7, au_prefix = ik_prefix sample_issued, au_tier = Pro\<rparr>"
  using issued_key_authenticates [OF ref_key_lib_ok _ _ sample_generate sample_insert,
      of "sample_auth_world [sample_row]" "sample_auth_env 0"]
  by (simp add: sample_auth_world_def sample_auth_env_def)

definition sample_request :: http_request where
  "sample_request = \<lparr>rq_method = ''GET'', rq_path = ''/v1/blocks/latest'',
     rq_headers = [(''authorization'', ''Bearer '' @ ik_full sample_issued)], rq_key = None, rq_session = None\<rparr>"

definition ok_service :: "(unit, 'w) service" where
  "ok_service rq w = (\<lparr>rs_status = 200, rs_headers = [], rs_body = NoBody, rs_key = None\<rparr>, w)"

theorem auth_middleware_sound_witness:
  "\<exists>bearer key. header_get ''authorization'' sample_request = Some (''Bearer '' @ bearer) \<and>
     authorises ref_key_lib (aw_accounts (sample_auth_world [sample_row])) bearer key \<and>
     rs_key (fst (auth_middleware ref_key_lib (sample_auth_env 0) ok_service sample_request (sample_auth_world [sample_row]))) = Some key"
proof -
  obtain rs w' where mw: "auth_middleware ref_key_lib (sample_auth_env 0) ok_service sample_request (sample_auth_world [sample_row]) = (rs, w')"
    by fastforce
  have run: "auth_run ref_key_lib (ae_ttl (sample_auth_env 0)) [] (sample_auth_world [sample_row])"
    by (rule auth_run.start) (simp add: sample_auth_world_def)
  have "rs_status (fst (auth_middleware ref_key_lib (sample_auth_env 0) ok_service sample_request (sample_auth_world [sample_row]))) = 200"
    by code_simp
  then show ?thesis using auth_middleware_sound [OF run mw] mw by auto
qed


end
