(* ===== verification/RateLimit.thy ===== *)
theory RateLimit
  imports Prelude Models Config Strings
begin

text \<open>
  \<^verbatim>\<open>api/src/ratelimit.rs\<close>: the token bucket kept in Redis, one per key and surface.  The Lua
  script runs on a store of buckets with expiry times; Lua numbers are exact rationals here, so
  the rounding of doubles is not represented.  The bound on admitted requests and the sufficiency
  of the announced waiting time are proved for any metered resource in the locale \<open>metered\<close> and
  carried over to the script.
\<close>

section \<open>The store and the script\<close>

record bucket =
  bk_tokens :: rat
  bk_last :: int
  bk_expires :: int

text \<open>
  The keys the program keeps in Redis: buckets, pending OAuth states with their expiry, and the
  list of request logs.
\<close>

record redis_db =
  rd_buckets :: "string \<rightharpoonup> bucket"
  rd_oauth :: "string \<rightharpoonup> int"
  rd_request_logs :: "string list"

text \<open>\<^verbatim>\<open>HMGET\<close>: a key whose expiry has passed reads as absent.\<close>

definition live_bucket :: "int \<Rightarrow> redis_db \<Rightarrow> string \<Rightarrow> bucket option" where
  "live_bucket redis_now r key = (case rd_buckets r key of
     None \<Rightarrow> None
   | Some b \<Rightarrow> if bk_expires b < redis_now then None else Some b)"

definition bucket_ttl_ms :: "rat \<Rightarrow> rat \<Rightarrow> int" where
  "bucket_ttl_ms capacity refill_per_sec =
     (if refill_per_sec > 0 then \<lceil>capacity * 1000 / refill_per_sec * 2\<rceil> else 60000)"

text \<open>
  \<^verbatim>\<open>HSET\<close> followed by \<^verbatim>\<open>PEXPIRE\<close>: a time to live that is not positive deletes the key.
\<close>

definition store_bucket :: "int \<Rightarrow> string \<Rightarrow> rat \<Rightarrow> int \<Rightarrow> int \<Rightarrow> redis_db \<Rightarrow> redis_db" where
  "store_bucket redis_now key tokens last_ms ttl_ms r = r\<lparr>rd_buckets :=
     (if ttl_ms \<le> 0 then (rd_buckets r)(key := None)
      else (rd_buckets r)(key \<mapsto> \<lparr>bk_tokens = tokens, bk_last = last_ms, bk_expires = redis_now + ttl_ms\<rparr>))\<rparr>"

definition refilled :: "rat \<Rightarrow> rat \<Rightarrow> int \<Rightarrow> bucket option \<Rightarrow> rat" where
  "refilled capacity refill_per_sec now_ms b =
     (let (tokens, last_ms) = (case b of None \<Rightarrow> (capacity, now_ms) | Some b \<Rightarrow> (bk_tokens b, bk_last b));
          elapsed_ms = max 0 (now_ms - last_ms);
          refill = of_int elapsed_ms * refill_per_sec / 1000
      in min capacity (tokens + refill))"

definition TOKEN_BUCKET_LUA ::
    "int \<Rightarrow> string \<Rightarrow> rat \<Rightarrow> rat \<Rightarrow> int \<Rightarrow> rat \<Rightarrow> redis_db \<Rightarrow> int list \<times> redis_db" where
  "TOKEN_BUCKET_LUA redis_now key capacity refill_per_sec now_ms cost r =
     (let tokens = refilled capacity refill_per_sec now_ms (live_bucket redis_now r key);
          allowed = cost \<le> tokens;
          tokens' = (if allowed then tokens - cost else tokens);
          retry_after_ms =
            (if allowed then 0
             else if refill_per_sec > 0 then \<lceil>(cost - tokens) * 1000 / refill_per_sec\<rceil> else 1000)
      in ([if allowed then 1 else 0, \<lfloor>tokens'\<rfloor>, retry_after_ms],
          store_bucket redis_now key tokens' now_ms (bucket_ttl_ms capacity refill_per_sec) r))"

section \<open>Surfaces, parameters, decisions\<close>

datatype Surface = Rest | Graphql

fun Surface_slug :: "Surface \<Rightarrow> string" where
  "Surface_slug Rest = ''rest''"
| "Surface_slug Graphql = ''graphql''"

record LimitParams =
  burst :: u32
  refill_per_sec :: rat

fun from_config :: "Config \<Rightarrow> ApiKeyTier \<Rightarrow> Surface \<Rightarrow> LimitParams" where
  "from_config config Free Rest =
     \<lparr>burst = api_rate_limit_free_rest_burst config,
      refill_per_sec = api_rate_limit_free_rest_refill_per_sec config\<rparr>"
| "from_config config Starter Rest =
     \<lparr>burst = api_rate_limit_starter_rest_burst config,
      refill_per_sec = api_rate_limit_starter_rest_refill_per_sec config\<rparr>"
| "from_config config Pro Rest =
     \<lparr>burst = api_rate_limit_pro_rest_burst config,
      refill_per_sec = api_rate_limit_pro_rest_refill_per_sec config\<rparr>"
| "from_config config Free Graphql =
     \<lparr>burst = api_rate_limit_free_graphql_burst config,
      refill_per_sec = api_rate_limit_free_graphql_refill_per_sec config\<rparr>"
| "from_config config Starter Graphql =
     \<lparr>burst = api_rate_limit_starter_graphql_burst config,
      refill_per_sec = api_rate_limit_starter_graphql_refill_per_sec config\<rparr>"
| "from_config config Pro Graphql =
     \<lparr>burst = api_rate_limit_pro_graphql_burst config,
      refill_per_sec = api_rate_limit_pro_graphql_refill_per_sec config\<rparr>"

record Decision =
  dc_allowed :: bool
  dc_remaining :: u32
  dc_retry_after_seconds :: u64
  dc_limit :: u32

datatype LimitError = RedisUnreachable

text \<open>
  One call of the limiter: what the two clocks show and whether the round trip to Redis works.
  With \<open>ReplyLost\<close> the script has run but the caller sees an error.
\<close>

datatype redis_fault = Delivered | NotDelivered | ReplyLost

record limiter_env =
  le_now_ms :: int
  le_redis_now :: int
  le_fault :: redis_fault

definition bucket_key :: "Surface \<Rightarrow> string \<Rightarrow> string" where
  "bucket_key surface prefix = ''rl:'' @ Surface_slug surface @ '':'' @ prefix"

text \<open>The clock is read as \<^verbatim>\<open>u64::try_from\<close> of milliseconds since the epoch, zero when it fails.\<close>

definition now_ms_of :: "limiter_env \<Rightarrow> u64" where
  "now_ms_of env = unwrap_or (u64_try_from (max 0 (le_now_ms env))) 0"

definition nth_or :: "int list \<Rightarrow> nat \<Rightarrow> int" where
  "nth_or raw i = (if i < length raw then raw ! i else 0)"

definition div_ceil :: "int \<Rightarrow> int \<Rightarrow> int" where
  "div_ceil n d = (n + d - 1) div d"

definition decision_of :: "LimitParams \<Rightarrow> int list \<Rightarrow> Decision" where
  "decision_of params raw =
     (let allowed = (nth_or raw 0 = 1);
          remaining = unwrap_or (u32_try_from (max 0 (nth_or raw 1))) 0;
          retry_after_ms = unwrap_or (u64_try_from (max 0 (nth_or raw 2))) 0
      in \<lparr>dc_allowed = allowed, dc_remaining = remaining,
          dc_retry_after_seconds = div_ceil retry_after_ms 1000, dc_limit = burst params\<rparr>)"

definition check ::
    "limiter_env \<Rightarrow> string \<Rightarrow> Surface \<Rightarrow> LimitParams \<Rightarrow> redis_db \<Rightarrow> (LimitError + Decision) \<times> redis_db" where
  "check env prefix surface params r =
     (let key = bucket_key surface prefix;
          (raw, r') = TOKEN_BUCKET_LUA (le_redis_now env) key (of_int (burst params))
                        (refill_per_sec params) (now_ms_of env) 1 r
      in case le_fault env of
           Delivered \<Rightarrow> (Inr (decision_of params raw), r')
         | NotDelivered \<Rightarrow> (Inl RedisUnreachable, r)
         | ReplyLost \<Rightarrow> (Inl RedisUnreachable, r'))"

section \<open>Metered resources\<close>

text \<open>
  A resource with a level that grows at a bounded rate, of which every granted event takes one
  unit.  \<open>ok_at t s\<close> is the invariant of a state last touched no later than \<open>t\<close>.
\<close>

locale metered =
  fixes ok_at :: "int \<Rightarrow> 's \<Rightarrow> bool"
    and level :: "int \<Rightarrow> 's \<Rightarrow> rat"
    and rate :: rat
    and moment :: "'e \<Rightarrow> int"
    and admissible :: "'e \<Rightarrow> bool"
    and act :: "'e \<Rightarrow> 's \<Rightarrow> 's"
    and grants :: "'e \<Rightarrow> 's \<Rightarrow> bool"
  assumes inv_later: "ok_at t s \<Longrightarrow> t \<le> t' \<Longrightarrow> ok_at t' s"
    and inv_act: "ok_at (moment e) s \<Longrightarrow> admissible e \<Longrightarrow> ok_at (moment e) (act e s)"
    and level_nonneg: "ok_at t s \<Longrightarrow> 0 \<le> level t s"
    and level_grows: "ok_at t s \<Longrightarrow> t \<le> t' \<Longrightarrow> level t' s \<le> level t s + rate * of_int (t' - t)"
    and act_pays: "ok_at (moment e) s \<Longrightarrow> admissible e \<Longrightarrow>
           level (moment e) (act e s) + (if grants e s then 1 else 0) \<le> level (moment e) s"
begin

fun granted :: "'e list \<Rightarrow> 's \<Rightarrow> nat" where
  "granted [] s = 0"
| "granted (e # es) s = (if grants e s then 1 else 0) + granted es (act e s)"

fun in_order :: "int \<Rightarrow> 'e list \<Rightarrow> bool" where
  "in_order t [] = True"
| "in_order t (e # es) \<longleftrightarrow> t \<le> moment e \<and> admissible e \<and> in_order (moment e) es"

fun end_time :: "int \<Rightarrow> 'e list \<Rightarrow> int" where
  "end_time t [] = t"
| "end_time t (e # es) = end_time (moment e) es"

lemma granted_le:
  assumes "ok_at t s" "in_order t es"
  shows "of_nat (granted es s) \<le> level t s + rate * of_int (end_time t es - t)"
  using assms
proof (induction es arbitrary: t s)
  case Nil
  then show ?case by (simp add: level_nonneg)
next
  case (Cons e es)
  let ?g = "if grants e s then 1 else 0 :: rat"
  have order: "t \<le> moment e" "admissible e" "in_order (moment e) es" using Cons.prems(2) by simp_all
  have okt: "ok_at (moment e) s" "ok_at (moment e) (act e s)"
    using inv_later [OF Cons.prems(1) order(1)] inv_act order(2) by blast+
  have "of_nat (granted es (act e s)) \<le> level (moment e) (act e s) + rate * of_int (end_time (moment e) es - moment e)"
    using Cons.IH [OF okt(2) order(3)] .
  moreover have "level (moment e) (act e s) + ?g \<le> level (moment e) s" using act_pays [OF okt(1) order(2)] .
  moreover have "level (moment e) s \<le> level t s + rate * of_int (moment e - t)"
    using level_grows [OF Cons.prems(1) order(1)] .
  ultimately have "of_nat (granted es (act e s)) + ?g
      \<le> level t s + rate * of_int (moment e - t) + rate * of_int (end_time (moment e) es - moment e)" by simp
  also have "\<dots> = level t s + rate * of_int (end_time t (e # es) - t)" by (simp add: algebra_simps)
  finally show ?case by (cases "grants e s") (simp_all add: add.commute)
qed

end

section \<open>The script is metered\<close>

record limiter_call =
  lc_env :: limiter_env
  lc_prefix :: string
  lc_surface :: Surface
  lc_params :: LimitParams

definition bucket_ok :: "LimitParams \<Rightarrow> int \<Rightarrow> string \<Rightarrow> int \<Rightarrow> redis_db \<Rightarrow> bool" where
  "bucket_ok params off key t r \<longleftrightarrow> 0 < burst params \<and> 0 < refill_per_sec params \<and>
     (\<forall>b. rd_buckets r key = Some b \<longrightarrow> 0 \<le> bk_tokens b \<and> bk_tokens b \<le> of_int (burst params) \<and> bk_last b \<le> t \<and>
        bk_expires b = bk_last b + off + bucket_ttl_ms (of_int (burst params)) (refill_per_sec params))"

definition bucket_level :: "LimitParams \<Rightarrow> int \<Rightarrow> string \<Rightarrow> int \<Rightarrow> redis_db \<Rightarrow> rat" where
  "bucket_level params off key t r =
     refilled (of_int (burst params)) (refill_per_sec params) t (live_bucket (t + off) r key)"

definition steady :: "LimitParams \<Rightarrow> int \<Rightarrow> string \<Rightarrow> limiter_call \<Rightarrow> bool" where
  "steady params off key c \<longleftrightarrow> in_u64 (le_now_ms (lc_env c)) \<and>
     le_redis_now (lc_env c) = le_now_ms (lc_env c) + off \<and>
     (bucket_key (lc_surface c) (lc_prefix c) = key \<longrightarrow> lc_params c = params)"

definition run_check :: "limiter_call \<Rightarrow> redis_db \<Rightarrow> (LimitError + Decision) \<times> redis_db" where
  "run_check c = check (lc_env c) (lc_prefix c) (lc_surface c) (lc_params c)"

definition admits :: "string \<Rightarrow> limiter_call \<Rightarrow> redis_db \<Rightarrow> bool" where
  "admits key c r \<longleftrightarrow> bucket_key (lc_surface c) (lc_prefix c) = key \<and>
     (case fst (run_check c r) of Inr d \<Rightarrow> dc_allowed d | Inl _ \<Rightarrow> False)"

lemma bucket_key_inject:
  "bucket_key s p = bucket_key s' p' \<longleftrightarrow> s = s' \<and> p = p'"
  by (cases s; cases s') (auto simp: bucket_key_def)

lemma ttl_covers_refill:
  assumes "0 < r" "0 < c"
  shows "2000 * c / r \<le> of_int (bucket_ttl_ms c r)" "0 < bucket_ttl_ms c r"
  using assms by (simp_all add: bucket_ttl_ms_def le_of_int_ceiling mult.commute)

lemma refilled_simps:
  "refilled c r t None = c"
  "bk_last b \<le> t \<Longrightarrow> refilled c r t (Some b) = min c (bk_tokens b + of_int (t - bk_last b) * r / 1000)"
  by (simp_all add: refilled_def max_def)

lemma min_refill: "0 \<le> y \<Longrightarrow> min c (a + (x + y)) = min c (min c (a + x) + y)" for a c x y :: rat
  by (simp add: min_def)

lemma refilled_mono:
  assumes "bk_last b \<le> t" "t \<le> t'" "0 < r"
  shows "refilled c r t' (Some b) = min c (refilled c r t (Some b) + r / 1000 * of_int (t' - t))"
proof -
  have split: "of_int (t' - bk_last b) * r / 1000 = of_int (t - bk_last b) * r / 1000 + r / 1000 * of_int (t' - t)"
    by (simp add: field_simps)
  have "0 \<le> r / 1000 * of_int (t' - t)" using assms(2,3) by simp
  then show ?thesis using assms(1,2) by (simp only: refilled_simps order_trans [OF assms(1,2)] split min_refill)
qed

text \<open>A bucket whose entry has expired would have been full again anyway.\<close>

lemma expired_is_full:
  assumes "bucket_ok params off key t r" "rd_buckets r key = Some b" "t \<le> t'" "bk_expires b < t' + off"
  shows "refilled (of_int (burst params)) (refill_per_sec params) t' (Some b) = of_int (burst params)"
proof -
  let ?c = "of_int (burst params) :: rat" and ?r = "refill_per_sec params"
  have ok: "0 < ?c" "0 < ?r" "0 \<le> bk_tokens b" "bk_last b \<le> t"
    "bk_expires b = bk_last b + off + bucket_ttl_ms ?c ?r"
    using assms(1,2) by (auto simp: bucket_ok_def)
  have "bucket_ttl_ms ?c ?r \<le> t' - bk_last b" using ok(5) assms(4) by simp
  then have "(of_int (bucket_ttl_ms ?c ?r) :: rat) \<le> of_int (t' - bk_last b)" by (simp only: of_int_le_iff)
  then have "2000 * ?c / ?r \<le> of_int (t' - bk_last b)" using ttl_covers_refill(1) [OF ok(2,1)] by linarith
  then have "2 * ?c \<le> of_int (t' - bk_last b) * ?r / 1000" using ok(2) by (simp add: field_simps)
  then show ?thesis using ok assms(3) by (simp add: refilled_simps min_def)
qed

lemma bucket_level_eq:
  assumes "bucket_ok params off key t r" "t \<le> t'"
  shows "bucket_level params off key t' r =
    (case rd_buckets r key of None \<Rightarrow> of_int (burst params)
     | Some b \<Rightarrow> refilled (of_int (burst params)) (refill_per_sec params) t' (Some b))"
  using expired_is_full [OF assms(1) _ assms(2)]
  by (auto simp: bucket_level_def live_bucket_def refilled_simps split: option.splits)

lemma bucket_level_refill:
  assumes "bucket_ok params off key t r" "t \<le> t'"
  shows "bucket_level params off key t' r =
    min (of_int (burst params)) (bucket_level params off key t r + refill_per_sec params / 1000 * of_int (t' - t))"
proof (cases "rd_buckets r key")
  case None
  have "0 < refill_per_sec params" using assms(1) by (simp add: bucket_ok_def)
  then have "0 \<le> refill_per_sec params / 1000 * of_int (t' - t)" using assms(2) by simp
  then show ?thesis using None by (simp add: bucket_level_eq [OF assms] bucket_level_eq [OF assms(1) order_refl])
next
  case (Some b)
  then have "bk_last b \<le> t" "0 < refill_per_sec params" using assms(1) by (auto simp: bucket_ok_def)
  from refilled_mono [OF this(1) assms(2) this(2)] Some show ?thesis
    by (simp only: bucket_level_eq [OF assms] bucket_level_eq [OF assms(1) order_refl] option.case)
qed

lemma bucket_level_bounds:
  assumes "bucket_ok params off key t r"
  shows "0 \<le> bucket_level params off key t r" "bucket_level params off key t r \<le> of_int (burst params)"
  using assms by (auto simp: bucket_level_eq [OF assms order_refl] bucket_ok_def refilled_simps split: option.splits)

text \<open>What one call does to the bucket it addresses and to every other bucket.\<close>

lemma check_other_key:
  assumes "bucket_key (lc_surface c) (lc_prefix c) \<noteq> key"
  shows "rd_buckets (snd (run_check c r)) key = rd_buckets r key"
  using assms by (auto simp: run_check_def check_def TOKEN_BUCKET_LUA_def store_bucket_def Let_def split: redis_fault.splits)

lemma check_own_key:
  assumes "bucket_ok params off key t r" "steady params off key c" "le_now_ms (lc_env c) = t"
    and "bucket_key (lc_surface c) (lc_prefix c) = key"
  defines "l \<equiv> bucket_level params off key t r"
  defines "spent \<equiv> if 1 \<le> l then l - 1 else l"
  shows "rd_buckets (snd (run_check c r)) key =
      (if le_fault (lc_env c) = NotDelivered then rd_buckets r key
       else Some \<lparr>bk_tokens = spent, bk_last = t,
                   bk_expires = t + off + bucket_ttl_ms (of_int (burst params)) (refill_per_sec params)\<rparr>)"
    and "fst (run_check c r) = (if le_fault (lc_env c) = Delivered
      then Inr (decision_of params [if 1 \<le> l then 1 else 0, \<lfloor>spent\<rfloor>,
             if 1 \<le> l then 0 else \<lceil>(1 - l) * 1000 / refill_per_sec params\<rceil>])
      else Inl RedisUnreachable)"
proof -
  have now: "now_ms_of (lc_env c) = t" "le_redis_now (lc_env c) = t + off" "lc_params c = params"
    using assms by (auto simp: steady_def now_ms_of_def u64_try_from_def in_u64_def unwrap_or_def)
  have pos: "0 < refill_per_sec params" "0 < (of_int (burst params) :: rat)"
    using assms(1) by (auto simp: bucket_ok_def)
  note run = run_check_def check_def TOKEN_BUCKET_LUA_def store_bucket_def Let_def
  show "rd_buckets (snd (run_check c r)) key =
      (if le_fault (lc_env c) = NotDelivered then rd_buckets r key
       else Some \<lparr>bk_tokens = spent, bk_last = t,
                   bk_expires = t + off + bucket_ttl_ms (of_int (burst params)) (refill_per_sec params)\<rparr>)"
    using ttl_covers_refill(2) [OF pos] assms(4)
    by (auto simp: run now spent_def l_def bucket_level_def split: redis_fault.splits)
  show "fst (run_check c r) = (if le_fault (lc_env c) = Delivered
      then Inr (decision_of params [if 1 \<le> l then 1 else 0, \<lfloor>spent\<rfloor>,
             if 1 \<le> l then 0 else \<lceil>(1 - l) * 1000 / refill_per_sec params\<rceil>])
      else Inl RedisUnreachable)"
    using assms(4) pos by (auto simp: run now spent_def l_def bucket_level_def split: redis_fault.splits)
qed

lemma admits_iff:
  assumes "bucket_ok params off key t r" "steady params off key c" "le_now_ms (lc_env c) = t"
  shows "admits key c r \<longleftrightarrow> bucket_key (lc_surface c) (lc_prefix c) = key \<and> le_fault (lc_env c) = Delivered \<and>
    1 \<le> bucket_level params off key t r"
  using check_own_key(2) [OF assms]
  by (auto simp: admits_def decision_of_def nth_or_def Let_def split: if_splits)

lemma bucket_ok_check:
  assumes "bucket_ok params off key t r" "steady params off key c" "le_now_ms (lc_env c) = t"
  shows "bucket_ok params off key t (snd (run_check c r))"
proof (cases "bucket_key (lc_surface c) (lc_prefix c) = key")
  case True
  show ?thesis
    using assms(1) bucket_level_bounds [OF assms(1)] check_own_key(1) [OF assms True]
    by (auto simp: bucket_ok_def split: if_splits)
next
  case False
  then show ?thesis using assms(1) by (simp add: bucket_ok_def check_other_key)
qed

lemma bucket_level_check:
  assumes "bucket_ok params off key t r" "steady params off key c" "le_now_ms (lc_env c) = t"
  shows "bucket_level params off key t (snd (run_check c r)) + (if admits key c r then 1 else 0)
    \<le> bucket_level params off key t r"
proof (cases "bucket_key (lc_surface c) (lc_prefix c) = key")
  case True
  show ?thesis
    using check_own_key(1) [OF assms True] admits_iff [OF assms] True bucket_level_eq [OF bucket_ok_check [OF assms] order_refl]
      bucket_level_bounds [OF assms(1)] bucket_level_eq [OF assms(1) order_refl]
    by (cases "le_fault (lc_env c)") (auto simp: refilled_simps)
next
  case False
  then have "rd_buckets (snd (run_check c r)) key = rd_buckets r key" by (rule check_other_key)
  moreover have "\<not> admits key c r" using False by (simp add: admits_def)
  ultimately show ?thesis by (simp add: bucket_level_def live_bucket_def)
qed

interpretation lua_bucket: metered "bucket_ok params off key" "bucket_level params off key"
  "refill_per_sec params / 1000" "\<lambda>c. le_now_ms (lc_env c)" "steady params off key"
  "\<lambda>c r. snd (run_check c r)" "admits key"
proof unfold_locales
  fix t t' s assume "bucket_ok params off key t s" "t \<le> t'"
  then show "bucket_ok params off key t' s" by (auto simp: bucket_ok_def)
  show "bucket_level params off key t' s
      \<le> bucket_level params off key t s + refill_per_sec params / 1000 * of_int (t' - t)"
    using bucket_level_refill [OF \<open>bucket_ok params off key t s\<close> \<open>t \<le> t'\<close>] by simp
next
  fix t s assume "bucket_ok params off key t s"
  then show "0 \<le> bucket_level params off key t s" by (rule bucket_level_bounds)
next
  fix c s assume "bucket_ok params off key (le_now_ms (lc_env c)) s" "steady params off key c"
  then show "bucket_ok params off key (le_now_ms (lc_env c)) (snd (run_check c s))"
    and "bucket_level params off key (le_now_ms (lc_env c)) (snd (run_check c s)) + (if admits key c s then 1 else 0)
      \<le> bucket_level params off key (le_now_ms (lc_env c)) s"
    by (simp_all add: bucket_ok_check bucket_level_check)
qed

section \<open>What the limiter promises\<close>

text \<open>How many of a sequence of calls the bucket \<open>key\<close> admits, and that the calls are in order of time.\<close>

fun admitted :: "string \<Rightarrow> limiter_call list \<Rightarrow> redis_db \<Rightarrow> nat" where
  "admitted key [] r = 0"
| "admitted key (c # cs) r = (if admits key c r then 1 else 0) + admitted key cs (snd (run_check c r))"

fun calls_until :: "LimitParams \<Rightarrow> int \<Rightarrow> string \<Rightarrow> int \<Rightarrow> limiter_call list \<Rightarrow> int \<Rightarrow> bool" where
  "calls_until params off key t [] t' \<longleftrightarrow> t \<le> t'"
| "calls_until params off key t (c # cs) t' \<longleftrightarrow>
     t \<le> le_now_ms (lc_env c) \<and> steady params off key c \<and> calls_until params off key (le_now_ms (lc_env c)) cs t'"

lemma admitted_granted: "admitted key cs r = lua_bucket.granted key cs r"
  by (induction cs arbitrary: r) simp_all

lemma calls_until_order:
  assumes "calls_until params off key t cs t'"
  shows "lua_bucket.in_order params off key t cs \<and> lua_bucket.end_time t cs \<le> t'"
  using assms by (induction cs arbitrary: t) auto

text \<open>Over any sequence of calls between two instants, interleaved in any way with calls for other
  keys and surfaces and with failures of the connection, a bucket admits at most its burst plus
  what its rate refills in that time.\<close>

theorem admitted_requests_bounded:
  assumes "bucket_ok params off (bucket_key surface prefix) t r"
    and "calls_until params off (bucket_key surface prefix) t cs t'"
  shows "of_nat (admitted (bucket_key surface prefix) cs r)
    \<le> of_int (burst params) + refill_per_sec params * of_int (t' - t) / 1000"
proof -
  let ?key = "bucket_key surface prefix"
  have order: "lua_bucket.in_order params off ?key t cs" "lua_bucket.end_time t cs \<le> t'"
    using calls_until_order [OF assms(2)] by simp_all
  have "of_nat (admitted ?key cs r)
      \<le> bucket_level params off ?key t r + refill_per_sec params / 1000 * of_int (lua_bucket.end_time t cs - t)"
    using lua_bucket.granted_le [OF assms(1) order(1)] by (simp add: admitted_granted)
  also have "\<dots> \<le> of_int (burst params) + refill_per_sec params / 1000 * of_int (t' - t)"
    using bucket_level_bounds(2) [OF assms(1)] assms(1) order(2)
    by (intro add_mono mult_left_mono) (simp_all add: bucket_ok_def)
  finally show ?thesis by simp
qed

definition no_buckets :: redis_db where
  "no_buckets = \<lparr>rd_buckets = Map.empty, rd_oauth = Map.empty, rd_request_logs = []\<rparr>"

definition free_rest :: LimitParams where
  "free_rest = from_config (default_config ''postgres://db'' ''http://node'') Free Rest"

definition sample_call :: "string \<Rightarrow> int \<Rightarrow> int \<Rightarrow> limiter_call" where
  "sample_call prefix now redis_now = \<lparr>lc_env = \<lparr>le_now_ms = now, le_redis_now = redis_now, le_fault = Delivered\<rparr>,
     lc_prefix = prefix, lc_surface = Rest, lc_params = free_rest\<rparr>"

lemma free_rest_values: "burst free_rest = 30" "refill_per_sec free_rest = 1"
  by (simp_all add: free_rest_def default_config_def)

lemma no_buckets_ok: "0 < burst params \<Longrightarrow> 0 < refill_per_sec params \<Longrightarrow> bucket_ok params off key t no_buckets"
  by (simp add: bucket_ok_def no_buckets_def)

theorem admitted_requests_bounded_witness:
  "of_nat (admitted (bucket_key Rest ''0a1b2c3d'') [sample_call ''0a1b2c3d'' 1000 1000, sample_call ''ffffffff'' 1500 1500,
      sample_call ''0a1b2c3d'' 1500 1500] no_buckets) \<le> (30 + 2 :: rat)"
  using admitted_requests_bounded [of free_rest 0 Rest "''0a1b2c3d''" 0 no_buckets
      "[sample_call ''0a1b2c3d'' 1000 1000, sample_call ''ffffffff'' 1500 1500, sample_call ''0a1b2c3d'' 1500 1500]" 2000]
  by (simp add: free_rest_values no_buckets_ok sample_call_def steady_def in_u64_def)

lemma refusal_shape:
  assumes "bucket_ok params off key t r" "steady params off key c" "le_now_ms (lc_env c) = t"
    and "bucket_key (lc_surface c) (lc_prefix c) = key" "fst (run_check c r) = Inr d" "\<not> dc_allowed d"
  shows "le_fault (lc_env c) = Delivered" "bucket_level params off key t r < 1"
    and "d = decision_of params [0, \<lfloor>bucket_level params off key t r\<rfloor>,
           \<lceil>(1 - bucket_level params off key t r) * 1000 / refill_per_sec params\<rceil>]"
proof -
  show f: "le_fault (lc_env c) = Delivered" using check_own_key(2) [OF assms(1-4)] assms(5) by (auto split: if_splits)
  show l: "bucket_level params off key t r < 1" using check_own_key(2) [OF assms(1-4)] assms(5,6) f
    by (auto simp: decision_of_def nth_or_def Let_def split: if_splits)
  show "d = decision_of params [0, \<lfloor>bucket_level params off key t r\<rfloor>,
           \<lceil>(1 - bucket_level params off key t r) * 1000 / refill_per_sec params\<rceil>]"
    using check_own_key(2) [OF assms(1-4)] assms(5) f l by simp
qed

lemma refusal_keeps_level:
  assumes "bucket_ok params off key t r" "steady params off key c" "le_now_ms (lc_env c) = t"
    and "bucket_key (lc_surface c) (lc_prefix c) = key" "fst (run_check c r) = Inr d" "\<not> dc_allowed d"
    and "rd_buckets r' key = rd_buckets (snd (run_check c r)) key"
  shows "bucket_ok params off key t r'" "bucket_level params off key t r' = bucket_level params off key t r"
proof -
  note shape = refusal_shape [OF assms(1-6)]
  show ok: "bucket_ok params off key t r'"
    using bucket_ok_check [OF assms(1-3)] assms(7) by (simp add: bucket_ok_def)
  show "bucket_level params off key t r' = bucket_level params off key t r"
    using bucket_level_eq [OF ok order_refl] check_own_key(1) [OF assms(1-4)] assms(7) shape(1,2)
      bucket_level_bounds [OF assms(1)]
    by (simp add: refilled_simps min_def)
qed

lemma wait_fills:
  fixes l r :: rat
  assumes "0 < r" "0 \<le> l" "l < 1" "1000 / r \<le> of_int i64_MAX"
    and "1000 * dc_retry_after_seconds (decision_of params [0, k, \<lceil>(1 - l) * 1000 / r\<rceil>]) \<le> w"
  shows "0 \<le> w" "1 \<le> l + r / 1000 * of_int w"
proof -
  let ?w = "\<lceil>(1 - l) * 1000 / r\<rceil>"
  have nonneg: "0 \<le> ?w" using assms(1,3) by (simp add: le_ceiling_iff less_le_trans [of _ 0])
  have "(1 - l) * 1000 / r \<le> 1000 / r" using assms(1,2) by (simp add: divide_right_mono)
  then have "?w \<le> i64_MAX" using assms(4) by (simp only: ceiling_le_iff)
  then have "dc_retry_after_seconds (decision_of params [0, k, ?w]) = div_ceil ?w 1000"
    using nonneg by (simp add: decision_of_def nth_or_def Let_def u64_try_from_def unwrap_or_def)
  then have wait: "?w \<le> w" using assms(5) by (simp add: div_ceil_def)
  then show "0 \<le> w" using nonneg by linarith
  from wait have "(1 - l) * 1000 / r \<le> of_int w" by (simp only: ceiling_le_iff)
  then show "1 \<le> l + r / 1000 * of_int w" using assms(1) by (simp add: field_simps)
qed

text \<open>C17: the waiting time announced with a refusal is enough: a call for the same bucket made at
  least that many seconds later is admitted, as long as the same bucket was not charged in
  between.\<close>

theorem announced_wait_suffices:
  assumes "bucket_ok params off (bucket_key surface prefix) t r" "1000 / refill_per_sec params \<le> of_int i64_MAX"
    and "steady params off (bucket_key surface prefix) c" "le_now_ms (lc_env c) = t"
    and "lc_surface c = surface" "lc_prefix c = prefix"
    and "fst (run_check c r) = Inr d" "\<not> dc_allowed d"
    and "steady params off (bucket_key surface prefix) c'" "lc_surface c' = surface" "lc_prefix c' = prefix"
    and "t + 1000 * dc_retry_after_seconds d \<le> le_now_ms (lc_env c')" "le_fault (lc_env c') = Delivered"
    and "rd_buckets r' (bucket_key surface prefix) = rd_buckets (snd (run_check c r)) (bucket_key surface prefix)"
  shows "\<exists>d'. fst (run_check c' r') = Inr d' \<and> dc_allowed d'"
proof -
  let ?key = "bucket_key surface prefix"
  let ?l = "bucket_level params off ?key t r" and ?t' = "le_now_ms (lc_env c')"
  have key: "bucket_key (lc_surface c) (lc_prefix c) = ?key" "bucket_key (lc_surface c') (lc_prefix c') = ?key"
    using assms by simp_all
  have pos: "0 < refill_per_sec params" "1 \<le> burst params" using assms(1) by (auto simp: bucket_ok_def)
  note shape = refusal_shape [OF assms(1,3,4) key(1) assms(7,8)]
  note kept = refusal_keeps_level [OF assms(1,3,4) key(1) assms(7,8,14)]
  have wait: "1000 * dc_retry_after_seconds d \<le> ?t' - t" using assms(12) by simp
  note fill = wait_fills [OF pos(1) bucket_level_bounds(1) [OF assms(1)] shape(2) assms(2) wait [unfolded shape(3)]]
  then have le: "t \<le> ?t'" by simp
  have "1 \<le> bucket_level params off ?key ?t' r'"
    using bucket_level_refill [OF kept(1) le] kept(2) fill(2) pos(2) by simp
  moreover have "bucket_ok params off ?key ?t' r'" using lua_bucket.inv_later [OF kept(1) le] .
  ultimately have "admits ?key c' r'" using admits_iff [OF _ assms(9) refl] key(2) assms(13) by blast
  then show ?thesis by (auto simp: admits_def split: sum.splits)
qed

definition drained :: redis_db where
  "drained = no_buckets\<lparr>rd_buckets := [bucket_key Rest ''0a1b2c3d'' \<mapsto>
     \<lparr>bk_tokens = 0, bk_last = 1000, bk_expires = 61000\<rparr>]\<rparr>"

lemma drained_ok: "bucket_ok free_rest 0 (bucket_key Rest ''0a1b2c3d'') 1000 drained"
  by (simp add: bucket_ok_def drained_def no_buckets_def free_rest_values bucket_ttl_ms_def)

lemma drained_refuses:
  "fst (run_check (sample_call ''0a1b2c3d'' 1000 1000) drained) =
     Inr \<lparr>dc_allowed = False, dc_remaining = 0, dc_retry_after_seconds = 1, dc_limit = 30\<rparr>"
  by (simp add: run_check_def check_def sample_call_def TOKEN_BUCKET_LUA_def Let_def now_ms_of_def u64_try_from_def unwrap_or_def
      live_bucket_def drained_def no_buckets_def free_rest_values refilled_def decision_of_def nth_or_def u32_try_from_def div_ceil_def)

theorem announced_wait_suffices_witness:
  "\<exists>d'. fst (run_check (sample_call ''0a1b2c3d'' 2000 2000)
      (snd (run_check (sample_call ''0a1b2c3d'' 1000 1000) drained))) = Inr d' \<and> dc_allowed d'"
  using announced_wait_suffices [OF drained_ok, of "sample_call ''0a1b2c3d'' 1000 1000" _ "sample_call ''0a1b2c3d'' 2000 2000"
      "snd (run_check (sample_call ''0a1b2c3d'' 1000 1000) drained)", OF _ _ _ _ _ drained_refuses]
  by (simp add: free_rest_values sample_call_def steady_def in_u64_def)

section \<open>Servers with different clocks\<close>

text \<open>
  Two servers share Redis; the clock of one is a second ahead of the other's.  Requests alternate
  between them at one instant of the Redis clock.
\<close>

definition skewed_calls :: "nat \<Rightarrow> limiter_call list" where
  "skewed_calls n = concat (replicate n [sample_call ''0a1b2c3d'' 1000 5000, sample_call ''0a1b2c3d'' 2000 5000])"

lemma skewed_bucket:
  assumes "0 \<le> now" "now \<le> 2000"
    and "rd_buckets r (bucket_key Rest ''0a1b2c3d'') = None \<or>
      (\<exists>b. rd_buckets r (bucket_key Rest ''0a1b2c3d'') = Some b \<and> bk_expires b = 65000 \<and> 0 \<le> bk_tokens b)"
  shows "\<exists>b. rd_buckets (snd (run_check (sample_call ''0a1b2c3d'' now 5000) r)) (bucket_key Rest ''0a1b2c3d'') = Some b
      \<and> bk_last b = now \<and> bk_expires b = 65000 \<and> 0 \<le> bk_tokens b"
  using assms
  by (auto simp: run_check_def check_def sample_call_def TOKEN_BUCKET_LUA_def Let_def now_ms_of_def u64_try_from_def unwrap_or_def
      store_bucket_def bucket_ttl_ms_def free_rest_values refilled_def live_bucket_def min_def max_def split: option.splits)

lemma fast_clock_admitted:
  assumes "rd_buckets r (bucket_key Rest ''0a1b2c3d'') = Some b" "bk_last b = 1000" "bk_expires b = 65000" "0 \<le> bk_tokens b"
  shows "admits (bucket_key Rest ''0a1b2c3d'') (sample_call ''0a1b2c3d'' 2000 5000) r"
  using assms
  by (simp add: admits_def run_check_def check_def sample_call_def TOKEN_BUCKET_LUA_def Let_def now_ms_of_def u64_try_from_def unwrap_or_def
      free_rest_values refilled_def live_bucket_def decision_of_def nth_or_def min_def)

lemma skewed_admitted:
  assumes "rd_buckets r (bucket_key Rest ''0a1b2c3d'') = None \<or>
      (\<exists>b. rd_buckets r (bucket_key Rest ''0a1b2c3d'') = Some b \<and> bk_expires b = 65000 \<and> 0 \<le> bk_tokens b)"
  shows "n \<le> admitted (bucket_key Rest ''0a1b2c3d'') (skewed_calls n) r"
  using assms
proof (induction n arbitrary: r)
  case (Suc n)
  let ?key = "bucket_key Rest ''0a1b2c3d''"
  let ?c = "sample_call ''0a1b2c3d'' 1000 5000" and ?c' = "sample_call ''0a1b2c3d'' 2000 5000"
  let ?r = "snd (run_check ?c r)" and ?r' = "snd (run_check ?c' (snd (run_check ?c r)))"
  obtain b where b: "rd_buckets ?r ?key = Some b" "bk_last b = 1000" "bk_expires b = 65000" "0 \<le> bk_tokens b"
    using skewed_bucket [OF _ _ Suc.prems, of 1000] by auto
  obtain b' where "rd_buckets ?r' ?key = Some b'" "bk_expires b' = 65000" "0 \<le> bk_tokens b'"
    using skewed_bucket [of 2000 ?r] b by auto
  then have "n \<le> admitted ?key (skewed_calls n) ?r'" by (intro Suc.IH) blast
  then show ?case using fast_clock_admitted [OF b] by (simp add: skewed_calls_def)
qed simp

text \<open>C23: with two servers whose clocks differ by one second, requests that alternate between them
  at a single instant of real time are admitted without limit although the bucket holds thirty
  tokens: every return to the faster clock refills the bucket again.\<close>

theorem clock_skew_defeats_limit:
  "list_all (\<lambda>c. le_redis_now (lc_env c) = 5000 \<and> le_now_ms (lc_env c) \<in> {1000, 2000} \<and> lc_params c = free_rest)
     (skewed_calls n) \<and>
   burst free_rest = 30 \<and> n \<le> admitted (bucket_key Rest ''0a1b2c3d'') (skewed_calls n) no_buckets"
proof (intro conjI)
  show "n \<le> admitted (bucket_key Rest ''0a1b2c3d'') (skewed_calls n) no_buckets"
    by (rule skewed_admitted) (simp add: no_buckets_def)
  show "list_all (\<lambda>c. le_redis_now (lc_env c) = 5000 \<and> le_now_ms (lc_env c) \<in> {1000, 2000} \<and> lc_params c = free_rest)
     (skewed_calls n)"
    by (auto simp: skewed_calls_def sample_call_def list_all_iff)
qed (rule free_rest_values)

end
