(* ===== verification/SessionAuth.thy ===== *)
theory SessionAuth
  imports Auth RateLimit
begin

text \<open>
  \<^verbatim>\<open>api/src/session.rs\<close>: dashboard sessions.  A cookie value is hashed and looked up among the
  unexpired rows of \<^verbatim>\<open>sessions\<close>; the update of \<^verbatim>\<open>last_seen_at\<close> is a queued task.  SHA-256,
  base64 and hexadecimal encoding are the library \<open>dash_lib\<close>.
\<close>

record dash_lib =
  dl_sha256 :: "string \<Rightarrow> bytes"
  dl_hex_encode :: "bytes \<Rightarrow> string"
  dl_base64 :: "bytes \<Rightarrow> string"
  dl_uuid_parse :: "string \<Rightarrow> uuid option"
  dl_uuid_str :: "uuid \<Rightarrow> string"
  dl_keys :: key_lib

text \<open>
  What the process shares between requests beyond the key cache: queued session touches and Redis,
  which may be absent.
\<close>

record api_world = auth_world +
  pw_seen :: "string list"
  pw_redis :: "redis_db option"

record session_env =
  sn_now :: timestamp
  sn_fault_session :: bool
  sn_fault_user :: bool

definition COOKIE_NAME :: string where "COOKIE_NAME = ''cellora_session''"
definition TOKEN_BYTES :: nat where "TOKEN_BYTES = 32"

record IssuedToken =
  it_plaintext :: string
  it_hash :: string

definition hash_token :: "dash_lib \<Rightarrow> string \<Rightarrow> string" where
  "hash_token lib token = dl_hex_encode lib (dl_sha256 lib token)"

definition generate_token :: "dash_lib \<Rightarrow> bytes \<Rightarrow> IssuedToken" where
  "generate_token lib random = (let plaintext = dl_base64 lib random
     in \<lparr>it_plaintext = plaintext, it_hash = hash_token lib plaintext\<rparr>)"

text \<open>The first non-empty cookie of a name among the pairs of the header.\<close>

fun find_cookie :: "string \<Rightarrow> string list \<Rightarrow> string option" where
  "find_cookie name [] = None"
| "find_cookie name (pair # rest) = (case split_once (CHR ''='') (trim pair) of
     None \<Rightarrow> find_cookie name rest
   | Some (key, v) \<Rightarrow> if key = name \<and> v \<noteq> [] then Some v else find_cookie name rest)"

definition cookie_value :: "http_request \<Rightarrow> string \<Rightarrow> string option" where
  "cookie_value rq name = Option.bind (header_get ''cookie'' rq) (\<lambda>h.
     Option.bind (to_str h) (\<lambda>raw. find_cookie name (split_char (CHR '';'') raw)))"

definition extract_session_cookie :: "http_request \<Rightarrow> string option" where
  "extract_session_cookie rq = cookie_value rq COOKIE_NAME"

definition session_resolve :: "session_env \<Rightarrow> string \<Rightarrow> account_db \<Rightarrow> ApiError + AuthenticatedSession" where
  "session_resolve env hash a =
     and_then (map_err from_db (sessions_find_active (sn_fault_session env) (sn_now env) hash a)) (\<lambda>found.
     and_then (ok_or found (Unauthorized ''unknown or expired session'')) (\<lambda>session.
     and_then (map_err from_db (users_find_by_id (sn_fault_user env) (se_user_id session) a)) (\<lambda>found.
     and_then (ok_or found (Unauthorized ''orphaned session'')) (\<lambda>user.
     Inr \<lparr>as_session = session, as_user = user\<rparr>))))"

definition session_middleware ::
    "dash_lib \<Rightarrow> session_env \<Rightarrow> ('b, 'a api_world_scheme) service \<Rightarrow> ('b, 'a api_world_scheme) service" where
  "session_middleware lib env next_run rq w = (case extract_session_cookie rq of
     None \<Rightarrow> (error_response (Unauthorized ''missing session''), w)
   | Some token \<Rightarrow>
       (let hash = hash_token lib token in
        case session_resolve env hash (aw_accounts w) of
          Inl err \<Rightarrow> (error_response err, w)
        | Inr resolved \<Rightarrow> next_run (rq\<lparr>rq_session := Some resolved\<rparr>) (w\<lparr>pw_seen := pw_seen w @ [hash]\<rparr>)))"

definition run_seen :: "bool \<Rightarrow> timestamp \<Rightarrow> 'a api_world_scheme \<Rightarrow> 'a api_world_scheme" where
  "run_seen fault now w = (case pw_seen w of
     [] \<Rightarrow> w
   | hash # rest \<Rightarrow> (case touch_last_seen fault now hash (aw_accounts w) of
        Inl _ \<Rightarrow> w\<lparr>pw_seen := rest\<rparr>
      | Inr a \<Rightarrow> w\<lparr>pw_seen := rest, aw_accounts := a\<rparr>))"

section \<open>Facts\<close>

lemma session_resolve_Inr:
  "session_resolve env hash a = Inr s \<longleftrightarrow>
     \<not> sn_fault_session env \<and> \<not> sn_fault_user env \<and>
     find (\<lambda>x. se_token_hash x = hash \<and> se_expires_at x > sn_now env) (ac_sessions a) = Some (as_session s) \<and>
     find (\<lambda>u. us_id u = se_user_id (as_session s)) (ac_users a) = Some (as_user s)"
  by (auto simp: session_resolve_def sessions_find_active_def users_find_by_id_def res_simps)

lemma session_resolve_Inl:
  "session_resolve env hash a = Inl e \<Longrightarrow> ApiError_status e \<in> {401, 500}"
  by (auto simp: session_resolve_def sessions_find_active_def users_find_by_id_def from_db_def and_then_def map_err_def ok_or_def
      split: sum.splits option.splits if_splits)

lemma session_found:
  assumes "session_resolve env hash a = Inr s"
  shows "as_session s \<in> set (ac_sessions a)" "se_token_hash (as_session s) = hash" "Session_is_active (as_session s) (sn_now env)"
    "as_user s \<in> set (ac_users a)" "us_id (as_user s) = se_user_id (as_session s)"
  using assms unfolding session_resolve_Inr by (auto simp: find_Some_iff Session_is_active_def)

lemma session_resolve_unique:
  assumes "account_ok a" "s \<in> set (ac_sessions a)" "Session_is_active s (sn_now env)" "\<not> sn_fault_session env" "\<not> sn_fault_user env"
  shows "\<exists>u. session_resolve env (se_token_hash s) a = Inr \<lparr>as_session = s, as_user = u\<rparr> \<and> us_id u = se_user_id s"
proof -
  have uniq: "\<And>x. x \<in> set (ac_sessions a) \<Longrightarrow> se_token_hash x = se_token_hash s \<Longrightarrow> x = s"
    using assms(1,2) by (auto simp: account_ok_def distinct_map inj_on_def)
  have "find (\<lambda>x. se_token_hash x = se_token_hash s \<and> se_expires_at x > sn_now env) (ac_sessions a) \<noteq> None"
    unfolding find_None_iff using assms(2,3) by (auto simp: Session_is_active_def)
  then obtain x where x: "find (\<lambda>x. se_token_hash x = se_token_hash s \<and> se_expires_at x > sn_now env) (ac_sessions a) = Some x"
    by auto
  then have "x = s" by (intro uniq) (auto simp: find_Some_iff)
  with x have 1: "find (\<lambda>x. se_token_hash x = se_token_hash s \<and> se_expires_at x > sn_now env) (ac_sessions a) = Some s" by simp
  have "se_user_id s \<in> user_ids a" using assms(1,2) by (auto simp: account_ok_def list_all_iff)
  then have "find (\<lambda>u. us_id u = se_user_id s) (ac_users a) \<noteq> None" unfolding find_None_iff by (auto simp: user_ids_def)
  then obtain u where 2: "find (\<lambda>u. us_id u = se_user_id s) (ac_users a) = Some u" by auto
  then have "us_id u = se_user_id s" by (auto simp: find_Some_iff)
  with 1 2 show ?thesis using assms(4,5) by (auto simp: session_resolve_Inr)
qed

lemma split_char_free: "c \<notin> set s \<Longrightarrow> split_char c s = [s]"
  by (induction s) auto

lemma dropWhile_none: "(\<And>c. c \<in> set s \<Longrightarrow> \<not> P c) \<Longrightarrow> dropWhile P s = s"
  by (cases s) simp_all

lemma trim_free: "(\<And>c. c \<in> set s \<Longrightarrow> \<not> is_ws c) \<Longrightarrow> trim s = s"
proof -
  assume none: "\<And>c. c \<in> set s \<Longrightarrow> \<not> is_ws c"
  have "dropWhile is_ws s = s" "dropWhile is_ws (rev s) = rev s"
    by (rule dropWhile_none, use none in simp)+
  then show ?thesis by (simp add: trim_def)
qed

text \<open>What a browser sends back for a cookie of visible characters.\<close>

definition visible :: "char \<Rightarrow> bool" where
  "visible c \<longleftrightarrow> (let k = of_char c :: nat in (32 \<le> k \<and> k < 127) \<or> k = 9)"

definition cookie_char :: "char \<Rightarrow> bool" where
  "cookie_char c \<longleftrightarrow> visible c \<and> \<not> is_ws c \<and> c \<noteq> CHR '';''"

definition cookie_token :: "string \<Rightarrow> bool" where
  "cookie_token v \<longleftrightarrow> v \<noteq> [] \<and> list_all cookie_char v"

lemma cookie_round_trip:
  assumes "header_get ''cookie'' rq = Some (name @ ''='' @ v)" "cookie_token v" "cookie_token name" "CHR ''='' \<notin> set name"
  shows "cookie_value rq name = Some v"
proof -
  let ?raw = "name @ ''='' @ v"
  have eq: "cookie_char (CHR ''='')" by (simp add: cookie_char_def visible_def is_ws_def)
  have chars: "cookie_char c" if "c \<in> set ?raw" for c
    using that assms(2,3) eq by (auto simp: cookie_token_def list_all_iff)
  then have "list_all visible ?raw" unfolding list_all_iff cookie_char_def by blast
  then have "to_str ?raw = Some ?raw" unfolding to_str_def visible_def by (simp only: if_True)
  moreover have "split_char (CHR '';'') ?raw = [?raw]"
    using chars unfolding cookie_char_def by (intro split_char_free) blast
  moreover have "trim ?raw = ?raw" using chars unfolding cookie_char_def by (intro trim_free) blast
  moreover have "split_once (CHR ''='') ?raw = Some (name, v)" using assms(4) by (simp add: split_once_Some)
  ultimately show ?thesis using assms(1,2) by (simp add: cookie_value_def cookie_token_def del: append_Cons)
qed

end
