(* ===== verification/ApiEvents.thy ===== *)
theory ApiEvents
  imports Events Hex
begin

text \<open>
  \<^verbatim>\<open>api/src/events.rs\<close> and the subscriptions of \<^verbatim>\<open>api/src/graphql.rs\<close>: the listener that
  forwards Redis messages to the process-wide broadcast channel, as a state machine over what the
  connection delivers, and the streams a client subscribes to.  \<^verbatim>\<open>serde_json::from_str\<close> is an
  argument.
\<close>

datatype ApiEvent = BlockMined BlockMinedEvent | CellCreated CellCreatedEvent

section \<open>The listener\<close>

record event_decoder =
  de_block :: "string \<Rightarrow> BlockMinedEvent option"
  de_cell :: "string \<Rightarrow> CellCreatedEvent option"

text \<open>
  What happens to the listener: a failed connection attempt (and whether shutdown is requested
  during the wait), a failed subscription, a subscribed connection, a message (the payload is
  absent when it is not a string), the end of the stream, a shutdown request.
\<close>

datatype listener_input = ConnectFailed bool | SubscribeFailed | Subscribed
  | Message string "string option" | StreamEnded | Shutdown

datatype listener_state = Connecting nat | Streaming | Stopped

record listener_output =
  lo_sent :: "ApiEvent list"
  lo_sleeps :: "nat list"

definition quiet :: listener_output where
  "quiet = \<lparr>lo_sent = [], lo_sleeps = []\<rparr>"

definition decode_message :: "event_decoder \<Rightarrow> string \<Rightarrow> string option \<Rightarrow> ApiEvent list" where
  "decode_message d channel_name payload = (case payload of
     None \<Rightarrow> []
   | Some p \<Rightarrow>
       if channel_name = BLOCKS_CHANNEL then (case de_block d p of Some e \<Rightarrow> [BlockMined e] | None \<Rightarrow> [])
       else if channel_name = CELLS_CHANNEL then (case de_cell d p of Some e \<Rightarrow> [CellCreated e] | None \<Rightarrow> [])
       else [])"

fun listener_step :: "event_decoder \<Rightarrow> listener_state \<Rightarrow> listener_input \<Rightarrow> listener_state \<times> listener_output" where
  "listener_step d (Connecting backoff) (ConnectFailed cancelled) =
     (if cancelled then Stopped else Connecting (min (backoff * 2) 30), quiet\<lparr>lo_sleeps := [backoff]\<rparr>)"
| "listener_step d (Connecting backoff) SubscribeFailed = (Connecting backoff, quiet\<lparr>lo_sleeps := [1]\<rparr>)"
| "listener_step d (Connecting backoff) Subscribed = (Streaming, quiet)"
| "listener_step d Streaming (Message channel_name payload) =
     (Streaming, quiet\<lparr>lo_sent := decode_message d channel_name payload\<rparr>)"
| "listener_step d Streaming StreamEnded = (Connecting 1, quiet)"
| "listener_step d Streaming Shutdown = (Stopped, quiet)"
| "listener_step d s i = (s, quiet)"

fun run_event_listener :: "event_decoder \<Rightarrow> listener_state \<Rightarrow> listener_input list \<Rightarrow> listener_state \<times> ApiEvent list" where
  "run_event_listener d s [] = (s, [])"
| "run_event_listener d s (i # is) =
     (let (s', out) = listener_step d s i; (s'', sent) = run_event_listener d s' is in (s'', lo_sent out @ sent))"

section \<open>Subscriptions\<close>

datatype recv_result = Received ApiEvent | Lagged nat | Closed

record GraphBlockMinedEvent =
  gm_number :: i64
  gm_hash :: string
  gm_parent_hash :: string
  gm_timestamp :: u64

definition graph_block_event :: "BlockMinedEvent \<Rightarrow> GraphBlockMinedEvent" where
  "graph_block_event e = \<lparr>gm_number = bm_number e, gm_hash = bm_hash e, gm_parent_hash = bm_parent_hash e,
     gm_timestamp = bm_timestamp e\<rparr>"

record GraphCellCreatedEvent =
  ge_tx_hash :: string
  ge_output_index :: i32
  ge_block_number :: i64
  ge_lock_code_hash :: string
  ge_lock_hash_type :: i16
  ge_lock_args :: string
  ge_lock_hash :: string
  ge_type_code_hash :: "string option"
  ge_type_hash_type :: "i16 option"
  ge_type_args :: "string option"
  ge_type_hash :: "string option"
  ge_capacity_shannons :: i64

definition graph_cell_event :: "CellCreatedEvent \<Rightarrow> GraphCellCreatedEvent" where
  "graph_cell_event e =
     \<lparr>ge_tx_hash = ce_tx_hash e, ge_output_index = ce_output_index e, ge_block_number = ce_block_number e,
      ge_lock_code_hash = ce_lock_code_hash e, ge_lock_hash_type = ce_lock_hash_type e, ge_lock_args = ce_lock_args e,
      ge_lock_hash = ce_lock_hash e, ge_type_code_hash = ce_type_code_hash e, ge_type_hash_type = ce_type_hash_type e,
      ge_type_args = ce_type_args e, ge_type_hash = ce_type_hash e, ge_capacity_shannons = ce_capacity_shannons e\<rparr>"

text \<open>The items a subscriber is yielded: the stream ends at the first error of the channel.\<close>

fun sub_blocks_latest :: "recv_result list \<Rightarrow> GraphBlockMinedEvent list" where
  "sub_blocks_latest (Received (BlockMined block) # rest) = graph_block_event block # sub_blocks_latest rest"
| "sub_blocks_latest (Received (CellCreated _) # rest) = sub_blocks_latest rest"
| "sub_blocks_latest (_ # rest) = []"
| "sub_blocks_latest [] = []"

fun sub_cells :: "string \<Rightarrow> recv_result list \<Rightarrow> GraphCellCreatedEvent list" where
  "sub_cells lock_hash (Received (CellCreated cell) # rest) =
     (if ce_lock_hash cell = lock_hash then graph_cell_event cell # sub_cells lock_hash rest
      else sub_cells lock_hash rest)"
| "sub_cells lock_hash (Received (BlockMined _) # rest) = sub_cells lock_hash rest"
| "sub_cells lock_hash (_ # rest) = []"
| "sub_cells lock_hash [] = []"

section \<open>From a committed block to its subscribers\<close>

definition as_messages :: "message list \<Rightarrow> listener_input list" where
  "as_messages ms = map (\<lambda>(channel, payload). Message channel (Some payload)) ms"

text \<open>Decoding undoes serialising, on the events of a block.\<close>

definition decodes :: "event_lib \<Rightarrow> event_decoder \<Rightarrow> 'a BlockRow_scheme \<Rightarrow> CellRow list \<Rightarrow> bool" where
  "decodes lib d block cells \<longleftrightarrow>
     (let e = block_mined_event (hex_encode lib) block in Option.bind (ser_block lib e) (de_block d) = Some e) \<and>
     list_all (\<lambda>c. let e = cell_created_event (hex_encode lib) c in Option.bind (ser_cell lib e) (de_cell d) = Some e) cells"

definition events_of :: "(bytes \<Rightarrow> string) \<Rightarrow> 'a BlockRow_scheme \<Rightarrow> CellRow list \<Rightarrow> ApiEvent list" where
  "events_of hex block cells = BlockMined (block_mined_event hex block) # map (\<lambda>c. CellCreated (cell_created_event hex c)) cells"

lemma run_event_listener_append:
  "run_event_listener d s (is @ js) =
     (let (s', xs) = run_event_listener d s is; (s'', ys) = run_event_listener d s' js in (s'', xs @ ys))"
  by (induction "is" arbitrary: s) (auto simp: Let_def split: prod.splits)

lemma channels_differ: "CELLS_CHANNEL \<noteq> BLOCKS_CHANNEL"
  by (simp add: BLOCKS_CHANNEL_def CELLS_CHANNEL_def)

lemma listener_cells:
  assumes "list_all (\<lambda>c. let e = cell_created_event hex c in Option.bind (ser_cell lib e) (de_cell d) = Some e) cells"
  shows "run_event_listener d Streaming (as_messages (List.map_filter (\<lambda>cell. map_option (\<lambda>p. (CELLS_CHANNEL, p))
      (ser_cell lib (cell_created_event hex cell))) cells)) =
    (Streaming, map (\<lambda>c. CellCreated (cell_created_event hex c)) cells)"
  using assms
proof (induction cells)
  case (Cons c cs)
  then obtain p where "ser_cell lib (cell_created_event hex c) = Some p" "de_cell d p = Some (cell_created_event hex c)"
    by (auto simp: bind_eq_Some_conv Let_def)
  then show ?case using Cons
    by (simp add: as_messages_def map_filter_simps decode_message_def channels_differ quiet_def Let_def)
qed (simp add: as_messages_def map_filter_simps)

lemma listener_forwards:
  assumes "decodes lib d block cells"
  shows "run_event_listener d Streaming (as_messages (publish_block_and_cells lib block cells)) =
    (Streaming, events_of (hex_encode lib) block cells)"
proof -
  obtain p where "ser_block lib (block_mined_event (hex_encode lib) block) = Some p"
    "de_block d p = Some (block_mined_event (hex_encode lib) block)"
    using assms by (auto simp: decodes_def bind_eq_Some_conv Let_def)
  then show ?thesis using listener_cells [of "hex_encode lib" lib d cells] assms
    by (simp add: publish_block_and_cells_def as_messages_def decode_message_def events_of_def quiet_def decodes_def Let_def)
qed

lemma sub_cells_events:
  "sub_cells lock_hash (map Received (map (\<lambda>c. CellCreated (cell_created_event hex c)) cells)) =
     map (\<lambda>c. graph_cell_event (cell_created_event hex c)) (filter (\<lambda>c. hex (cr_lock_hash c) = lock_hash) cells)"
  by (induction cells) (simp_all add: cell_created_event_def)

lemma sub_blocks_events:
  "sub_blocks_latest (map Received (map (\<lambda>c. CellCreated (f c)) cells)) = []"
  by (induction cells) simp_all


text \<open>C24: a client that subscribes to cells with a lock hash in the API's own \<^verbatim>\<open>0x\<close>-prefixed form is
  never yielded anything, whatever blocks the indexer publishes.\<close>

theorem prefixed_subscription_is_silent:
  assumes "decodes lib d block cells" "hex_encode lib = hex_lower"
  shows "\<exists>sent. run_event_listener d Streaming (as_messages (publish_block_and_cells lib block cells)) = (Streaming, sent) \<and>
    sub_cells (encode_prefixed lock_hash) (map Received sent) = []"
proof -
  have "CHR ''x'' \<notin> set (hex_lower bs)" for bs
    using hex_lower_digits [of bs] by (auto simp: list_all_iff is_ascii_hexdigit_def)
  then have "hex_lower x \<noteq> encode_prefixed y" for x y
    unfolding encode_prefixed_eq by (metis append_Cons list.set_intros(1) list.set_intros(2))
  then show ?thesis using listener_forwards [OF assms(1)] assms(2)
    by (simp add: events_of_def sub_cells_events del: map_map)
qed

section \<open>A sample block\<close>

definition sample_published_block :: BlockRow where
  "sample_published_block = \<lparr>br_number = 5, br_hash = [1], br_parent_hash = [2], br_timestamp_ms = 9, br_epoch = 0,
     br_transactions_count = 1, br_proposals_count = 0, br_uncles_count = 0, br_nonce = 0, br_dao = []\<rparr>"

definition sample_published_cell :: CellRow where
  "sample_published_cell = \<lparr>cr_tx_hash = [3], cr_output_index = 0, cr_block_number = 5, cr_capacity_shannons = 100,
     cr_lock_code_hash = [4], cr_lock_hash_type = Type, cr_lock_args = [], cr_lock_hash = [171], cr_type_code_hash = None,
     cr_type_hash_type = None, cr_type_args = None, cr_type_hash = None, cr_data = []\<rparr>"

definition json_lib :: event_lib where
  "json_lib = \<lparr>hex_encode = hex_lower, ser_block = (\<lambda>e. Some (bm_hash e)), ser_cell = (\<lambda>e. Some (ce_tx_hash e)), ser_reorg = (\<lambda>e. None)\<rparr>"

definition json_decoder :: event_decoder where
  "json_decoder =
     \<lparr>de_block = (\<lambda>p. let e = block_mined_event hex_lower sample_published_block in if p = bm_hash e then Some e else None),
      de_cell = (\<lambda>p. let e = cell_created_event hex_lower sample_published_cell in if p = ce_tx_hash e then Some e else None)\<rparr>"

lemma json_decodes: "decodes json_lib json_decoder sample_published_block [sample_published_cell]"
  by (simp add: decodes_def json_lib_def json_decoder_def Let_def)


theorem prefixed_subscription_is_silent_witness:
  "\<exists>sent. run_event_listener json_decoder Streaming
      (as_messages (publish_block_and_cells json_lib sample_published_block [sample_published_cell])) = (Streaming, sent) \<and>
    sub_cells (encode_prefixed [171]) (map Received sent) = []"
  by (rule prefixed_subscription_is_silent [OF json_decodes]) (simp add: json_lib_def)

end
