(* ===== verification/Webhooks.thy ===== *)
theory Webhooks
  imports AccountDb ApiEvents
begin

unbundle bit_operations_syntax

text \<open>
  \<^verbatim>\<open>api/src/webhooks.rs\<close>: the dispatcher that fans indexer events out to registered webhooks, the
  signing of deliveries, and the vetting of destination addresses.  URL parsing, name resolution,
  serialisation and HMAC-SHA256 are arguments; the classification of addresses is the source's,
  on octets and segments as machine words, with the standard library's predicates written out.
\<close>

section \<open>Addresses\<close>

datatype IpAddr = V4 "8 word" "8 word" "8 word" "8 word"
  | V6 "16 word" "16 word" "16 word" "16 word" "16 word" "16 word" "16 word" "16 word"

record SocketAddr =
  sa_ip :: IpAddr
  sa_port :: u16

text \<open>The predicates of \<^verbatim>\<open>std::net::Ipv4Addr\<close>.\<close>

definition v4_is_loopback :: "8 word \<Rightarrow> bool" where
  "v4_is_loopback a \<longleftrightarrow> a = 127"

definition v4_is_private :: "8 word \<Rightarrow> 8 word \<Rightarrow> bool" where
  "v4_is_private a b \<longleftrightarrow> a = 10 \<or> (a = 172 \<and> 16 \<le> b \<and> b \<le> 31) \<or> (a = 192 \<and> b = 168)"

definition v4_is_link_local :: "8 word \<Rightarrow> 8 word \<Rightarrow> bool" where
  "v4_is_link_local a b \<longleftrightarrow> a = 169 \<and> b = 254"

definition v4_is_documentation :: "8 word \<Rightarrow> 8 word \<Rightarrow> 8 word \<Rightarrow> bool" where
  "v4_is_documentation a b c \<longleftrightarrow> (a = 192 \<and> b = 0 \<and> c = 2) \<or> (a = 198 \<and> b = 51 \<and> c = 100) \<or> (a = 203 \<and> b = 0 \<and> c = 113)"

definition is_blocked_v4 :: "8 word \<Rightarrow> 8 word \<Rightarrow> 8 word \<Rightarrow> 8 word \<Rightarrow> bool" where
  "is_blocked_v4 a b c d \<longleftrightarrow>
     v4_is_loopback a \<or> v4_is_private a b \<or> v4_is_link_local a b \<or> (a = 0 \<and> b = 0 \<and> c = 0 \<and> d = 0) \<or>
     (a = 255 \<and> b = 255 \<and> c = 255 \<and> d = 255) \<or> v4_is_documentation a b c \<or> a = 0 \<or> 240 \<le> a \<or>
     (a = 100 \<and> b AND 0xc0 = 0x40)"

text \<open>\<^verbatim>\<open>Ipv6Addr::to_ipv4_mapped\<close>: the addresses \<^verbatim>\<open>::ffff:a.b.c.d\<close>.\<close>

fun is_blocked_ip :: "IpAddr \<Rightarrow> bool" where
  "is_blocked_ip (V4 a b c d) = is_blocked_v4 a b c d"
| "is_blocked_ip (V6 s0 s1 s2 s3 s4 s5 s6 s7) =
     (if s0 = 0 \<and> s1 = 0 \<and> s2 = 0 \<and> s3 = 0 \<and> s4 = 0 \<and> s5 = 0xffff
      then is_blocked_v4 (ucast (drop_bit 8 s6)) (ucast s6) (ucast (drop_bit 8 s7)) (ucast s7)
      else (s0 = 0 \<and> s1 = 0 \<and> s2 = 0 \<and> s3 = 0 \<and> s4 = 0 \<and> s5 = 0 \<and> s6 = 0 \<and> s7 = 1) \<or>
           (s0 = 0 \<and> s1 = 0 \<and> s2 = 0 \<and> s3 = 0 \<and> s4 = 0 \<and> s5 = 0 \<and> s6 = 0 \<and> s7 = 0) \<or>
           s0 AND 0xff00 = 0xff00 \<or> s0 AND 0xfe00 = 0xfc00 \<or> s0 AND 0xffc0 = 0xfe80)"

section \<open>Vetting a URL\<close>

record parsed_url =
  pu_scheme :: string
  pu_host :: "string option"
  pu_port :: "u16 option"

record net_lib =
  nl_parse_url :: "string \<Rightarrow> parsed_url option"
  nl_lookup_host :: "string \<Rightarrow> u16 \<Rightarrow> SocketAddr list option"
  nl_client_builds :: bool

fun vet_addrs :: "SocketAddr list \<Rightarrow> string + unit" where
  "vet_addrs [] = Inr ()"
| "vet_addrs (addr # rest) =
     (if is_blocked_ip (sa_ip addr) then Inl ''url resolves to a non-public address'' else vet_addrs rest)"

definition resolve_url :: "net_lib \<Rightarrow> string \<Rightarrow> string + SocketAddr list" where
  "resolve_url net raw =
     and_then (ok_or (nl_parse_url net raw) ''invalid url'') (\<lambda>url.
     if pu_scheme url \<noteq> ''http'' \<and> pu_scheme url \<noteq> ''https'' then Inl ''scheme must be http or https''
     else and_then (ok_or (pu_host url) ''url has no host'') (\<lambda>host.
     ok_or (nl_lookup_host net host (unwrap_or (pu_port url) 443)) ''could not resolve host''))"

definition validate_webhook_url :: "net_lib \<Rightarrow> string \<Rightarrow> string + unit" where
  "validate_webhook_url net raw =
     and_then (resolve_url net raw) (\<lambda>addrs.
     and_then (vet_addrs addrs) (\<lambda>_.
     if addrs = [] then Inl ''url did not resolve to any address'' else Inr ()))"

text \<open>The address the client of a delivery is pinned to.\<close>

fun pin_first :: "SocketAddr option \<Rightarrow> SocketAddr list \<Rightarrow> string + SocketAddr option" where
  "pin_first pinned [] = Inr pinned"
| "pin_first pinned (addr # rest) =
     (if is_blocked_ip (sa_ip addr) then Inl ''url resolves to a non-public address''
      else pin_first (if pinned = None then Some addr else pinned) rest)"

definition build_pinned_client :: "net_lib \<Rightarrow> string \<Rightarrow> string + SocketAddr" where
  "build_pinned_client net raw =
     and_then (resolve_url net raw) (\<lambda>addrs.
     and_then (pin_first None addrs) (\<lambda>found.
     and_then (ok_or found ''url did not resolve to any address'') (\<lambda>pinned.
     if nl_client_builds net then Inr pinned else Inl ''failed to build http client'')))"

section \<open>Deliveries\<close>

record post =
  po_url :: string
  po_addr :: SocketAddr
  po_headers :: "(string \<times> string) list"
  po_body :: bytes

record webhook_lib =
  wl_payload :: "string \<Rightarrow> ApiEvent \<Rightarrow> bytes option"
  wl_hmac :: "string \<Rightarrow> bytes \<Rightarrow> bytes option"
  wl_hex_encode :: "bytes \<Rightarrow> string"

fun event_type :: "ApiEvent \<Rightarrow> string" where
  "event_type (BlockMined _) = ''block_mined''"
| "event_type (CellCreated _) = ''cell_created''"

definition ascii_bytes :: "string \<Rightarrow> bytes" where
  "ascii_bytes s = map (\<lambda>c. word_of_nat (of_char c)) s"

definition sign_headers :: "webhook_lib \<Rightarrow> i64 \<Rightarrow> string option \<Rightarrow> bytes \<Rightarrow> (string \<times> string) list" where
  "sign_headers lib timestamp secret body = (case secret of
     None \<Rightarrow> []
   | Some key \<Rightarrow> (case wl_hmac lib key (ascii_bytes (int_dec timestamp) @ ascii_bytes ''.'' @ body) of
        None \<Rightarrow> []
      | Some mac \<Rightarrow> [(''x-webhook-timestamp'', int_dec timestamp),
                       (''x-webhook-signature'', ''sha256='' @ wl_hex_encode lib mac)]))"

text \<open>
  One spawned delivery: serialised by the dispatcher, then vetted, signed and sent by the task, at
  a time and with a resolver of its own.
\<close>

definition dispatch_webhook :: "webhook_lib \<Rightarrow> net_lib \<Rightarrow> i64 \<Rightarrow> WebhookRow \<Rightarrow> ApiEvent \<Rightarrow> post option" where
  "dispatch_webhook lib net timestamp webhook event =
     (case wl_payload lib (event_type event) event of
        None \<Rightarrow> None
      | Some body \<Rightarrow>
          (case build_pinned_client net (wh_url webhook) of
             Inl _ \<Rightarrow> None
           | Inr pinned \<Rightarrow>
               Some \<lparr>po_url = wh_url webhook, po_addr = pinned,
                     po_headers = (''content-type'', ''application/json'') # sign_headers lib timestamp (wh_secret webhook) body,
                     po_body = body\<rparr>))"

text \<open>
  What the dispatcher loop sees in one turn: cancellation, or the next item of the broadcast
  channel together with the account tables at that moment and whether the query fails.
\<close>

datatype dispatcher_input = Cancelled | Recv recv_result account_db bool

fun run_webhook_dispatcher :: "dispatcher_input list \<Rightarrow> (WebhookRow \<times> ApiEvent) list" where
  "run_webhook_dispatcher [] = []"
| "run_webhook_dispatcher (Cancelled # rest) = []"
| "run_webhook_dispatcher (Recv (Received event) a fault # rest) =
     (case load_webhooks fault (event_type event) a of
        Inl _ \<Rightarrow> run_webhook_dispatcher rest
      | Inr webhooks \<Rightarrow> map (\<lambda>w. (w, event)) webhooks @ run_webhook_dispatcher rest)"
| "run_webhook_dispatcher (Recv Closed a fault # rest) = []"
| "run_webhook_dispatcher (Recv (Lagged skipped) a fault # rest) = run_webhook_dispatcher rest"

section \<open>The address filter as a list of networks\<close>

text \<open>An IPv4 address as a number, and the networks a delivery must not reach.\<close>

definition v4_value :: "8 word \<Rightarrow> 8 word \<Rightarrow> 8 word \<Rightarrow> 8 word \<Rightarrow> nat" where
  "v4_value a b c d = unat a * 16777216 + unat b * 65536 + unat c * 256 + unat d"

definition network :: "nat \<Rightarrow> nat \<Rightarrow> nat \<Rightarrow> nat \<Rightarrow> nat \<Rightarrow> nat \<times> nat" where
  "network a b c d len = (a * 16777216 + b * 65536 + c * 256 + d, 2 ^ (32 - len))"

definition NON_PUBLIC_V4 :: "(nat \<times> nat) list" where
  "NON_PUBLIC_V4 =
     [network 0 0 0 0 8, network 10 0 0 0 8, network 100 64 0 0 10, network 127 0 0 0 8, network 169 254 0 0 16,
      network 172 16 0 0 12, network 192 0 2 0 24, network 192 168 0 0 16, network 198 51 100 0 24, network 203 0 113 0 24,
      network 240 0 0 0 4]"

definition in_network :: "nat \<Rightarrow> nat \<times> nat \<Rightarrow> bool" where
  "in_network v n \<longleftrightarrow> v div snd n = fst n div snd n"

lemma octet_bound: "unat (a :: 8 word) < 256"
  using unsigned_less [of a, where ?'a = nat] by simp

lemma and_table: "list_all (\<lambda>n. ((word_of_nat n :: 8 word) AND 0xc0 = 0x40) = (n div 64 = 1)) [0..<256]"
  by code_simp

lemma shared_and: "(b :: 8 word) AND 0xc0 = 0x40 \<longleftrightarrow> unat b div 64 = 1"
proof -
  have "unat b \<in> set [0..<256]" using octet_bound [of b] by simp
  then show ?thesis using and_table unfolding list_all_iff by fastforce
qed

lemma v4_div:
  "v4_value a b c d div 268435456 = unat a div 16"
  "v4_value a b c d div 16777216 = unat a"
  "v4_value a b c d div 4194304 = unat a * 4 + unat b div 64"
  "v4_value a b c d div 1048576 = unat a * 16 + unat b div 16"
  "v4_value a b c d div 65536 = unat a * 256 + unat b"
  using octet_bound [of a] octet_bound [of b] octet_bound [of c] octet_bound [of d] unfolding v4_value_def by linarith+

lemma v4_div': "v4_value a b c d div 256 = unat a * 65536 + unat b * 256 + unat c"
  using octet_bound [of d] unfolding v4_value_def by linarith

lemma pair_eq: "y < k \<Longrightarrow> n < k \<Longrightarrow> x * k + y = m * k + n \<longleftrightarrow> x = m \<and> y = n" for k :: nat
  by (metis add_left_cancel div_less div_mult_self3 add.right_neutral add.commute less_nat_zero_code mult.commute)

lemma is_blocked_v4_short:
  "is_blocked_v4 a b c d \<longleftrightarrow> a = 127 \<or> a = 10 \<or> (a = 172 \<and> 16 \<le> b \<and> b \<le> 31) \<or> (a = 192 \<and> b = 168) \<or>
     (a = 169 \<and> b = 254) \<or> v4_is_documentation a b c \<or> a = 0 \<or> 240 \<le> a \<or> (a = 100 \<and> b AND 0xc0 = 0x40)"
proof -
  have "240 \<le> a" if "a = 255" using that by simp
  then show ?thesis unfolding is_blocked_v4_def v4_is_loopback_def v4_is_private_def v4_is_link_local_def by blast
qed

lemma blocked_v4_networks:
  "is_blocked_v4 a b c d \<longleftrightarrow> list_ex (in_network (v4_value a b c d)) NON_PUBLIC_V4"
proof -
  have b: "unat a < 256" "unat b < 256" "unat c < 256" using octet_bound by auto
  have div64: "unat b div 64 < 4" and div16: "unat b div 16 < 16" using b by simp_all
  have two: "unat a * 256 + unat b = 43518 \<longleftrightarrow> unat a = 169 \<and> unat b = 254" 
     "unat a * 256 + unat b = 49320 \<longleftrightarrow> unat a = 192 \<and> unat b = 168"
    using pair_eq [OF b(2), of 254 "unat a" 169] pair_eq [OF b(2), of 168 "unat a" 192] by simp_all
  have ten: "unat a * 4 + unat b div 64 = 401 \<longleftrightarrow> unat a = 100 \<and> unat b div 64 = 1"
    using pair_eq [OF div64, of 1 "unat a" 100] by simp
  have twelve: "unat a * 16 + unat b div 16 = 2753 \<longleftrightarrow> unat a = 172 \<and> 16 \<le> unat b \<and> unat b \<le> 31"
  proof -
    have "unat b div 16 = 1 \<longleftrightarrow> 16 \<le> unat b \<and> unat b \<le> 31" by linarith
    then show ?thesis using pair_eq [OF div16, of 1 "unat a" 172] by simp
  qed
  have three: "unat a * 65536 + unat b * 256 + unat c = (x * 256 + y) * 256 + z \<longleftrightarrow> unat a = x \<and> unat b = y \<and> unat c = z"
    if "y < 256" "z < 256" for x y z
    using pair_eq [OF b(3) that(2), of "unat a * 256 + unat b" "x * 256 + y"] pair_eq [OF b(2) that(1), of "unat a" x] by (simp add: mult.commute)
  have docs: "unat a * 65536 + unat b * 256 + unat c = 12582914 \<longleftrightarrow> unat a = 192 \<and> unat b = 0 \<and> unat c = 2"
     "unat a * 65536 + unat b * 256 + unat c = 12989284 \<longleftrightarrow> unat a = 198 \<and> unat b = 51 \<and> unat c = 100"
     "unat a * 65536 + unat b * 256 + unat c = 13303921 \<longleftrightarrow> unat a = 203 \<and> unat b = 0 \<and> unat c = 113"
    using three [of 0 2 192] three [of 51 100 198] three [of 0 113 203] by simp_all
  have top: "unat a div 16 = 15 \<longleftrightarrow> 240 \<le> unat a" using b(1) by linarith
  have cgn: "unat (b AND 192) = 64 \<longleftrightarrow> unat b div 64 = 1" using shared_and [of b] by (simp add: word_unat_eq_iff)
  show ?thesis
   unfolding is_blocked_v4_short v4_is_documentation_def
    NON_PUBLIC_V4_def network_def in_network_def word_unat_eq_iff word_le_nat_alt
   by (simp add: v4_div v4_div' two ten twelve docs top cgn) blast
qed
lemma and_high: "(s :: 16 word) AND NOT (mask n) = push_bit n (drop_bit n s)"
  by (rule bit_eqI) (auto simp: bit_simps)

lemma high_cancel: "drop_bit n (push_bit n (drop_bit n (s :: 16 word))) = drop_bit n s"
  by (rule bit_eqI) (auto simp: bit_simps dest: bit_imp_le_length)

lemma high_bits: "(s :: 16 word) AND NOT (mask n) = t AND NOT (mask n) \<longleftrightarrow> unat s div 2 ^ n = unat t div 2 ^ n"
proof -
  have "s AND NOT (mask n) = t AND NOT (mask n) \<longleftrightarrow> drop_bit n s = drop_bit n t"
    unfolding and_high by (metis high_cancel)
  also have "\<dots> \<longleftrightarrow> unat (drop_bit n s) = unat (drop_bit n t)" by (rule word_unat_eq_iff)
  finally show ?thesis by (simp only: unat_drop_bit_eq drop_bit_eq_div [where ?'a = nat])
qed

lemma segment_masks: "(0xff00 :: 16 word) = NOT (mask 8)" "(0xfe00 :: 16 word) = NOT (mask 9)" "(0xffc0 :: 16 word) = NOT (mask 6)"
  by (simp_all add: mask_eq_exp_minus_1)

lemma segment_prefixes:
  fixes s :: "16 word"
  shows "s AND 0xff00 = 0xff00 \<longleftrightarrow> unat s div 256 = 0xff"
    and "s AND 0xfe00 = 0xfc00 \<longleftrightarrow> unat s div 512 = 0x7e"
    and "s AND 0xffc0 = 0xfe80 \<longleftrightarrow> unat s div 64 = 0x3fa"
proof -
  have "s AND 0xff00 = 0xff00 AND 0xff00 \<longleftrightarrow> unat s div 2 ^ 8 = unat (0xff00 :: 16 word) div 2 ^ 8"
    unfolding segment_masks(1) by (rule high_bits)
  then show "s AND 0xff00 = 0xff00 \<longleftrightarrow> unat s div 256 = 0xff" by simp
  have "s AND 0xfe00 = 0xfc00 AND 0xfe00 \<longleftrightarrow> unat s div 2 ^ 9 = unat (0xfc00 :: 16 word) div 2 ^ 9"
    unfolding segment_masks(2) by (rule high_bits)
  then show "s AND 0xfe00 = 0xfc00 \<longleftrightarrow> unat s div 512 = 0x7e" by simp
  have "s AND 0xffc0 = 0xfe80 AND 0xffc0 \<longleftrightarrow> unat s div 2 ^ 6 = unat (0xfe80 :: 16 word) div 2 ^ 6"
    unfolding segment_masks(3) by (rule high_bits)
  then show "s AND 0xffc0 = 0xfe80 \<longleftrightarrow> unat s div 64 = 0x3fa" by simp
qed
text \<open>The same for both families: IPv4-mapped addresses are judged by the embedded address.\<close>

fun non_public :: "IpAddr \<Rightarrow> bool" where
  "non_public (V4 a b c d) = list_ex (in_network (v4_value a b c d)) NON_PUBLIC_V4"
| "non_public (V6 s0 s1 s2 s3 s4 s5 s6 s7) =
     (if [s0, s1, s2, s3, s4, s5] = [0, 0, 0, 0, 0, 0xffff]
      then list_ex (in_network (v4_value (ucast (drop_bit 8 s6)) (ucast s6) (ucast (drop_bit 8 s7)) (ucast s7))) NON_PUBLIC_V4
      else [s0, s1, s2, s3, s4, s5, s6] = [0, 0, 0, 0, 0, 0, 0] \<and> s7 \<in> {0, 1} \<or>
           unat s0 div 256 = 0xff \<or> unat s0 div 512 = 0x7e \<or> unat s0 div 64 = 0x3fa)"

lemma is_blocked_ip_iff: "is_blocked_ip ip \<longleftrightarrow> non_public ip"
proof (cases ip)
  case (V6 s0 s1 s2 s3 s4 s5 s6 s7)
  have mapped: "[s0, s1, s2, s3, s4, s5] = [0, 0, 0, 0, 0, 0xffff] \<longleftrightarrow>
      s0 = 0 \<and> s1 = 0 \<and> s2 = 0 \<and> s3 = 0 \<and> s4 = 0 \<and> s5 = 0xffff" by blast
  have tiny: "[s0, s1, s2, s3, s4, s5, s6] = [0, 0, 0, 0, 0, 0, 0] \<and> s7 \<in> {0, 1} \<longleftrightarrow>
      (s0 = 0 \<and> s1 = 0 \<and> s2 = 0 \<and> s3 = 0 \<and> s4 = 0 \<and> s5 = 0 \<and> s6 = 0 \<and> s7 = 1) \<or>
      (s0 = 0 \<and> s1 = 0 \<and> s2 = 0 \<and> s3 = 0 \<and> s4 = 0 \<and> s5 = 0 \<and> s6 = 0 \<and> s7 = 0)" by blast
  show ?thesis unfolding V6 is_blocked_ip.simps non_public.simps mapped tiny blocked_v4_networks segment_prefixes
    by (simp only: disj_assoc)
qed (simp add: blocked_v4_networks)

lemma vet_addrs_ok: "vet_addrs addrs = Inr () \<longleftrightarrow> list_all (\<lambda>a. \<not> is_blocked_ip (sa_ip a)) addrs"
  by (induction addrs) simp_all

lemma pin_first_ok:
  "pin_first pinned addrs = Inr r \<longleftrightarrow> list_all (\<lambda>a. \<not> is_blocked_ip (sa_ip a)) addrs \<and>
     r = (case pinned of Some p \<Rightarrow> Some p | None \<Rightarrow> (case addrs of [] \<Rightarrow> None | a # _ \<Rightarrow> Some a))"
  by (induction addrs arbitrary: pinned) (auto split: option.splits)

text \<open>C18: whatever name resolution answers at the time of a delivery, a POST is sent only to an
  address that this very resolution returned, and only when none of the addresses it returned lies
  in a private, loopback, link-local, shared, documentation or reserved network; the registration
  check accepts exactly such resolutions.\<close>

theorem deliveries_avoid_internal_networks:
  assumes "dispatch_webhook lib net timestamp webhook event = Some p"
  shows "\<exists>addrs. resolve_url net (po_url p) = Inr addrs \<and> po_url p = wh_url webhook \<and> po_addr p \<in> set addrs \<and>
    list_all (\<lambda>a. \<not> non_public (sa_ip a)) addrs \<and> validate_webhook_url net (wh_url webhook) = Inr ()"
proof -
  obtain pinned where p: "build_pinned_client net (wh_url webhook) = Inr pinned" "po_addr p = pinned" "po_url p = wh_url webhook"
    using assms by (auto simp: dispatch_webhook_def split: option.splits sum.splits)
  then obtain addrs where addrs: "resolve_url net (wh_url webhook) = Inr addrs" "pin_first None addrs = Inr (Some pinned)"
    by (auto simp: build_pinned_client_def res_simps split: if_splits)
  then have ok: "list_all (\<lambda>a. \<not> is_blocked_ip (sa_ip a)) addrs" "pinned \<in> set addrs" "addrs \<noteq> []"
    by (auto simp: pin_first_ok split: list.splits)
  then have "validate_webhook_url net (wh_url webhook) = Inr ()"
    using addrs(1) by (simp add: validate_webhook_url_def vet_addrs_ok res_simps)
  then show ?thesis using p addrs(1) ok by (simp add: is_blocked_ip_iff)
qed

definition sample_net :: net_lib where
  "sample_net = \<lparr>nl_parse_url = (\<lambda>u. Some \<lparr>pu_scheme = ''https'', pu_host = Some ''example.com'', pu_port = Some 443\<rparr>),
     nl_lookup_host = (\<lambda>host port. Some [\<lparr>sa_ip = V4 93 184 216 34, sa_port = port\<rparr>]), nl_client_builds = True\<rparr>"

definition sample_webhook :: WebhookRow where
  "sample_webhook = \<lparr>wh_id = 1, wh_user_id = 1, wh_url = ''https://example.com/hook'', wh_events = [''block_mined''],
     wh_secret = Some ''s3cret'', wh_created_at = 0\<rparr>"

definition sample_webhook_lib :: webhook_lib where
  "sample_webhook_lib = \<lparr>wl_payload = (\<lambda>kind e. Some (ascii_bytes kind)), wl_hmac = (\<lambda>key msg. Some (take 4 msg)), wl_hex_encode = hex_lower\<rparr>"

theorem deliveries_avoid_internal_networks_witness:
  "\<exists>p. dispatch_webhook sample_webhook_lib sample_net 7 sample_webhook (BlockMined (block_mined_event hex_lower sample_published_block)) = Some p \<and>
     \<not> non_public (sa_ip (po_addr p))"
proof -
  have "\<not> is_blocked_ip (V4 93 184 216 34)" by code_simp
  then obtain p where p: "dispatch_webhook sample_webhook_lib sample_net 7 sample_webhook
      (BlockMined (block_mined_event hex_lower sample_published_block)) = Some p"
    by (auto simp: dispatch_webhook_def sample_webhook_lib_def build_pinned_client_def resolve_url_def sample_net_def res_simps
        and_then_def ok_or_def)
  from deliveries_avoid_internal_networks [OF this] show ?thesis using p unfolding list_all_iff by blast
qed

text \<open>C25: the filter is exact on IPv4 and on mapped addresses, yet an IPv4 multicast address and the
  IPv6 forms that translate to a loopback address (NAT64, 6to4, IPv4-compatible) pass it.\<close>

theorem address_filter_exact_with_gaps:
  "is_blocked_ip ip = non_public ip \<and>
   \<not> is_blocked_ip (V4 224 0 0 1) \<and> \<not> is_blocked_ip (V6 0x64 0xff9b 0 0 0 0 0x7f00 1) \<and>
   \<not> is_blocked_ip (V6 0x2002 0x7f00 1 0 0 0 0 0) \<and> \<not> is_blocked_ip (V6 0 0 0 0 0 0 0x7f00 1)"
proof -
  have "\<not> is_blocked_ip (V4 224 0 0 1)" by code_simp
  moreover have "\<not> is_blocked_ip (V6 0x64 0xff9b 0 0 0 0 0x7f00 1)" by code_simp
  moreover have "\<not> is_blocked_ip (V6 0x2002 0x7f00 1 0 0 0 0 0)" by code_simp
  moreover have "\<not> is_blocked_ip (V6 0 0 0 0 0 0 0x7f00 1)" by code_simp
  ultimately show ?thesis by (simp add: is_blocked_ip_iff)
qed

section \<open>Fan-out\<close>

fun stops :: "dispatcher_input \<Rightarrow> bool" where
  "stops Cancelled = True"
| "stops (Recv Closed a fault) = True"
| "stops _ = False"

text \<open>The deliveries one turn of the loop owes.\<close>

fun owed :: "dispatcher_input \<Rightarrow> (WebhookRow \<times> ApiEvent) list" where
  "owed (Recv (Received event) a False) = [(w, event). w \<leftarrow> ac_webhooks a, event_type event \<in> set (wh_events w)]"
| "owed _ = []"


end
