(* ===== verification/AdminRoutes.thy ===== *)
theory AdminRoutes
  imports SessionAuth Webhooks
begin

text \<open>
  \<^verbatim>\<open>api/src/routes/admin.rs\<close> and \<^verbatim>\<open>api/src/routes/webhooks.rs\<close>: the dashboard handlers.  A handler
  receives the authenticated session and returns an error or a reply together with the new world.
  Random bytes, identifiers, the clock and the answers of GitHub are in the environment of a call;
  timestamps count microseconds.
\<close>

section \<open>Views\<close>

record UserView =
  uv_id :: uuid
  uv_github_login :: string
  uv_email :: "string option"
  uv_avatar_url :: "string option"

definition user_view :: "User \<Rightarrow> UserView" where
  "user_view user = \<lparr>uv_id = us_id user, uv_github_login = us_github_login user, uv_email = us_email user,
     uv_avatar_url = us_avatar_url user\<rparr>"

record KeyView =
  kv_id :: uuid
  kv_label :: "string option"
  kv_tier :: string
  kv_prefix :: string
  kv_status :: string
  kv_created_at :: timestamp
  kv_revoked_at :: "timestamp option"
  kv_last_used_at :: "timestamp option"

definition key_view :: "ApiKey \<Rightarrow> KeyView" where
  "key_view row = \<lparr>kv_id = ak_id row, kv_label = ak_label row, kv_tier = ApiKeyTier_as_str (ak_tier row),
     kv_prefix = ak_prefix row, kv_status = (if ak_revoked_at row \<noteq> None then ''revoked'' else ''active''),
     kv_created_at = ak_created_at row, kv_revoked_at = ak_revoked_at row, kv_last_used_at = ak_last_used_at row\<rparr>"

datatype TierInput = TierFree | TierStarter | TierPro

fun tier_from :: "TierInput \<Rightarrow> ApiKeyTier" where
  "tier_from TierFree = Free"
| "tier_from TierStarter = Starter"
| "tier_from TierPro = Pro"

record CreateKeyRequest =
  ck_label :: "string option"
  ck_tier :: "TierInput option"

record CreateKeyResponse =
  nk_key :: KeyView
  nk_secret :: string

record WebhookResponse =
  wr_id :: string
  wr_url :: string
  wr_events :: "string list"
  wr_created_at :: timestamp

record CreateWebhookRequest =
  cw_url :: string
  cw_events :: "string list"
  cw_secret :: "string option"

definition webhook_response :: "dash_lib \<Rightarrow> WebhookRow \<Rightarrow> WebhookResponse" where
  "webhook_response lib r = \<lparr>wr_id = dl_uuid_str lib (wh_id r), wr_url = wh_url r, wr_events = wh_events r,
     wr_created_at = wh_created_at r\<rparr>"

datatype admin_body = MeBody UserView | KeysBody "KeyView list" | KeyBody CreateKeyResponse
  | WebhooksBody "WebhookResponse list" | WebhookBody WebhookResponse | UnitBody | EmptyBody

record admin_reply =
  ar_status :: nat
  ar_location :: "string option"
  ar_cookies :: "string list"
  ar_body :: admin_body

definition ok_reply :: "nat \<Rightarrow> admin_body \<Rightarrow> admin_reply" where
  "ok_reply status body = \<lparr>ar_status = status, ar_location = None, ar_cookies = [], ar_body = body\<rparr>"

text \<open>What a call finds around it.\<close>

record admin_env =
  ad_now :: timestamp
  ad_fault :: bool
  ad_fresh_id :: uuid
  ad_prefix_bytes :: bytes
  ad_secret_bytes :: bytes
  ad_salt :: string
  ad_net :: net_lib

type_synonym 'a handler_result = "(ApiError + admin_reply) \<times> 'a api_world_scheme"

text \<open>A statement that returns a value and new tables, inside a handler.\<close>

definition with_accounts ::
    "'a api_world_scheme \<Rightarrow> (DbError + ('v \<times> account_db)) \<Rightarrow> ('v \<Rightarrow> ApiError + admin_reply) \<Rightarrow> 'a handler_result" where
  "with_accounts w r k = (case r of
     Inl e \<Rightarrow> (Inl (from_db e), w)
   | Inr (v, a) \<Rightarrow> (k v, w\<lparr>aw_accounts := a\<rparr>))"

section \<open>Cookies\<close>

definition OAUTH_STATE_COOKIE :: string where "OAUTH_STATE_COOKIE = ''cellora_oauth_state''"

text \<open>\<^verbatim>\<open>HeaderValue::from_str\<close> with an empty value for a string it does not accept.\<close>

definition header_value :: "string \<Rightarrow> string" where
  "header_value s = (if list_all (\<lambda>c. let k = of_char c :: nat in (32 \<le> k \<and> k \<noteq> 127) \<or> k = 9) s then s else [])"

definition secure_suffix :: "bool \<Rightarrow> string" where
  "secure_suffix secure = (if secure then ''; Secure'' else [])"

definition unix_secs :: "timestamp \<Rightarrow> int" where
  "unix_secs t = t div 1000000"

definition build_session_cookie :: "timestamp \<Rightarrow> string \<Rightarrow> bool \<Rightarrow> timestamp \<Rightarrow> string" where
  "build_session_cookie now token secure expires_at =
     (let max_age = i64_saturating_sub (unix_secs expires_at) (unix_secs now)
      in header_value (COOKIE_NAME @ ''='' @ token @ ''; Path=/; HttpOnly; SameSite=Lax; Max-Age='' @ int_dec max_age
           @ secure_suffix secure))"

definition clear_session_cookie :: "bool \<Rightarrow> string" where
  "clear_session_cookie secure =
     header_value (COOKIE_NAME @ ''=; Path=/; HttpOnly; SameSite=Lax; Max-Age=0'' @ secure_suffix secure)"

definition build_oauth_state_cookie :: "string \<Rightarrow> bool \<Rightarrow> string" where
  "build_oauth_state_cookie state_token secure =
     header_value (OAUTH_STATE_COOKIE @ ''='' @ state_token @ ''; Path=/; HttpOnly; SameSite=Lax; Max-Age=600'' @ secure_suffix secure)"

definition clear_oauth_state_cookie :: "bool \<Rightarrow> string" where
  "clear_oauth_state_cookie secure =
     header_value (OAUTH_STATE_COOKIE @ ''=; Path=/; HttpOnly; SameSite=Lax; Max-Age=0'' @ secure_suffix secure)"

definition read_cookie :: "http_request \<Rightarrow> string \<Rightarrow> string option" where
  "read_cookie rq name = cookie_value rq name"

section \<open>Key management\<close>

definition me :: "AuthenticatedSession \<Rightarrow> admin_reply" where
  "me auth = ok_reply 200 (MeBody (user_view (as_user auth)))"

definition parse_uuid :: "dash_lib \<Rightarrow> string \<Rightarrow> ApiError + uuid" where
  "parse_uuid lib raw = ok_or (dl_uuid_parse lib raw) (NotFound ''api key not found'')"

definition sign_out :: "Config \<Rightarrow> admin_env \<Rightarrow> AuthenticatedSession \<Rightarrow> 'a api_world_scheme \<Rightarrow> 'a handler_result" where
  "sign_out config env auth w =
     with_accounts w (sessions_delete (ad_fault env) (se_token_hash (as_session auth)) (aw_accounts w)) (\<lambda>_.
       Inr \<lparr>ar_status = 204, ar_location = None, ar_cookies = [clear_session_cookie (dashboard_cookie_secure config)],
            ar_body = EmptyBody\<rparr>)"

definition list_keys :: "admin_env \<Rightarrow> AuthenticatedSession \<Rightarrow> 'a api_world_scheme \<Rightarrow> 'a handler_result" where
  "list_keys env auth w =
     (and_then (map_err from_db (list_for_user (ad_fault env) (us_id (as_user auth)) (aw_accounts w))) (\<lambda>rows.
        Inr (ok_reply 200 (KeysBody (map key_view rows)))), w)"

definition clean_label :: "string option \<Rightarrow> string option" where
  "clean_label label = Option.bind (map_option trim label) (\<lambda>s. if s \<noteq> [] then Some s else None)"

definition key_error_text :: "KeyError \<Rightarrow> string" where
  "key_error_text e = (case e of Hashing m \<Rightarrow> ''argon2 hashing failed: '' @ m | BadFormat \<Rightarrow> ''key format is invalid''
     | Mismatch \<Rightarrow> ''key verification failed'')"

definition create_key ::
    "dash_lib \<Rightarrow> admin_env \<Rightarrow> AuthenticatedSession \<Rightarrow> CreateKeyRequest \<Rightarrow> 'a api_world_scheme \<Rightarrow> 'a handler_result" where
  "create_key lib env auth body w =
     (let tier = tier_from (unwrap_or (ck_tier body) TierFree);
          label = clean_label (ck_label body)
      in case generate (dl_keys lib) (ad_prefix_bytes env) (ad_secret_bytes env) (ad_salt env) of
           Inl err \<Rightarrow> (Inl (Internal (Anyhow (key_error_text err))), w)
         | Inr issued \<Rightarrow>
             with_accounts w (api_keys_insert (ad_fault env) (ad_now env) (ad_fresh_id env) (us_id (as_user auth))
                 (ik_prefix issued) (ik_secret_hash issued) tier label (aw_accounts w)) (\<lambda>row.
               Inr (ok_reply 201 (KeyBody \<lparr>nk_key = key_view row, nk_secret = ik_full issued\<rparr>))))"

definition rotate_key ::
    "dash_lib \<Rightarrow> admin_env \<Rightarrow> AuthenticatedSession \<Rightarrow> string \<Rightarrow> 'a api_world_scheme \<Rightarrow> 'a handler_result" where
  "rotate_key lib env auth raw_id w = (case parse_uuid lib raw_id of
     Inl err \<Rightarrow> (Inl err, w)
   | Inr kid \<Rightarrow>
       (case generate (dl_keys lib) (ad_prefix_bytes env) (ad_secret_bytes env) (ad_salt env) of
          Inl err \<Rightarrow> (Inl (Internal (Anyhow (key_error_text err))), w)
        | Inr issued \<Rightarrow>
            with_accounts w (rotate_for_user (ad_fault env) kid (us_id (as_user auth)) (ik_prefix issued)
                (ik_secret_hash issued) (aw_accounts w)) (\<lambda>found.
              and_then (ok_or found (NotFound ''api key not found'')) (\<lambda>row.
              Inr (ok_reply 200 (KeyBody \<lparr>nk_key = key_view row, nk_secret = ik_full issued\<rparr>))))))"

definition revoke_key ::
    "dash_lib \<Rightarrow> admin_env \<Rightarrow> AuthenticatedSession \<Rightarrow> string \<Rightarrow> 'a api_world_scheme \<Rightarrow> 'a handler_result" where
  "revoke_key lib env auth raw_id w = (case parse_uuid lib raw_id of
     Inl err \<Rightarrow> (Inl err, w)
   | Inr kid \<Rightarrow>
       with_accounts w (revoke_for_user (ad_fault env) (ad_now env) kid (us_id (as_user auth)) (aw_accounts w)) (\<lambda>revoked.
         if \<not> revoked then Inl (NotFound ''api key not found'') else Inr (ok_reply 204 EmptyBody)))"

section \<open>Webhook management\<close>

definition list_webhooks :: "dash_lib \<Rightarrow> admin_env \<Rightarrow> AuthenticatedSession \<Rightarrow> 'a api_world_scheme \<Rightarrow> 'a handler_result" where
  "list_webhooks lib env auth w =
     (and_then (map_err from_db (webhooks_select (ad_fault env) (us_id (as_user auth)) (aw_accounts w))) (\<lambda>rows.
        Inr (ok_reply 200 (WebhooksBody (map (webhook_response lib) rows)))), w)"

definition create_webhook ::
    "dash_lib \<Rightarrow> admin_env \<Rightarrow> AuthenticatedSession \<Rightarrow> CreateWebhookRequest \<Rightarrow> 'a api_world_scheme \<Rightarrow> 'a handler_result" where
  "create_webhook lib env auth req w =
     (if cw_url req = [] \<or> cw_events req = [] then (Inl (BadRequest ''url and events are required''), w)
      else case validate_webhook_url (ad_net env) (cw_url req) of
        Inl reason \<Rightarrow> (Inl (BadRequest (''invalid webhook url: '' @ reason)), w)
      | Inr _ \<Rightarrow>
          with_accounts w (webhooks_insert (ad_fault env) (ad_now env) (ad_fresh_id env) (us_id (as_user auth))
              (cw_url req) (cw_events req) (cw_secret req) (aw_accounts w)) (\<lambda>record.
            Inr (ok_reply 200 (WebhookBody (webhook_response lib record)))))"

definition delete_webhook ::
    "dash_lib \<Rightarrow> admin_env \<Rightarrow> AuthenticatedSession \<Rightarrow> string \<Rightarrow> 'a api_world_scheme \<Rightarrow> 'a handler_result" where
  "delete_webhook lib env auth raw_id w = (case dl_uuid_parse lib raw_id of
     None \<Rightarrow> (Inl (BadRequest ''invalid webhook id''), w)
   | Some wid \<Rightarrow>
       with_accounts w (webhooks_delete (ad_fault env) wid (us_id (as_user auth)) (aw_accounts w)) (\<lambda>rows_affected.
         if rows_affected = 0 then Inl (NotFound ''webhook not found'') else Inr (ok_reply 200 UnitBody)))"

section \<open>Signing in with GitHub\<close>

record GithubCallback =
  gq_code :: "string option"
  gq_state :: "string option"
  gq_error :: "string option"

record GithubProfile =
  gp_id :: i64
  gp_login :: string
  gp_avatar_url :: "string option"

record GithubEmail =
  gm_email :: string
  gm_verified :: bool
  gm_primary :: bool
  gm_visibility :: "string option"

text \<open>What a call meets at GitHub: the answer to each request sent, with its status and body, or none when
  the transport fails, and the decoding of the three payloads.\<close>

record github_request =
  gr_method :: string
  gr_url :: string
  gr_headers :: "(string \<times> string) list"
  gr_form :: "(string \<times> string) list"

record github_service =
  gh_send :: "github_request \<Rightarrow> (nat \<times> bytes) option"
  gh_token_json :: "bytes \<Rightarrow> string option"
  gh_profile_json :: "bytes \<Rightarrow> GithubProfile option"
  gh_emails_json :: "bytes \<Rightarrow> GithubEmail list option"

record oauth_env =
  oe_now :: timestamp
  oe_cookie_now :: timestamp
  oe_redis_now :: int
  oe_state_bytes :: bytes
  oe_token_bytes :: bytes
  oe_fresh_id :: uuid
  oe_redis_fault :: bool
  oe_redis_del_fault :: bool
  oe_upsert_fault :: bool
  oe_session_fault :: bool
  oe_github :: github_service

definition generate_state_token :: "dash_lib \<Rightarrow> bytes \<Rightarrow> string" where
  "generate_state_token lib random = dl_base64 lib random"

definition oauth_state_key :: "string \<Rightarrow> string" where
  "oauth_state_key state_token = ''cellora:oauth:github:state:'' @ state_token"

definition oauth_pending :: "int \<Rightarrow> redis_db \<Rightarrow> string \<Rightarrow> bool" where
  "oauth_pending redis_now r key = (case rd_oauth r key of None \<Rightarrow> False | Some expires \<Rightarrow> redis_now \<le> expires)"

definition authorize_url :: "string \<Rightarrow> string \<Rightarrow> string \<Rightarrow> string" where
  "authorize_url client_id redirect_url state_token =
     ''https://github.com/login/oauth/authorize?client_id='' @ client_id @ ''&redirect_uri='' @ redirect_url
       @ ''&scope=read:user%20user:email&state='' @ state_token @ ''&allow_signup=true''"

definition select_email :: "GithubEmail list \<Rightarrow> string option" where
  "select_email payload =
     map_option gm_email
       (case find (\<lambda>e. gm_primary e \<and> gm_verified e) payload of
          Some e \<Rightarrow> Some e
        | None \<Rightarrow> (case find gm_verified payload of
             Some e \<Rightarrow> Some e
           | None \<Rightarrow> find (\<lambda>e. gm_visibility e = Some ''public'') payload))"

text \<open>\<^verbatim>\<open>send().await?.error_for_status()?\<close>: the body, unless the status is one of an error.\<close>

definition send_ok :: "github_service \<Rightarrow> github_request \<Rightarrow> bytes option" where
  "send_ok gh r = Option.bind (gh_send gh r) (\<lambda>(code, payload). if 400 \<le> code \<and> code < 600 then None else Some payload)"

definition exchange_github_code :: "github_service \<Rightarrow> string \<Rightarrow> string \<Rightarrow> string \<Rightarrow> string \<Rightarrow> string option" where
  "exchange_github_code gh client_id client_secret redirect_url code =
     Option.bind (send_ok gh \<lparr>gr_method = ''POST'', gr_url = ''https://github.com/login/oauth/access_token'',
         gr_headers = [(''accept'', ''application/json'')],
         gr_form = [(''client_id'', client_id), (''client_secret'', client_secret), (''code'', code), (''redirect_uri'', redirect_url)]\<rparr>)
       (gh_token_json gh)"

definition github_get :: "string \<Rightarrow> string \<Rightarrow> github_request" where
  "github_get url token = \<lparr>gr_method = ''GET'', gr_url = url,
     gr_headers = [(''authorization'', ''Bearer '' @ token), (''user-agent'', ''cellora-api'')], gr_form = []\<rparr>"

definition fetch_github_profile :: "github_service \<Rightarrow> string \<Rightarrow> GithubProfile option" where
  "fetch_github_profile gh token = Option.bind (send_ok gh (github_get ''https://api.github.com/user'' token)) (gh_profile_json gh)"

definition fetch_github_email :: "github_service \<Rightarrow> string \<Rightarrow> string option option" where
  "fetch_github_email gh token =
     map_option select_email (Option.bind (send_ok gh (github_get ''https://api.github.com/user/emails'' token)) (gh_emails_json gh))"

definition github_start :: "dash_lib \<Rightarrow> Config \<Rightarrow> oauth_env \<Rightarrow> 'a api_world_scheme \<Rightarrow> 'a handler_result" where
  "github_start lib config env w =
     (case and_then (ok_or (dashboard_oauth_github_client_id config) (UpstreamUnavailable ''oauth not configured'')) (\<lambda>client_id.
           and_then (ok_or (dashboard_oauth_github_redirect_url config) (UpstreamUnavailable ''oauth not configured'')) (\<lambda>redirect_url.
           map_ok (\<lambda>redis. (client_id, redirect_url, redis)) (ok_or (pw_redis w) (UpstreamUnavailable ''redis unavailable'')))) of
        Inl err \<Rightarrow> (Inl err, w)
      | Inr (client_id, redirect_url, redis) \<Rightarrow>
          (let state_token = generate_state_token lib (oe_state_bytes env);
               key = oauth_state_key state_token
           in if oe_redis_fault env then (Inl (UpstreamUnavailable ''redis unavailable''), w)
              else if oauth_pending (oe_redis_now env) redis key then (Inl (UpstreamUnavailable ''state collision''), w)
              else (Inr \<lparr>ar_status = 303, ar_location = Some (authorize_url client_id redirect_url state_token),
                         ar_cookies = [build_oauth_state_cookie state_token (dashboard_cookie_secure config)], ar_body = EmptyBody\<rparr>,
                    w\<lparr>pw_redis := Some (redis\<lparr>rd_oauth := (rd_oauth redis)(key \<mapsto> oe_redis_now env + 600000)\<rparr>)\<rparr>)))"

text \<open>The checks of the callback before anything is changed: its result is the code, the state, the
  OAuth settings and the Redis handle.\<close>

definition callback_checks ::
    "Config \<Rightarrow> GithubCallback \<Rightarrow> http_request \<Rightarrow> redis_db option
      \<Rightarrow> ApiError + (string \<times> string \<times> string \<times> string \<times> string \<times> redis_db)" where
  "callback_checks config query rq redis =
     (case gq_error query of
        Some error \<Rightarrow> Inl (BadRequest (''oauth error: '' @ error))
      | None \<Rightarrow>
          and_then (ok_or (gq_code query) (BadRequest ''missing code'')) (\<lambda>code.
          and_then (ok_or (gq_state query) (BadRequest ''missing state'')) (\<lambda>state_token.
          and_then (if read_cookie rq OAUTH_STATE_COOKIE = Some state_token then Inr () else Inl (Unauthorized ''invalid oauth state'')) (\<lambda>_.
          and_then (ok_or (dashboard_oauth_github_client_id config) (UpstreamUnavailable ''oauth not configured'')) (\<lambda>client_id.
          and_then (ok_or (dashboard_oauth_github_client_secret config) (UpstreamUnavailable ''oauth not configured'')) (\<lambda>client_secret.
          and_then (ok_or (dashboard_oauth_github_redirect_url config) (UpstreamUnavailable ''oauth not configured'')) (\<lambda>redirect_url.
          map_ok (\<lambda>r. (code, state_token, client_id, client_secret, redirect_url, r))
            (ok_or redis (UpstreamUnavailable ''redis unavailable'')))))))))"

text \<open>The exchange with GitHub.\<close>

definition github_identity ::
    "github_service \<Rightarrow> string \<Rightarrow> string \<Rightarrow> string \<Rightarrow> string \<Rightarrow> ApiError + (GithubProfile \<times> string option)" where
  "github_identity gh client_id client_secret redirect_url code =
     and_then (ok_or (exchange_github_code gh client_id client_secret redirect_url code) (UpstreamUnavailable ''github oauth failed'')) (\<lambda>token.
     and_then (ok_or (fetch_github_profile gh token) (UpstreamUnavailable ''github profile failed'')) (\<lambda>profile.
     Inr (profile, case fetch_github_email gh token of None \<Rightarrow> None | Some email \<Rightarrow> email)))"

definition github_callback ::
    "dash_lib \<Rightarrow> Config \<Rightarrow> oauth_env \<Rightarrow> GithubCallback \<Rightarrow> http_request \<Rightarrow> 'a api_world_scheme \<Rightarrow> 'a handler_result" where
  "github_callback lib config env query rq w =
     (case callback_checks config query rq (pw_redis w) of
        Inl err \<Rightarrow> (Inl err, w)
      | Inr (code, state_token, client_id, client_secret, redirect_url, redis) \<Rightarrow>
          (let key = oauth_state_key state_token;
               w' = w\<lparr>pw_redis := Some (redis\<lparr>rd_oauth := (rd_oauth redis)(key := None)\<rparr>)\<rparr>
           in if oe_redis_fault env then (Inl (UpstreamUnavailable ''redis unavailable''), w)
              else if \<not> oauth_pending (oe_redis_now env) redis key then (Inl (Unauthorized ''invalid oauth state''), w)
              else if oe_redis_del_fault env then (Inl (UpstreamUnavailable ''redis unavailable''), w)
              else case github_identity (oe_github env) client_id client_secret redirect_url code of
                Inl err \<Rightarrow> (Inl err, w')
              | Inr (profile, email) \<Rightarrow>
                  (case upsert_from_github (oe_upsert_fault env) (oe_now env) (oe_fresh_id env) (gp_id profile) (gp_login profile)
                          email (gp_avatar_url profile) (aw_accounts w') of
                     Inl e \<Rightarrow> (Inl (from_db e), w')
                   | Inr (user, a) \<Rightarrow>
                       (let issued = generate_token lib (oe_token_bytes env);
                            expires_at = oe_now env + dashboard_session_ttl_days config * 86400000000;
                            user_agent = Option.bind (header_get ''user-agent'' rq) to_str
                        in case sessions_insert (oe_session_fault env) (oe_now env) (it_hash issued) (us_id user) expires_at user_agent a of
                             Inl e \<Rightarrow> (Inl (from_db e), w'\<lparr>aw_accounts := a\<rparr>)
                           | Inr (session, a') \<Rightarrow>
                               (Inr \<lparr>ar_status = 303, ar_location = Some (unwrap_or (dashboard_redirect_url config) ''/''),
                                     ar_cookies = [build_session_cookie (oe_cookie_now env) (it_plaintext issued)
                                                     (dashboard_cookie_secure config) expires_at,
                                                   clear_oauth_state_cookie (dashboard_cookie_secure config)],
                                     ar_body = EmptyBody\<rparr>,
                                w'\<lparr>aw_accounts := a'\<rparr>)))))"

end
