(* ===== verification/Dashboard.thy ===== *)
theory Dashboard
  imports AdminRoutes "HOL-Library.Multiset"
begin

text \<open>
  The dashboard as a whole: the handlers of \<open>AdminRoutes\<close> behind the session layer, in any sequence
  of calls.  The locale \<open>isolated\<close> states that requests of one actor leave every other actor's
  view alone; it is interpreted on the dashboard with the rows a user owns as the view.
\<close>

section \<open>The dashboard as a service\<close>

datatype admin_request = Me | SignOut | ListKeys | CreateKey CreateKeyRequest | RotateKey string | RevokeKey string
  | ListWebhooks | CreateWebhook CreateWebhookRequest | DeleteWebhook string

fun admin_handle ::
    "dash_lib \<Rightarrow> Config \<Rightarrow> admin_env \<Rightarrow> AuthenticatedSession \<Rightarrow> admin_request \<Rightarrow> 'a api_world_scheme \<Rightarrow> 'a handler_result" where
  "admin_handle lib config env auth Me w = (Inr (me auth), w)"
| "admin_handle lib config env auth SignOut w = sign_out config env auth w"
| "admin_handle lib config env auth ListKeys w = list_keys env auth w"
| "admin_handle lib config env auth (CreateKey body) w = create_key lib env auth body w"
| "admin_handle lib config env auth (RotateKey kid) w = rotate_key lib env auth kid w"
| "admin_handle lib config env auth (RevokeKey kid) w = revoke_key lib env auth kid w"
| "admin_handle lib config env auth ListWebhooks w = list_webhooks lib env auth w"
| "admin_handle lib config env auth (CreateWebhook req) w = create_webhook lib env auth req w"
| "admin_handle lib config env auth (DeleteWebhook wid) w = delete_webhook lib env auth wid w"

definition reply_response :: "ApiError + admin_reply \<Rightarrow> admin_body http_response" where
  "reply_response r = (case r of
     Inl err \<Rightarrow> error_response err
   | Inr reply \<Rightarrow> \<lparr>rs_status = ar_status reply,
        rs_headers = (case ar_location reply of Some l \<Rightarrow> [(''location'', l)] | None \<Rightarrow> []) @ map (\<lambda>c. (''set-cookie'', c)) (ar_cookies reply),
        rs_body = Payload (ar_body reply), rs_key = None\<rparr>)"

text \<open>The router behind the session layer; a handler without its extension is answered 500.\<close>

definition admin_service ::
    "dash_lib \<Rightarrow> Config \<Rightarrow> admin_env \<Rightarrow> admin_request \<Rightarrow> (admin_body, 'a api_world_scheme) service" where
  "admin_service lib config env req rq w = (case rq_session rq of
     None \<Rightarrow> (error_response (Internal (Anyhow ''missing extension'')), w)
   | Some auth \<Rightarrow> (case admin_handle lib config env auth req w of (r, w') \<Rightarrow> (reply_response r, w')))"

record admin_call =
  al_request :: http_request
  al_session_env :: session_env
  al_env :: admin_env
  al_action :: admin_request

definition admin_step :: "dash_lib \<Rightarrow> Config \<Rightarrow> admin_call \<Rightarrow> 'a api_world_scheme \<Rightarrow> admin_body http_response \<times> 'a api_world_scheme" where
  "admin_step lib config c =
     session_middleware lib (al_session_env c) (admin_service lib config (al_env c) (al_action c)) (al_request c)"

text \<open>The session a call is authenticated as.\<close>

definition caller :: "dash_lib \<Rightarrow> admin_call \<Rightarrow> 'a api_world_scheme \<Rightarrow> AuthenticatedSession option" where
  "caller lib c w = (case extract_session_cookie (al_request c) of
     None \<Rightarrow> None
   | Some token \<Rightarrow> (case session_resolve (al_session_env c) (hash_token lib token) (aw_accounts w) of
        Inl _ \<Rightarrow> None | Inr auth \<Rightarrow> Some auth))"

definition account_of :: "uuid \<Rightarrow> account_db \<Rightarrow> User list \<times> Session list \<times> ApiKey list \<times> WebhookRow list" where
  "account_of u a = (filter (\<lambda>x. us_id x = u) (ac_users a), filter (\<lambda>x. se_user_id x = u) (ac_sessions a),
     filter (\<lambda>x. ak_user_id x = u) (ac_keys a), filter (\<lambda>x. wh_user_id x = u) (ac_webhooks a))"

section \<open>Isolation\<close>

text \<open>Requests of one actor leave the view of every other alone.\<close>

locale isolated =
  fixes act :: "'r \<Rightarrow> 's \<Rightarrow> 's" and actor :: "'r \<Rightarrow> 's \<Rightarrow> 'u option" and view :: "'u \<Rightarrow> 's \<Rightarrow> 'v" and ok :: "'s \<Rightarrow> bool"
  assumes ok_act: "ok s \<Longrightarrow> ok (act r s)"
    and frame: "ok s \<Longrightarrow> actor r s \<noteq> Some u \<Longrightarrow> view u (act r s) = view u s"
begin

fun avoids :: "'u \<Rightarrow> 'r list \<Rightarrow> 's \<Rightarrow> bool" where
  "avoids u [] s \<longleftrightarrow> True"
| "avoids u (r # rs) s \<longleftrightarrow> actor r s \<noteq> Some u \<and> avoids u rs (act r s)"

lemma view_kept: "ok s \<Longrightarrow> avoids u rs s \<Longrightarrow> view u (fold act rs s) = view u s \<and> ok (fold act rs s)"
  by (induction rs arbitrary: s) (auto simp: frame ok_act)

end

lemma filter_map_if_same:
  assumes "\<And>x. x \<in> set xs \<Longrightarrow> P x \<Longrightarrow> \<not> Q x" "\<And>x. x \<in> set xs \<Longrightarrow> P x \<Longrightarrow> \<not> Q (f x)"
  shows "filter Q (map (\<lambda>x. if P x then f x else x) xs) = filter Q xs"
  using assms by (induction xs) auto

lemma account_of_keys:
  assumes "\<And>k. P k \<Longrightarrow> ak_user_id k = v" "\<And>k. ak_user_id (f k) = ak_user_id k" "u \<noteq> v"
  shows "account_of u (update_keys P f a) = account_of u a"
proof -
  have "filter (\<lambda>k. ak_user_id k = u) (map (\<lambda>k. if P k then f k else k) (ac_keys a)) = filter (\<lambda>k. ak_user_id k = u) (ac_keys a)"
    using assms by (intro filter_map_if_same) auto
  then show ?thesis by (simp add: account_of_def update_keys_def)
qed

lemma update_keys_none:
  assumes "\<And>k. k \<in> set (ac_keys a) \<Longrightarrow> \<not> P k"
  shows "update_keys P f a = a"
proof -
  have "map (\<lambda>k. if P k then f k else k) (ac_keys a) = ac_keys a" using assms by (intro map_idI) simp
  then show ?thesis by (simp add: update_keys_def)
qed

lemma statements_frame:
  assumes "u \<noteq> v"
  shows "api_keys_insert fault now fresh v p h tier label a = Inr (k, a') \<Longrightarrow> account_of u a' = account_of u a"
    and "rotate_for_user fault kid v p h a = Inr (r, a') \<Longrightarrow> account_of u a' = account_of u a"
    and "revoke_for_user fault now kid v a = Inr (b, a') \<Longrightarrow> account_of u a' = account_of u a"
    and "webhooks_insert fault now fresh v url evs sec a = Inr (wh, a') \<Longrightarrow> account_of u a' = account_of u a"
    and "webhooks_delete fault wid v a = Inr (n, a') \<Longrightarrow> account_of u a' = account_of u a"
proof -
  show "api_keys_insert fault now fresh v p h tier label a = Inr (k, a') \<Longrightarrow> account_of u a' = account_of u a"
    using assms by (auto simp: api_keys_insert_def account_of_def Let_def split: if_splits)
  show "rotate_for_user fault kid v p h a = Inr (r, a') \<Longrightarrow> account_of u a' = account_of u a"
    using assms by (auto simp: rotate_for_user_def Let_def split: if_splits option.splits intro!: account_of_keys)
  show "revoke_for_user fault now kid v a = Inr (b, a') \<Longrightarrow> account_of u a' = account_of u a"
    using assms by (auto simp: revoke_for_user_def Let_def split: if_splits intro!: account_of_keys)
  show "webhooks_insert fault now fresh v url evs sec a = Inr (wh, a') \<Longrightarrow> account_of u a' = account_of u a"
    using assms by (auto simp: webhooks_insert_def account_of_def Let_def split: if_splits)
  have "filter (\<lambda>x. wh_user_id x = u) (filter (\<lambda>w. wh_id w = wid \<longrightarrow> wh_user_id w \<noteq> v) ws) = filter (\<lambda>x. wh_user_id x = u) ws" for ws
    using assms by (induction ws) auto
  then show "webhooks_delete fault wid v a = Inr (n, a') \<Longrightarrow> account_of u a' = account_of u a"
    by (auto simp: webhooks_delete_def account_of_def Let_def split: if_splits)
qed

lemma sessions_delete_frame:
  assumes "account_ok a" "s \<in> set (ac_sessions a)" "se_user_id s \<noteq> u" "sessions_delete fault (se_token_hash s) a = Inr (b, a')"
  shows "account_of u a' = account_of u a"
proof -
  have "filter (\<lambda>x. se_user_id x = u) (filter (\<lambda>x. se_token_hash x \<noteq> se_token_hash s) (ac_sessions a)) =
      filter (\<lambda>x. se_user_id x = u) (ac_sessions a)"
  proof -
    have "x = s" if "x \<in> set (ac_sessions a)" "se_token_hash x = se_token_hash s" for x
      using assms(1,2) that by (auto simp: account_ok_def distinct_map inj_on_def)
    then have "\<And>x. x \<in> set (ac_sessions a) \<Longrightarrow> se_user_id x = u \<and> se_token_hash x \<noteq> se_token_hash s \<longleftrightarrow> se_user_id x = u"
      using assms(3) by blast
    then show ?thesis by (simp add: filter_filter conj_commute cong: filter_cong)
  qed
  then show ?thesis using assms(4) by (auto simp: sessions_delete_def account_of_def split: if_splits)
qed

lemma with_accounts_cases:
  assumes "with_accounts w r k = (x, w')"
  obtains (err) e where "r = Inl e" "w' = w" | (ok) v a where "r = Inr (v, a)" "w' = w\<lparr>aw_accounts := a\<rparr>"
  using assms by (auto simp: with_accounts_def split: sum.splits)

text \<open>Every handler runs at most one statement that changes the tables.\<close>

lemma admin_handle_cases:
  assumes "admin_handle lib config env auth req w = (r, w')"
  obtains (same) "aw_accounts w' = aw_accounts w"
  | (signed_out) b where "sessions_delete (ad_fault env) (se_token_hash (as_session auth)) (aw_accounts w) = Inr (b, aw_accounts w')"
  | (created) p h tier label k where
      "api_keys_insert (ad_fault env) (ad_now env) (ad_fresh_id env) (us_id (as_user auth)) p h tier label (aw_accounts w) = Inr (k, aw_accounts w')"
  | (rotated) kid p h f where "rotate_for_user (ad_fault env) kid (us_id (as_user auth)) p h (aw_accounts w) = Inr (f, aw_accounts w')"
  | (revoked) kid b where "revoke_for_user (ad_fault env) (ad_now env) kid (us_id (as_user auth)) (aw_accounts w) = Inr (b, aw_accounts w')"
  | (hooked) url evs sec x where
      "webhooks_insert (ad_fault env) (ad_now env) (ad_fresh_id env) (us_id (as_user auth)) url evs sec (aw_accounts w) = Inr (x, aw_accounts w')"
  | (unhooked) wid n where "webhooks_delete (ad_fault env) wid (us_id (as_user auth)) (aw_accounts w) = Inr (n, aw_accounts w')"
proof (cases req)
  case SignOut
  with assms show thesis by (auto simp: sign_out_def elim!: with_accounts_cases intro: same signed_out)
next
  case (CreateKey body)
  with assms show thesis
    by (auto simp: create_key_def Let_def split: sum.splits elim!: with_accounts_cases intro: same created)
next
  case (RotateKey raw)
  with assms show thesis by (auto simp: rotate_key_def split: sum.splits elim!: with_accounts_cases intro: same rotated)
next
  case (RevokeKey raw)
  with assms show thesis by (auto simp: revoke_key_def split: sum.splits elim!: with_accounts_cases intro: same revoked)
next
  case (CreateWebhook body)
  with assms show thesis
    by (auto simp: create_webhook_def split: sum.splits if_splits elim!: with_accounts_cases intro: same hooked)
next
  case (DeleteWebhook raw)
  with assms show thesis by (auto simp: delete_webhook_def split: option.splits elim!: with_accounts_cases intro: same unhooked)
qed (use assms in \<open>auto simp: list_keys_def list_webhooks_def intro: same\<close>)

lemma admin_handle_ok:
  assumes "account_ok (aw_accounts w)" "admin_handle lib config env auth req w = (r, w')"
  shows "account_ok (aw_accounts w')"
  using assms(2)
proof (cases rule: admin_handle_cases)
  case same
  with assms(1) show ?thesis by simp
qed (use assms(1) in \<open>blast intro: account_statements_ok\<close>)+

lemma admin_handle_frame:
  assumes "account_ok (aw_accounts w)" "admin_handle lib config env auth req w = (r, w')"
    and "as_session auth \<in> set (ac_sessions (aw_accounts w))" "us_id (as_user auth) = se_user_id (as_session auth)" "us_id (as_user auth) \<noteq> u"
  shows "account_of u (aw_accounts w') = account_of u (aw_accounts w)"
  using assms(2)
proof (cases rule: admin_handle_cases)
  case signed_out
  then show ?thesis using sessions_delete_frame [OF assms(1,3)] assms(4,5) by simp
qed (use statements_frame [OF assms(5) [symmetric]] in \<open>simp_all\<close>)

lemma admin_step_cases:
  assumes "admin_step lib config c w = (rs, w')"
  obtains (rejected) e where "caller lib c w = None" "rs = error_response e" "rs_status rs \<in> {401, 500}" "w' = w"
  | (handled) auth r hash where "caller lib c w = Some auth"
      "as_session auth \<in> set (ac_sessions (aw_accounts w))" "us_id (as_user auth) = se_user_id (as_session auth)"
      "Session_is_active (as_session auth) (sn_now (al_session_env c))" "se_token_hash (as_session auth) = hash"
      "admin_handle lib config (al_env c) auth (al_action c) (w\<lparr>pw_seen := pw_seen w @ [hash]\<rparr>) = (r, w')" "rs = reply_response r"
proof (cases "extract_session_cookie (al_request c)")
  case None
  then show thesis using assms
    by (intro rejected [of "Unauthorized ''missing session''"])
      (auto simp: admin_step_def session_middleware_def caller_def error_response_def into_response_def)
next
  case (Some token)
  show thesis
  proof (cases "session_resolve (al_session_env c) (hash_token lib token) (aw_accounts w)")
    case (Inl e)
    then show thesis using assms Some session_resolve_Inl [OF Inl]
      by (intro rejected [of e]) (auto simp: admin_step_def session_middleware_def caller_def error_response_def into_response_def)
  next
    case (Inr auth)
    obtain r where "admin_handle lib config (al_env c) auth (al_action c) (w\<lparr>pw_seen := pw_seen w @ [hash_token lib token]\<rparr>) = (r, w')"
      "rs = reply_response r"
      using assms Some Inr by (auto simp: admin_step_def session_middleware_def admin_service_def Let_def split: prod.splits)
    then show thesis using Some Inr session_found [OF Inr] by (intro handled) (auto simp: caller_def)
  qed
qed

interpretation dashboard: isolated "\<lambda>c w. snd (admin_step lib config c w)"
  "\<lambda>c w. map_option (\<lambda>auth. us_id (as_user auth)) (caller lib c w)" "\<lambda>u w. account_of u (aw_accounts w)"
  "\<lambda>w :: 'a api_world_scheme. account_ok (aw_accounts w)"
proof unfold_locales
  fix w :: "'a api_world_scheme" and c
  assume ok: "account_ok (aw_accounts w)"
  obtain rs w' where step: "admin_step lib config c w = (rs, w')" by (cases "admin_step lib config c w") auto
  from step show "account_ok (aw_accounts (snd (admin_step lib config c w)))"
  proof (cases rule: admin_step_cases)
    case (handled auth r hash)
    then show ?thesis using admin_handle_ok [OF _ handled(6)] ok step by simp
  qed (use ok step in simp)
  show "account_of u (aw_accounts (snd (admin_step lib config c w))) = account_of u (aw_accounts w)"
    if "map_option (\<lambda>auth. us_id (as_user auth)) (caller lib c w) \<noteq> Some u" for u
    using step
  proof (cases rule: admin_step_cases)
    case (handled auth r hash)
    then show ?thesis using admin_handle_frame [OF _ handled(6), of u] ok that step by simp
  qed (use step in simp)
qed

section \<open>What the dashboard promises\<close>

fun run_calls :: "dash_lib \<Rightarrow> Config \<Rightarrow> admin_call list \<Rightarrow> 'a api_world_scheme \<Rightarrow> 'a api_world_scheme" where
  "run_calls lib config [] w = w"
| "run_calls lib config (c # cs) w = run_calls lib config cs (snd (admin_step lib config c w))"

text \<open>No call of the sequence is authenticated as the user.\<close>

fun none_as :: "dash_lib \<Rightarrow> Config \<Rightarrow> uuid \<Rightarrow> admin_call list \<Rightarrow> 'a api_world_scheme \<Rightarrow> bool" where
  "none_as lib config u [] w \<longleftrightarrow> True"
| "none_as lib config u (c # cs) w \<longleftrightarrow> map_option (\<lambda>auth. us_id (as_user auth)) (caller lib c w) \<noteq> Some u \<and>
     none_as lib config u cs (snd (admin_step lib config c w))"

lemma run_calls_fold: "run_calls lib config cs w = fold (\<lambda>c w. snd (admin_step lib config c w)) cs w"
  by (induction cs arbitrary: w) simp_all

lemma none_as_avoids: "none_as lib config u cs w = dashboard.avoids lib config u cs w"
  by (induction cs arbitrary: w) simp_all

text \<open>C26: whatever requests other people send to the dashboard, with whatever cookies, bodies and failures
  of the database, a user's profile, sessions, keys and webhooks stay exactly as they are, and the
  schema of the tables is kept.\<close>

theorem dashboard_isolation:
  assumes "account_ok (aw_accounts w)" "none_as lib config u cs w"
  shows "account_of u (aw_accounts (run_calls lib config cs w)) = account_of u (aw_accounts w) \<and>
    account_ok (aw_accounts (run_calls lib config cs w))"
  using dashboard.view_kept [OF assms(1)] assms(2) by (simp add: run_calls_fold none_as_avoids)

text \<open>A key listing is answered only to an unexpired session, and with exactly that user's keys,
  newest first and without their hashes; revoked keys are shown as revoked.\<close>

theorem key_listing_is_own:
  assumes "admin_step lib config c w = (rs, w')" "al_action c = ListKeys" "rs_status rs = 200"
  shows "\<exists>auth rows. caller lib c w = Some auth \<and> Session_is_active (as_session auth) (sn_now (al_session_env c)) \<and>
    rs_body rs = Payload (KeysBody (map key_view rows)) \<and>
    mset rows = mset (filter (\<lambda>k. ak_user_id k = us_id (as_user auth)) (ac_keys (aw_accounts w))) \<and>
    sorted_wrt (\<lambda>a b. ak_created_at b \<le> ak_created_at a) rows \<and>
    list_all (\<lambda>k. (kv_status (key_view k) = ''revoked'') = ApiKey_is_revoked k) rows"
  using assms(1)
proof (cases rule: admin_step_cases)
  case (handled auth r hash)
  let ?rows = "sort_key (\<lambda>k. - ak_created_at k) (filter (\<lambda>k. ak_user_id k = us_id (as_user auth)) (ac_keys (aw_accounts w)))"
  have "\<not> ad_fault (al_env c)"
    using handled(6,7) assms(2,3)
    by (auto simp: list_keys_def list_for_user_def map_err_def and_then_def from_db_def reply_response_def error_response_def into_response_def)
  then have body: "rs_body rs = Payload (KeysBody (map key_view ?rows))"
    using handled(6,7) assms(2) by (auto simp: list_keys_def list_for_user_def reply_response_def ok_reply_def map_err_def and_then_def)
  have "sorted (map (\<lambda>k. - ak_created_at k) ?rows)" by simp
  then have "sorted_wrt (\<lambda>a b. ak_created_at b \<le> ak_created_at a) ?rows" by (simp add: sorted_wrt_map)
  moreover have "list_all (\<lambda>k. (kv_status (key_view k) = ''revoked'') = ApiKey_is_revoked k) ?rows"
    by (simp add: list_all_iff key_view_def ApiKey_is_revoked_def)
  ultimately show ?thesis using handled(1,4) body by (intro exI [of _ auth] exI [of _ ?rows]) simp
qed (use assms(3) in auto)

text \<open>Rotating or revoking with an identifier that is malformed, unknown, already revoked or somebody
  else's is answered with one and the same 404 and changes nothing.\<close>

theorem foreign_key_ids_look_unknown:
  assumes "admin_step lib config c w = (rs, w')" "caller lib c w = Some auth" "\<not> ad_fault (al_env c)"
    and "al_action c \<in> {RotateKey raw, RevokeKey raw}"
    and "generate (dl_keys lib) (ad_prefix_bytes (al_env c)) (ad_secret_bytes (al_env c)) (ad_salt (al_env c)) = Inr issued"
    and "\<not> (\<exists>k \<in> set (ac_keys (aw_accounts w)). dl_uuid_parse lib raw = Some (ak_id k) \<and> ak_user_id k = us_id (as_user auth) \<and>
        \<not> ApiKey_is_revoked k)"
  shows "rs = error_response (NotFound ''api key not found'') \<and> aw_accounts w' = aw_accounts w"
  using assms(1)
proof (cases rule: admin_step_cases)
  case (handled auth' r hash)
  show ?thesis
  proof (cases "dl_uuid_parse lib raw")
    case None
    then show ?thesis using handled(6,7) assms(4) by (auto simp: rotate_key_def revoke_key_def parse_uuid_def ok_or_def reply_response_def)
  next
    case (Some kid)
    let ?P = "\<lambda>k. ak_id k = kid \<and> ak_user_id k = us_id (as_user auth) \<and> ak_revoked_at k = None"
    have none: "\<not> ?P k" if "k \<in> set (ac_keys (aw_accounts w))" for k
      using assms(6) Some that by (auto simp: ApiKey_is_revoked_def)
    then have "find ?P (ac_keys (aw_accounts w)) = None" "\<not> list_ex ?P (ac_keys (aw_accounts w))"
      by (auto simp: find_None_iff list_ex_iff)
    then show ?thesis using handled Some assms(2-5) update_keys_none [of "aw_accounts w" ?P] none
      by (auto simp: rotate_key_def revoke_key_def parse_uuid_def ok_or_def reply_response_def with_accounts_def rotate_for_user_def
          revoke_for_user_def Let_def and_then_def)
  qed
qed (use assms(2) in auto)

section \<open>Signing in and out\<close>

text \<open>What a successful callback has checked and done.\<close>

lemma github_callback_Inr:
  assumes "github_callback lib config env query rq w = (Inr reply, w')"
  obtains code state_token client_id client_secret redirect_url redis profile email user a session a' where
    "gq_code query = Some code" "gq_state query = Some state_token" "read_cookie rq OAUTH_STATE_COOKIE = Some state_token"
    "pw_redis w = Some redis" "dashboard_oauth_github_client_id config = Some client_id"
    "dashboard_oauth_github_client_secret config = Some client_secret" "dashboard_oauth_github_redirect_url config = Some redirect_url"
    "oauth_pending (oe_redis_now env) redis (oauth_state_key state_token)"
    "github_identity (oe_github env) client_id client_secret redirect_url code = Inr (profile, email)"
    "upsert_from_github (oe_upsert_fault env) (oe_now env) (oe_fresh_id env) (gp_id profile) (gp_login profile)
       email (gp_avatar_url profile) (aw_accounts w) = Inr (user, a)"
    "sessions_insert (oe_session_fault env) (oe_now env) (hash_token lib (dl_base64 lib (oe_token_bytes env))) (us_id user)
       (oe_now env + dashboard_session_ttl_days config * 86400000000) (Option.bind (header_get ''user-agent'' rq) to_str) a = Inr (session, a')"
    "w' = w\<lparr>pw_redis := Some (redis\<lparr>rd_oauth := (rd_oauth redis)(oauth_state_key state_token := None)\<rparr>), aw_accounts := a'\<rparr>"
    "hd (ar_cookies reply) = build_session_cookie (oe_cookie_now env) (dl_base64 lib (oe_token_bytes env)) (dashboard_cookie_secure config)
       (oe_now env + dashboard_session_ttl_days config * 86400000000)"
proof -
  obtain code state_token client_id client_secret redirect_url redis where
    checks: "callback_checks config query rq (pw_redis w) = Inr (code, state_token, client_id, client_secret, redirect_url, redis)"
    using assms by (auto simp: github_callback_def split: sum.splits)
  have facts: "gq_code query = Some code" "gq_state query = Some state_token" "read_cookie rq OAUTH_STATE_COOKIE = Some state_token"
    "pw_redis w = Some redis" "dashboard_oauth_github_client_id config = Some client_id"
    "dashboard_oauth_github_client_secret config = Some client_secret" "dashboard_oauth_github_redirect_url config = Some redirect_url"
    using checks by (auto simp: callback_checks_def res_simps split: option.splits if_splits)
  have pend: "oauth_pending (oe_redis_now env) redis (oauth_state_key state_token)"
    using assms checks by (auto simp: github_callback_def Let_def split: if_splits)
  obtain profile email where ident: "github_identity (oe_github env) client_id client_secret redirect_url code = Inr (profile, email)"
    using assms checks by (auto simp: github_callback_def Let_def split: if_splits sum.splits)
  obtain user a where up: "upsert_from_github (oe_upsert_fault env) (oe_now env) (oe_fresh_id env) (gp_id profile) (gp_login profile)
       email (gp_avatar_url profile) (aw_accounts w) = Inr (user, a)"
    using assms checks ident by (auto simp: github_callback_def Let_def split: if_splits sum.splits)
  obtain session a' where ins: "sessions_insert (oe_session_fault env) (oe_now env) (hash_token lib (dl_base64 lib (oe_token_bytes env))) (us_id user)
       (oe_now env + dashboard_session_ttl_days config * 86400000000) (Option.bind (header_get ''user-agent'' rq) to_str) a = Inr (session, a')"
    and w': "w' = w\<lparr>pw_redis := Some (redis\<lparr>rd_oauth := (rd_oauth redis)(oauth_state_key state_token := None)\<rparr>), aw_accounts := a'\<rparr>"
    and cookie: "hd (ar_cookies reply) = build_session_cookie (oe_cookie_now env) (dl_base64 lib (oe_token_bytes env)) (dashboard_cookie_secure config)
       (oe_now env + dashboard_session_ttl_days config * 86400000000)"
    using assms checks ident up by (auto simp: github_callback_def Let_def generate_token_def split: if_splits sum.splits)
  from that [OF facts pend ident up ins w' cookie] show thesis .
qed

text \<open>C27: a dashboard session is minted only for a browser that presents, in its own cookie, the very
  state that the callback carries and that is still pending, and each state is accepted at most
  once.\<close>

theorem oauth_state_bound_and_single_use:
  assumes "github_callback lib config env query rq w = (Inr reply, w')"
    and "gq_state query' = gq_state query"
  shows "(\<exists>state_token redis. gq_state query = Some state_token \<and> cookie_value rq OAUTH_STATE_COOKIE = Some state_token \<and>
      pw_redis w = Some redis \<and> oauth_pending (oe_redis_now env) redis (oauth_state_key state_token)) \<and>
    (\<exists>err. github_callback lib config' env' query' rq' w' = (Inl err, w'))"
  using assms(1)
proof (cases rule: github_callback_Inr)
  case (1 code state_token client_id client_secret redirect_url redis profile email user a session a')
  have "\<not> oauth_pending (oe_redis_now env') (redis\<lparr>rd_oauth := (rd_oauth redis)(oauth_state_key state_token := None)\<rparr>)
      (oauth_state_key state_token)" by (simp add: oauth_pending_def)
  then have "\<exists>err. github_callback lib config' env' query' rq' w' = (Inl err, w')"
    using 1(2,12) assms(2) by (auto simp: github_callback_def callback_checks_def res_simps Let_def split: sum.splits option.splits if_splits)
  then show ?thesis using 1(2-4,8) by (auto simp: read_cookie_def)
qed

lemma caller_of_session:
  assumes "account_ok (aw_accounts w)" "s \<in> set (ac_sessions (aw_accounts w))" "Session_is_active s (sn_now (al_session_env c))"
    and "\<not> sn_fault_session (al_session_env c)" "\<not> sn_fault_user (al_session_env c)"
    and "header_get ''cookie'' (al_request c) = Some (COOKIE_NAME @ ''='' @ token)" "cookie_token token" "hash_token lib token = se_token_hash s"
  obtains auth where "caller lib c w = Some auth" "as_session auth = s" "us_id (as_user auth) = se_user_id s" "as_user auth \<in> set (ac_users (aw_accounts w))"
proof -
  have "list_all cookie_char COOKIE_NAME \<and> COOKIE_NAME \<noteq> [] \<and> CHR ''='' \<notin> set COOKIE_NAME" by code_simp
  then have "extract_session_cookie (al_request c) = Some token"
    using cookie_round_trip [OF assms(6,7)] by (simp add: extract_session_cookie_def cookie_token_def)
  moreover obtain u where "session_resolve (al_session_env c) (se_token_hash s) (aw_accounts w) = Inr \<lparr>as_session = s, as_user = u\<rparr>" "us_id u = se_user_id s"
    using session_resolve_unique [OF assms(1-5)] by blast
  ultimately show thesis using that [of "\<lparr>as_session = s, as_user = u\<rparr>"] assms(8) session_found(4) [of "al_session_env c" "se_token_hash s" "aw_accounts w"]
    by (simp add: caller_def)
qed

lemma upsert_user:
  assumes "upsert_from_github fault now fresh g login email avatar a = Inr (u, a')"
  shows "u \<in> set (ac_users a')" "us_github_user_id u = g" "us_github_login u = login" "ac_sessions a' = ac_sessions a"
  using assms by (auto simp: upsert_from_github_def Let_def image_iff dest!: find_SomeD split: if_splits option.splits)

text \<open>What a browser sends back for a \<^verbatim>\<open>Set-Cookie\<close> header: the pair in front of the attributes.\<close>

definition header_char :: "char \<Rightarrow> bool" where
  "header_char c \<longleftrightarrow> (let k = of_char c :: nat in (32 \<le> k \<and> k \<noteq> 127) \<or> k = 9)"

definition echoed_cookie :: "string \<Rightarrow> string" where
  "echoed_cookie set_cookie = takeWhile (\<lambda>c. c \<noteq> CHR '';'') set_cookie"

lemma header_value_id: "list_all header_char s \<Longrightarrow> header_value s = s"
  unfolding header_value_def header_char_def by simp

lemma int_dec_header: "list_all header_char (int_dec n)"
proof -
  have digit: "is_dec_digit c \<Longrightarrow> header_char c" for c by (auto simp: is_dec_digit_def header_char_def Let_def)
  have dec: "list_all header_char (nat_dec k)" for k using nat_dec_digits [of k] digit by (simp add: list_all_iff)
  show ?thesis by (simp add: int_dec_def dec) (simp add: header_char_def)
qed

lemma session_cookie_echoed:
  assumes "cookie_token token"
  shows "echoed_cookie (build_session_cookie now token secure expires_at) = COOKIE_NAME @ ''='' @ token"
proof -
  let ?attr = "'' Path=/; HttpOnly; SameSite=Lax; Max-Age=''"
  have vis: "cookie_char c \<Longrightarrow> header_char c" for c unfolding cookie_char_def visible_def header_char_def Let_def by linarith
  have tok: "list_all header_char token" "CHR '';'' \<notin> set token"
    using assms vis unfolding cookie_token_def list_all_iff cookie_char_def by blast+
  have lits: "list_all header_char (COOKIE_NAME @ ''='')" "list_all header_char (CHR '';'' # ?attr)" "list_all header_char (secure_suffix secure)"
    "CHR '';'' \<notin> set (COOKIE_NAME @ ''='')"
    by (simp_all add: COOKIE_NAME_def secure_suffix_def header_char_def)
  have "build_session_cookie now token secure expires_at =
      (COOKIE_NAME @ ''='' @ token) @ CHR '';'' # ?attr @ int_dec (i64_saturating_sub (unix_secs expires_at) (unix_secs now)) @ secure_suffix secure"
    unfolding build_session_cookie_def Let_def
    by (subst header_value_id) (use tok lits int_dec_header in simp_all)
  moreover have "takeWhile (\<lambda>c. c \<noteq> CHR '';'') ((COOKIE_NAME @ ''='' @ token) @ CHR '';'' # r) = COOKIE_NAME @ ''='' @ token" for r
    by (subst takeWhile_append2) (use tok lits in auto)
  ultimately show ?thesis by (simp only: echoed_cookie_def)
qed

text \<open>C28: after a successful sign-in, the browser that sends back the cookie it was given is
  authenticated as the GitHub user for whom GitHub exchanged the code of the configured application,
  until the session expires.\<close>

theorem sign_in_round_trip:
  assumes "account_ok (aw_accounts w)" "github_callback lib config env query rq w = (Inr reply, w')"
    and "cookie_token (dl_base64 lib (oe_token_bytes env))"
    and "header_get ''cookie'' (al_request c) = Some (echoed_cookie (hd (ar_cookies reply)))"
    and "sn_now (al_session_env c) < oe_now env + dashboard_session_ttl_days config * 86400000000"
    and "\<not> sn_fault_session (al_session_env c)" "\<not> sn_fault_user (al_session_env c)"
  shows "\<exists>auth code client_id client_secret redirect_url profile email. caller lib c w' = Some auth \<and> gq_code query = Some code \<and>
    dashboard_oauth_github_client_id config = Some client_id \<and> dashboard_oauth_github_client_secret config = Some client_secret \<and>
    dashboard_oauth_github_redirect_url config = Some redirect_url \<and>
    github_identity (oe_github env) client_id client_secret redirect_url code = Inr (profile, email) \<and>
    us_github_user_id (as_user auth) = gp_id profile \<and> us_github_login (as_user auth) = gp_login profile"
  using assms(2)
proof (cases rule: github_callback_Inr)
  case (1 code state_token client_id client_secret redirect_url redis profile email user a session a')
  have ok: "account_ok a" "account_ok a'" using upsert_ok [OF assms(1) 1(10)] session_statements_ok(1) 1(11) by blast+
  have new: "session \<in> set (ac_sessions a')" "se_token_hash session = hash_token lib (dl_base64 lib (oe_token_bytes env))"
    "se_user_id session = us_id user" "Session_is_active session (sn_now (al_session_env c))" "ac_users a' = ac_users a"
    using 1(11) assms(5) by (auto simp: sessions_insert_def Session_is_active_def Let_def split: if_splits)
  have acc: "aw_accounts w' = a'" using 1(12) by simp
  have cookie: "header_get ''cookie'' (al_request c) = Some (COOKIE_NAME @ ''='' @ dl_base64 lib (oe_token_bytes env))"
    using assms(4) unfolding 1(13) session_cookie_echoed [OF assms(3)] .
  obtain auth where auth: "caller lib c w' = Some auth" "us_id (as_user auth) = us_id user" "as_user auth \<in> set (ac_users a')"
    using caller_of_session [of w' session c, OF _ _ new(4) assms(6,7) cookie assms(3) new(2) [symmetric]] ok(2) new(1,3) acc by metis
  have "user \<in> set (ac_users a')" using upsert_user(1) [OF 1(10)] new(5) by simp
  then have "as_user auth = user" using auth(2,3) ok(2) by (auto simp: account_ok_def distinct_map inj_on_def)
  then show ?thesis using auth(1) 1(1,5-7,9) upsert_user(2,3) [OF 1(10)] by blast
qed

text \<open>Signing out ends exactly the session of the cookie: the same cookie authenticates nobody any
  more, and every other session stays.\<close>

theorem sign_out_ends_session:
  assumes "admin_step lib config c w = (rs, w')" "al_action c = SignOut" "rs_status rs = 204"
    and "extract_session_cookie (al_request c') = extract_session_cookie (al_request c)"
  shows "caller lib c' w' = None \<and>
    (\<exists>auth. caller lib c w = Some auth \<and> ac_sessions (aw_accounts w') =
       filter (\<lambda>s. se_token_hash s \<noteq> se_token_hash (as_session auth)) (ac_sessions (aw_accounts w)))"
  using assms(1)
proof (cases rule: admin_step_cases)
  case (handled auth r hash)
  have kept: "ac_sessions (aw_accounts w') = filter (\<lambda>s. se_token_hash s \<noteq> se_token_hash (as_session auth)) (ac_sessions (aw_accounts w))"
    using handled(6,7) assms(2,3)
    by (auto simp: sign_out_def with_accounts_def sessions_delete_def reply_response_def error_response_def into_response_def from_db_def split: if_splits)
  obtain token where token: "extract_session_cookie (al_request c) = Some token" "hash_token lib token = se_token_hash (as_session auth)"
    using handled(1) session_found(2) by (fastforce simp: caller_def split: option.splits sum.splits)
  have "caller lib c' w' = None"
  proof (rule ccontr)
    assume "caller lib c' w' \<noteq> None"
    then obtain auth' where "session_resolve (al_session_env c') (se_token_hash (as_session auth)) (aw_accounts w') = Inr auth'"
      using token assms(4) by (auto simp: caller_def split: option.splits sum.splits)
    from session_found(1,2) [OF this] kept show False by auto
  qed
  then show ?thesis using handled(1) kept by blast
qed (use assms(3) in auto)

end
