(* ===== verification/Tip.thy ===== *)
theory Tip
  imports ChainDb Node
begin

text \<open>
  \<^verbatim>\<open>crates/api/src/tip.rs\<close> and \<^verbatim>\<open>crates/api/src/routes/stats.rs\<close>: the snapshot of the indexer's and the
  node's tip, its refresh and its staleness.  Instants are nanoseconds of the monotonic clock;
  \<^verbatim>\<open>Instant::elapsed\<close> never goes below zero, and \<^verbatim>\<open>checked_sub\<close> fails below the least representable
  instant, an argument because it depends on the platform.
\<close>

abbreviation nanos_per_sec :: int where "nanos_per_sec \<equiv> 1000000000"

definition STALE_AFTER :: int where "STALE_AFTER = 5 * nanos_per_sec"

record TipSnapshot =
  ts_indexer_tip :: "i64 option"
  ts_node_tip :: "u64 option"
  ts_observed_at :: timestamp
  ts_observed_monotonic :: int

definition instant_checked_sub :: "int \<Rightarrow> int \<Rightarrow> int \<Rightarrow> int option" where
  "instant_checked_sub least t duration = (if t - duration < least then None else Some (t - duration))"

definition elapsed :: "int \<Rightarrow> int \<Rightarrow> int" where
  "elapsed now t = max 0 (now - t)"

definition TipSnapshot_empty :: "int \<Rightarrow> int \<Rightarrow> TipSnapshot" where
  "TipSnapshot_empty least now =
     \<lparr>ts_indexer_tip = None, ts_node_tip = None, ts_observed_at = 0,
      ts_observed_monotonic = unwrap_or (instant_checked_sub least now (STALE_AFTER * 2)) now\<rparr>"

definition is_stale :: "int \<Rightarrow> TipSnapshot \<Rightarrow> bool" where
  "is_stale now s \<longleftrightarrow> elapsed now (ts_observed_monotonic s) > STALE_AFTER"

definition lag_blocks :: "TipSnapshot \<Rightarrow> i64 option" where
  "lag_blocks s =
     (case (ts_indexer_tip s, ts_node_tip s) of
        (Some indexer, Some node) \<Rightarrow>
          map_option (\<lambda>n. i64_saturating_sub n indexer) (i64_try_from node)
      | _ \<Rightarrow> None)"

text \<open>One refresh: what the two sources answer and the clocks at the end of the cycle.\<close>

record refresh_env =
  rf_indexer :: "DbError + Checkpoint option"
  rf_node :: "CommonError + u64"
  rf_system_now :: timestamp
  rf_now :: int

definition refresh_once :: "refresh_env \<Rightarrow> TipSnapshot \<Rightarrow> TipSnapshot" where
  "refresh_once e previous =
     (let (indexer_tip, indexer_ok) =
            (case rf_indexer e of
               Inr row \<Rightarrow> (map_option cp_last_indexed_block row, True)
             | Inl _ \<Rightarrow> (ts_indexer_tip previous, False));
          (node_tip, node_ok) =
            (case rf_node e of
               Inr n \<Rightarrow> (Some n, True)
             | Inl _ \<Rightarrow> (ts_node_tip previous, False));
          (observed_at, observed_monotonic) =
            (if indexer_ok \<and> node_ok then (rf_system_now e, rf_now e)
             else (ts_observed_at previous, ts_observed_monotonic previous))
      in \<lparr>ts_indexer_tip = indexer_tip, ts_node_tip = node_tip, ts_observed_at = observed_at,
          ts_observed_monotonic = observed_monotonic\<rparr>)"

text \<open>The background task: one refresh at start and one after every sleep that is not cancelled.\<close>

fun refresh_task :: "refresh_env list \<Rightarrow> TipSnapshot \<Rightarrow> TipSnapshot" where
  "refresh_task [] s = s"
| "refresh_task (e # es) s = refresh_task es (refresh_once e s)"

record StatsResponse =
  sr_indexer_tip :: "i64 option"
  sr_node_tip :: "u64 option"
  sr_lag_blocks :: "i64 option"
  sr_snapshot_age_seconds :: u64
  sr_is_stale :: bool

definition stats :: "int \<Rightarrow> TipSnapshot \<Rightarrow> StatsResponse" where
  "stats now snap =
     \<lparr>sr_indexer_tip = ts_indexer_tip snap, sr_node_tip = ts_node_tip snap,
      sr_lag_blocks = lag_blocks snap,
      sr_snapshot_age_seconds = elapsed now (ts_observed_monotonic snap) div nanos_per_sec,
      sr_is_stale = is_stale now snap\<rparr>"

section \<open>What a snapshot says\<close>

definition both_ok :: "refresh_env \<Rightarrow> bool" where
  "both_ok e \<longleftrightarrow> (\<exists>r. rf_indexer e = Inr r) \<and> (\<exists>n. rf_node e = Inr n)"

lemma refresh_once_observed:
  "ts_observed_monotonic (refresh_once e s) = (if both_ok e then rf_now e else ts_observed_monotonic s)"
  by (auto simp: refresh_once_def both_ok_def Let_def split: sum.splits)

lemma refresh_task_observed:
  "ts_observed_monotonic (refresh_task es s) =
     (case filter both_ok (rev es) of [] \<Rightarrow> ts_observed_monotonic s | e # _ \<Rightarrow> rf_now e)"
proof (induction es arbitrary: s)
  case (Cons e es)
  then show ?case
    by (cases "filter both_ok (rev es)") (simp_all add: refresh_once_observed)
qed simp

definition last_node_tip :: "refresh_env list \<Rightarrow> u64 option \<Rightarrow> u64 option" where
  "last_node_tip es d = fold (\<lambda>e d. case rf_node e of Inr n \<Rightarrow> Some n | Inl _ \<Rightarrow> d) es d"

lemma refresh_task_node_tip:
  "ts_node_tip (refresh_task es s) = last_node_tip es (ts_node_tip s)"
  by (induction es arbitrary: s)
    (auto simp: last_node_tip_def refresh_once_def Let_def split: sum.splits)


end
