(* ===== verification/Middleware.thy ===== *)
theory Middleware
  imports SessionAuth Tip
begin

text \<open>
  \<^verbatim>\<open>api/src/lib.rs\<close> and \<^verbatim>\<open>api/src/metrics.rs\<close>: the layers around the handlers.  A layer maps a service
  to a service.  Counters and observations are kept per tuple of labels; how \<^verbatim>\<open>prometheus\<close> folds
  observations into buckets is its own.  A measured duration is a number of nanoseconds, converted
  to seconds and milliseconds exactly.
\<close>

section \<open>Metrics\<close>

datatype RateLimitOutcome = Allowed | Limited | FailOpen | FailClosed

fun RateLimitOutcome_as_str :: "RateLimitOutcome \<Rightarrow> string" where
  "RateLimitOutcome_as_str Allowed = ''allowed''"
| "RateLimitOutcome_as_str Limited = ''limited''"
| "RateLimitOutcome_as_str FailOpen = ''fail_open''"
| "RateLimitOutcome_as_str FailClosed = ''fail_closed''"

record api_metrics =
  requests_total :: "string list \<rightharpoonup> nat"
  request_duration_seconds :: "string list \<rightharpoonup> rat list"
  rate_limit_decisions_total :: "string list \<rightharpoonup> nat"
  db_connections_active :: i64
  db_connections_idle :: i64

definition api_metrics_new :: api_metrics where
  "api_metrics_new = \<lparr>requests_total = Map.empty, request_duration_seconds = Map.empty,
     rate_limit_decisions_total = Map.empty, db_connections_active = 0, db_connections_idle = 0\<rparr>"

text \<open>\<^verbatim>\<open>with_label_values\<close> creates the series of its labels when it is first used.\<close>

definition inc :: "string list \<Rightarrow> (string list \<rightharpoonup> nat) \<Rightarrow> (string list \<rightharpoonup> nat)" where
  "inc labels m = m(labels \<mapsto> unwrap_or (m labels) 0 + 1)"

definition observe_request :: "string \<Rightarrow> string \<Rightarrow> nat \<Rightarrow> rat \<Rightarrow> api_metrics \<Rightarrow> api_metrics" where
  "observe_request verb matched_path status seconds m =
     (let status_label = nat_dec status
      in m\<lparr>requests_total := inc [verb, matched_path, status_label] (requests_total m),
           request_duration_seconds := (request_duration_seconds m)
             ([verb, matched_path] \<mapsto> unwrap_or (request_duration_seconds m [verb, matched_path]) [] @ [seconds])\<rparr>)"

definition observe_rate_limit :: "string \<Rightarrow> string \<Rightarrow> RateLimitOutcome \<Rightarrow> api_metrics \<Rightarrow> api_metrics" where
  "observe_rate_limit surface tier outcome m =
     m\<lparr>rate_limit_decisions_total := inc [surface, tier, RateLimitOutcome_as_str outcome] (rate_limit_decisions_total m)\<rparr>"

definition record_pool :: "u32 \<Rightarrow> u32 \<Rightarrow> api_metrics \<Rightarrow> api_metrics" where
  "record_pool active idle m = m\<lparr>db_connections_active := active, db_connections_idle := idle\<rparr>"

section \<open>Shared state\<close>

text \<open>
  What the layers share beyond the caches, the account tables and Redis: the metrics, the tip
  snapshot, the table of request logs and the spawned tasks that write them.  Such a task pushes its
  entry and then trims the list; it is kept as what it has left to do.
\<close>

record RequestLogRow =
  lg_id :: i64
  lg_timestamp :: timestamp
  lg_api_key_id :: uuid
  lg_method :: string
  lg_path :: string
  lg_status_code :: i16
  lg_latency_ms :: i32

datatype log_task = PushThenTrim string | TrimOnly

record server_world = api_world +
  sv_metrics :: api_metrics
  sv_tip :: TipSnapshot
  sv_log_tasks :: "log_task list"
  sv_request_logs :: "RequestLogRow list"
  sv_next_log_id :: i64

text \<open>
  The binary hands one connection manager to the state, to the limiter and to the log worker: the
  limiter is attached exactly when Redis answered at startup.
\<close>

definition rate_limiter :: "Config \<Rightarrow> 'a api_world_scheme \<Rightarrow> (bool \<times> redis_db) option" where
  "rate_limiter config w = map_option (\<lambda>r. (api_rate_limit_fail_open config, r)) (pw_redis w)"

section \<open>Rate limiting\<close>

definition RATELIMIT_LIMIT_HEADER :: string where "RATELIMIT_LIMIT_HEADER = ''x-ratelimit-limit''"
definition RATELIMIT_REMAINING_HEADER :: string where "RATELIMIT_REMAINING_HEADER = ''x-ratelimit-remaining''"
definition RATELIMIT_RESET_HEADER :: string where "RATELIMIT_RESET_HEADER = ''x-ratelimit-reset''"
definition RETRY_AFTER_HEADER :: string where "RETRY_AFTER_HEADER = ''retry-after''"

definition attach_rate_limit_headers :: "Decision \<Rightarrow> 'b http_response \<Rightarrow> 'b http_response" where
  "attach_rate_limit_headers decision response =
     header_insert RATELIMIT_RESET_HEADER (int_dec (dc_retry_after_seconds decision))
       (header_insert RATELIMIT_REMAINING_HEADER (int_dec (dc_remaining decision))
         (header_insert RATELIMIT_LIMIT_HEADER (int_dec (dc_limit decision)) response))"

definition count_outcome ::
    "Surface \<Rightarrow> AuthenticatedKey \<Rightarrow> RateLimitOutcome \<Rightarrow> 'a server_world_scheme \<Rightarrow> 'a server_world_scheme" where
  "count_outcome surface key outcome w =
     (let surface_label = (case surface of Rest \<Rightarrow> ''rest'' | Graphql \<Rightarrow> ''graphql'')
      in w\<lparr>sv_metrics := observe_rate_limit surface_label (ApiKeyTier_as_str (au_tier key)) outcome (sv_metrics w)\<rparr>)"

definition rate_limit_for ::
    "Config \<Rightarrow> limiter_env \<Rightarrow> Surface \<Rightarrow> ('b, 'a server_world_scheme) service \<Rightarrow> ('b, 'a server_world_scheme) service" where
  "rate_limit_for config env surface next_run rq w = (case rq_key rq of
     None \<Rightarrow> (error_response (Internal (Anyhow ''missing authenticated key'')), w)
   | Some key \<Rightarrow>
       (case rate_limiter config w of
          None \<Rightarrow> next_run rq (count_outcome surface key FailOpen w)
        | Some (fails_open, redis) \<Rightarrow>
            (case check env (au_prefix key) surface (from_config config (au_tier key) surface) redis of
               (Inl err, redis') \<Rightarrow>
                 (let w' = w\<lparr>pw_redis := Some redis'\<rparr>
                  in if fails_open then next_run rq (count_outcome surface key FailOpen w')
                     else (error_response (UpstreamUnavailable ''rate limiter unreachable''),
                           count_outcome surface key FailClosed w'))
             | (Inr decision, redis') \<Rightarrow>
                 (let w' = w\<lparr>pw_redis := Some redis'\<rparr>
                  in if \<not> dc_allowed decision then
                       (attach_rate_limit_headers decision
                          (header_insert RETRY_AFTER_HEADER (int_dec (dc_retry_after_seconds decision))
                            (error_response (RateLimited (dc_retry_after_seconds decision)))),
                        count_outcome surface key Limited w')
                     else let (response, w'') = next_run rq (count_outcome surface key Allowed w')
                          in (attach_rate_limit_headers decision response, w'')))))"

section \<open>Tip headers\<close>

definition TIP_HEADER :: string where "TIP_HEADER = ''x-indexer-tip''"
definition TIP_STALE_HEADER :: string where "TIP_STALE_HEADER = ''x-indexer-tip-stale''"

definition is_success :: "nat \<Rightarrow> bool" where
  "is_success status \<longleftrightarrow> 200 \<le> status \<and> status < 300"

definition annotate_tip :: "int \<Rightarrow> TipSnapshot \<Rightarrow> 'b http_response \<Rightarrow> 'b http_response" where
  "annotate_tip now snap response =
     (let response = (case ts_indexer_tip snap of
            None \<Rightarrow> response
          | Some tip \<Rightarrow> header_insert TIP_HEADER (int_dec tip) response)
      in if is_stale now snap then header_insert TIP_STALE_HEADER ''true'' response else response)"

definition tip_headers :: "int \<Rightarrow> ('b, 'a server_world_scheme) service \<Rightarrow> ('b, 'a server_world_scheme) service" where
  "tip_headers now next_run rq w =
     (let (response, w') = next_run rq w
      in (if is_success (rs_status response) then annotate_tip now (sv_tip w') response else response, w'))"

section \<open>Request metrics and logs\<close>

record ApiRequestLogPayload =
  lp_api_key_id :: uuid
  lp_method :: string
  lp_path :: string
  lp_status_code :: u16
  lp_latency_ms :: u32

text \<open>\<^verbatim>\<open>serde_json\<close> on the payload; serialisation that fails leaves the empty string.\<close>

record log_codec =
  lc_to_string :: "ApiRequestLogPayload \<Rightarrow> string option"
  lc_from_str :: "string \<Rightarrow> ApiRequestLogPayload option"

definition MAX_BUFFERED_LOGS :: nat where "MAX_BUFFERED_LOGS = 100000"

definition as_secs :: "nat \<Rightarrow> rat" where "as_secs nanos = of_nat nanos / 1000000000"

text \<open>\<^verbatim>\<open>f64 as u32\<close> truncates and saturates.\<close>

definition latency_ms_of :: "nat \<Rightarrow> u32" where
  "latency_ms_of nanos = min u32_MAX (int (nanos div 1000000))"

record metrics_env =
  me_matched :: "string option"
  me_elapsed :: nat
  me_codec :: log_codec

definition log_payload :: "metrics_env \<Rightarrow> string \<Rightarrow> string \<Rightarrow> nat \<Rightarrow> AuthenticatedKey \<Rightarrow> ApiRequestLogPayload" where
  "log_payload env verb matched_path status key =
     \<lparr>lp_api_key_id = au_id key, lp_method = verb, lp_path = matched_path, lp_status_code = int status,
      lp_latency_ms = latency_ms_of (me_elapsed env)\<rparr>"

definition record_request_metrics ::
    "metrics_env \<Rightarrow> ('b, 'a server_world_scheme) service \<Rightarrow> ('b, 'a server_world_scheme) service" where
  "record_request_metrics env next_run rq w =
     (let verb = http_request.rq_method rq;
          matched_path = unwrap_or (me_matched env) (rq_path rq);
          (response, w') = next_run rq w;
          status = rs_status response;
          w'' = w'\<lparr>sv_metrics := observe_request verb matched_path status (as_secs (me_elapsed env)) (sv_metrics w')\<rparr>
      in case rs_key response of
           None \<Rightarrow> (response, w'')
         | Some key \<Rightarrow>
             (let payload = unwrap_or (lc_to_string (me_codec env) (log_payload env verb matched_path status key)) []
              in (response,
                  if pw_redis w'' = None then w''
                  else w''\<lparr>sv_log_tasks := sv_log_tasks w'' @ [PushThenTrim payload]\<rparr>)))"

section \<open>The outer layers\<close>

definition REQUEST_ID_HEADER :: string where "REQUEST_ID_HEADER = ''x-request-id''"

text \<open>
  Setting and propagating the request identifier: \<open>fresh\<close> is used when the client sent none, and a
  response that already carries one keeps it.
\<close>

definition request_id_layer :: "string \<Rightarrow> ('b, 'w) service \<Rightarrow> ('b, 'w) service" where
  "request_id_layer fresh next_run rq w =
     (let rid = unwrap_or (header_get REQUEST_ID_HEADER rq) fresh;
          rq' = (if header_get REQUEST_ID_HEADER rq = None
                 then rq\<lparr>rq_headers := rq_headers rq @ [(REQUEST_ID_HEADER, rid)]\<rparr> else rq);
          (response, w') = next_run rq' w
      in (if map_of (rs_headers response) REQUEST_ID_HEADER = None then header_insert REQUEST_ID_HEADER rid response else response, w'))"

text \<open>The span of a request as the trace layer records it; status and latency are filled in by the response
  hook.  A latency is a number of nanoseconds.\<close>

record http_span =
  sp_method :: string
  sp_path :: string
  sp_request_id :: string
  sp_status :: "nat option"
  sp_latency_ms :: "u64 option"

definition make_request_span :: "string option \<Rightarrow> http_request \<Rightarrow> http_span" where
  "make_request_span matched rq =
     \<lparr>sp_method = http_request.rq_method rq, sp_path = unwrap_or matched (rq_path rq),
      sp_request_id = unwrap_or (Option.bind (header_get REQUEST_ID_HEADER rq) to_str) ''-'',
      sp_status = None, sp_latency_ms = None\<rparr>"

definition on_response :: "'b http_response \<Rightarrow> nat \<Rightarrow> http_span \<Rightarrow> http_span" where
  "on_response response latency sp =
     sp\<lparr>sp_status := Some (rs_status response),
          sp_latency_ms := Some (let ms = int (latency div 1000000) in if ms \<le> u64_MAX then ms else u64_MAX)\<rparr>"

text \<open>The trace layer sits between the layer that sets the request identifier and the one that copies it to
  the response; the latency it measures is its own.\<close>

definition traced :: "string \<Rightarrow> string option \<Rightarrow> nat \<Rightarrow> ('b, 'w) service \<Rightarrow> http_request \<Rightarrow> 'w \<Rightarrow> http_span" where
  "traced fresh matched latency next_run rq w =
     (let rq' = (if header_get REQUEST_ID_HEADER rq = None
                 then rq\<lparr>rq_headers := rq_headers rq @ [(REQUEST_ID_HEADER, fresh)]\<rparr> else rq)
      in on_response (fst (next_run rq' w)) latency (make_request_span matched rq'))"

definition handle_panic :: "'b http_response" where
  "handle_panic = \<lparr>rs_status = 500, rs_headers = [],
     rs_body = ErrorJson \<lparr>eb_code = ''internal'', eb_message = ''internal error'', eb_details = None\<rparr>, rs_key = None\<rparr>"

definition rest_not_found :: "'b http_response" where
  "rest_not_found = error_response (NotFound ''route not found'')"

record metrics_scrape =
  sc_size :: u32
  sc_num_idle :: u64

text \<open>Serving the snapshot records the pool first; rendering is the library's \<open>render\<close>.\<close>

definition metrics_handler ::
    "(api_metrics \<Rightarrow> string) \<Rightarrow> metrics_scrape \<Rightarrow> 'a server_world_scheme \<Rightarrow> string http_response \<times> 'a server_world_scheme" where
  "metrics_handler render scrape w =
     (let active = sc_size scrape;
          idle = unwrap_or (u32_try_from (sc_num_idle scrape)) u32_MAX;
          w' = w\<lparr>sv_metrics := record_pool active idle (sv_metrics w)\<rparr>
      in (\<lparr>rs_status = 200, rs_headers = [(''content-type'', ''text/plain; version=0.0.4'')],
           rs_body = Payload (render (sv_metrics w')), rs_key = None\<rparr>, w'))"

record CorsLayer =
  allow_origin :: "string list"
  allow_methods :: "string list"
  allow_headers :: "string list"
  allow_credentials :: bool

text \<open>\<open>from_str\<close> is \<^verbatim>\<open>HeaderValue::from_str\<close>.\<close>

definition header_value_from_str :: "string \<Rightarrow> string option" where
  "header_value_from_str s =
     (if list_all (\<lambda>c. let k = of_char c :: nat in (32 \<le> k \<and> k \<noteq> 127) \<or> k = 9) s then Some s else None)"

definition build_cors_layer :: "Config \<Rightarrow> CorsLayer option" where
  "build_cors_layer config = Option.bind (api_cors_allowed_origins config) (\<lambda>raw.
     let origins = List.map_filter header_value_from_str (filter (\<lambda>v. v \<noteq> []) (map trim (split_char (CHR '','') raw)))
     in if origins = [] then None
        else Some \<lparr>allow_origin = origins, allow_methods = [''GET'', ''POST'', ''DELETE'', ''OPTIONS''],
                   allow_headers = [''content-type'', ''accept'', ''authorization'', REQUEST_ID_HEADER], allow_credentials = True\<rparr>)"

end
