(* ===== verification/MetricsWorker.thy ===== *)
theory MetricsWorker
  imports Middleware
begin

text \<open>
  The way of a request log: the spawned tasks of \<^verbatim>\<open>record_request_metrics\<close> push it onto a Redis list
  and trim the list; \<^verbatim>\<open>api/src/metrics_worker.rs\<close> pops batches from the other end and inserts rows.
  Tasks and batches interleave freely, every Redis command and every statement may fail, and the
  reply to a pop may be lost after the entries have left the list.
\<close>

section \<open>Redis lists\<close>

definition LPUSH :: "string \<Rightarrow> string list \<Rightarrow> string list" where "LPUSH x q = x # q"

text \<open>\<^verbatim>\<open>LTRIM 0 (n - 1)\<close>.\<close>

definition LTRIM :: "nat \<Rightarrow> string list \<Rightarrow> string list" where "LTRIM n q = take n q"

text \<open>\<^verbatim>\<open>RPOP\<close> with a count: the popped elements, last one first, and the rest.\<close>

definition RPOP :: "nat \<Rightarrow> string list \<Rightarrow> string list \<times> string list" where
  "RPOP n q = (take n (rev q), take (length q - n) q)"

definition logs_of :: "'a api_world_scheme \<Rightarrow> string list" where
  "logs_of w = (case pw_redis w of None \<Rightarrow> [] | Some r \<Rightarrow> rd_request_logs r)"

definition set_logs :: "string list \<Rightarrow> 'a api_world_scheme \<Rightarrow> 'a api_world_scheme" where
  "set_logs q w = w\<lparr>pw_redis := map_option (\<lambda>r. r\<lparr>rd_request_logs := q\<rparr>) (pw_redis w)\<rparr>"

section \<open>Writing a log\<close>

text \<open>The next command of the task at position \<open>i\<close>; the outcome of either command is ignored.\<close>

definition log_task_step :: "nat \<Rightarrow> bool \<Rightarrow> 'a server_world_scheme \<Rightarrow> 'a server_world_scheme" where
  "log_task_step i fault w =
     (if i < length (sv_log_tasks w) then
        (case sv_log_tasks w ! i of
           PushThenTrim payload \<Rightarrow>
             (let w' = (if fault then w else set_logs (LPUSH payload (logs_of w)) w)
              in w'\<lparr>sv_log_tasks := (sv_log_tasks w)[i := TrimOnly]\<rparr>)
         | TrimOnly \<Rightarrow>
             (let w' = (if fault then w else set_logs (LTRIM MAX_BUFFERED_LOGS (logs_of w)) w)
              in w'\<lparr>sv_log_tasks := take i (sv_log_tasks w) @ drop (Suc i) (sv_log_tasks w)\<rparr>))
      else w)"

section \<open>The worker\<close>

definition BATCH_SIZE :: nat where "BATCH_SIZE = 100"
definition MAX_BATCHES_PER_TICK :: nat where "MAX_BATCHES_PER_TICK = 10"

text \<open>
  One insertion: \<^verbatim>\<open>u16 as i16\<close> and \<^verbatim>\<open>u32 as i32\<close> wrap around, and the key must exist.  The serial
  number is taken before the constraint is checked.
\<close>

definition insert_request_log ::
    "bool \<Rightarrow> timestamp \<Rightarrow> ApiRequestLogPayload \<Rightarrow> 'a server_world_scheme \<Rightarrow> (DbError + unit) \<times> 'a server_world_scheme" where
  "insert_request_log fault now p w =
     (if fault then (Inl (Sqlx Driver), w)
      else let row = \<lparr>lg_id = sv_next_log_id w, lg_timestamp = now, lg_api_key_id = lp_api_key_id p, lg_method = lp_method p,
                      lg_path = lp_path p, lg_status_code = as_i16 (lp_status_code p), lg_latency_ms = as_i32 (lp_latency_ms p)\<rparr>;
               w' = w\<lparr>sv_next_log_id := sv_next_log_id w + 1\<rparr>
           in if lp_api_key_id p \<notin> ak_id ` set (ac_keys (aw_accounts w)) then (Inl (Sqlx Driver), w')
              else (Inr (), w'\<lparr>sv_request_logs := sv_request_logs w @ [row]\<rparr>))"

record batch_env =
  be_rpop :: redis_fault
  be_insert_fault :: "nat \<Rightarrow> bool"
  be_now :: "nat \<Rightarrow> timestamp"

text \<open>The loop over a batch: an entry that does not parse is skipped, a failed insertion is logged.\<close>

fun persist :: "log_codec \<Rightarrow> batch_env \<Rightarrow> nat \<Rightarrow> string list \<Rightarrow> 'a server_world_scheme \<Rightarrow> 'a server_world_scheme" where
  "persist serde env k [] w = w"
| "persist serde env k (json_str # items) w =
     persist serde env (Suc k) items
       (case lc_from_str serde json_str of
          None \<Rightarrow> w
        | Some payload \<Rightarrow> snd (insert_request_log (be_insert_fault env k) (be_now env k) payload w))"

text \<open>One batch: what was popped, whether the loop goes on, and the world afterwards.\<close>

definition worker_batch ::
    "log_codec \<Rightarrow> batch_env \<Rightarrow> 'a server_world_scheme \<Rightarrow> bool \<times> 'a server_world_scheme" where
  "worker_batch serde env w =
     (let (items, rest) = RPOP BATCH_SIZE (logs_of w)
      in case be_rpop env of
           NotDelivered \<Rightarrow> (False, w)
         | ReplyLost \<Rightarrow> (False, set_logs rest w)
         | Delivered \<Rightarrow>
             if items = [] then (False, set_logs rest w)
             else let drained = length items; w' = persist serde env 0 items (set_logs rest w)
                  in (\<not> drained < BATCH_SIZE, w'))"

fun worker_loop :: "log_codec \<Rightarrow> (nat \<Rightarrow> batch_env) \<Rightarrow> nat \<Rightarrow> 'a server_world_scheme \<Rightarrow> 'a server_world_scheme" where
  "worker_loop serde envs 0 w = w"
| "worker_loop serde envs (Suc batches_remaining) w =
     (case worker_batch serde (envs batches_remaining) w of
        (continue, w') \<Rightarrow> if continue then worker_loop serde envs batches_remaining w' else w')"

definition worker_tick :: "log_codec \<Rightarrow> (nat \<Rightarrow> batch_env) \<Rightarrow> 'a server_world_scheme \<Rightarrow> 'a server_world_scheme" where
  "worker_tick serde envs w = worker_loop serde envs MAX_BATCHES_PER_TICK w"

section \<open>What a tick persists\<close>

lemma logs_of_set [simp]: "logs_of (set_logs q w) = (if pw_redis w = None then [] else q)"
  by (auto simp: logs_of_def set_logs_def)

lemma set_logs_frame [simp]:
  "sv_log_tasks (set_logs q w) = sv_log_tasks w" "sv_request_logs (set_logs q w) = sv_request_logs w"
  "aw_accounts (set_logs q w) = aw_accounts w" "(pw_redis (set_logs q w) = None) = (pw_redis w = None)"
  by (simp_all add: set_logs_def)

text \<open>The row content a popped entry stands for, when it parses and its key exists.\<close>

definition row_of :: "log_codec \<Rightarrow> account_db \<Rightarrow> string \<Rightarrow> (uuid \<times> string \<times> string \<times> i16 \<times> i32) option" where
  "row_of serde a s = (case lc_from_str serde s of
     None \<Rightarrow> None
   | Some p \<Rightarrow> if lp_api_key_id p \<in> ak_id ` set (ac_keys a)
       then Some (lp_api_key_id p, lp_method p, lp_path p, as_i16 (lp_status_code p), as_i32 (lp_latency_ms p)) else None)"

definition row_content :: "RequestLogRow \<Rightarrow> uuid \<times> string \<times> string \<times> i16 \<times> i32" where
  "row_content r = (lg_api_key_id r, lg_method r, lg_path r, lg_status_code r, lg_latency_ms r)"

lemma insert_request_log_frame:
  "logs_of (snd (insert_request_log fault now p w)) = logs_of w"
  "aw_accounts (snd (insert_request_log fault now p w)) = aw_accounts w"
  "sv_log_tasks (snd (insert_request_log fault now p w)) = sv_log_tasks w"
  "pw_redis (snd (insert_request_log fault now p w)) = pw_redis w"
  by (auto simp: insert_request_log_def logs_of_def Let_def)

lemma persist_frame:
  "logs_of (persist serde env k items w) = logs_of w" "aw_accounts (persist serde env k items w) = aw_accounts w"
  "sv_log_tasks (persist serde env k items w) = sv_log_tasks w" "pw_redis (persist serde env k items w) = pw_redis w"
  by (induction items arbitrary: k w) (simp_all add: insert_request_log_frame split: option.splits)

lemma insert_request_log_row:
  assumes "lc_from_str serde s = Some p"
  shows "map row_content (sv_request_logs (snd (insert_request_log False now p w))) =
    map row_content (sv_request_logs w) @ (case row_of serde (aw_accounts w) s of None \<Rightarrow> [] | Some r \<Rightarrow> [r])"
  using assms by (simp add: insert_request_log_def row_of_def row_content_def Let_def)

lemma persist_rows:
  assumes "\<And>j. \<not> be_insert_fault env j"
  shows "map row_content (sv_request_logs (persist serde env k items w)) =
    map row_content (sv_request_logs w) @ List.map_filter (row_of serde (aw_accounts w)) items"
proof (induction items arbitrary: k w)
  case Nil
  show ?case by (simp add: List.map_filter_def)
next
  case (Cons s items)
  show ?case
  proof (cases "lc_from_str serde s")
    case None
    then show ?thesis using Cons.IH by (simp add: map_filter_simps row_of_def)
  next
    case (Some p)
    then show ?thesis using Cons.IH
      by (simp add: insert_request_log_row [OF Some] map_filter_simps insert_request_log_frame assms split: option.splits)
  qed
qed

lemma take_take_rev: "m \<le> n \<Longrightarrow> take n (rev q) = take m (rev q) @ take (n - m) (rev (take (length q - m) q))"
  by (simp add: drop_rev [symmetric] take_add [symmetric])

text \<open>A tick in which nothing fails, against the plain move of the oldest thousand entries.\<close>

lemma worker_loop_moves:
  assumes "\<And>n. be_rpop (envs n) = Delivered" "\<And>n j. \<not> be_insert_fault (envs n) j"
  shows "map row_content (sv_request_logs (worker_loop serde envs n w)) =
      map row_content (sv_request_logs w) @ List.map_filter (row_of serde (aw_accounts w)) (take (n * BATCH_SIZE) (rev (logs_of w))) \<and>
    logs_of (worker_loop serde envs n w) = take (length (logs_of w) - n * BATCH_SIZE) (logs_of w)"
proof (induction n arbitrary: w)
  case 0
  show ?case by (simp add: List.map_filter_def)
next
  case (Suc n)
  let ?q = "logs_of w" and ?B = "BATCH_SIZE"
  let ?items = "take ?B (rev ?q)" and ?rest = "take (length ?q - ?B) ?q"
  let ?w = "persist serde (envs n) 0 ?items (set_logs ?rest w)"
  have B: "0 < ?B" by (simp add: BATCH_SIZE_def)
  have none: "pw_redis w = None \<Longrightarrow> ?q = []" by (simp add: logs_of_def)
  have rest: "logs_of (set_logs ?rest w) = ?rest" using none by auto
  show ?case
  proof (cases "length ?q < ?B")
    case True
    then have "take (Suc n * ?B) (rev ?q) = rev ?q" "?items = rev ?q" "?rest = []" by simp_all
    then show ?thesis using True rest assms B
      by (cases "?q = []")
        (simp_all add: worker_batch_def RPOP_def Let_def persist_frame persist_rows List.map_filter_def)
  next
    case False
    then have batch: "worker_batch serde (envs n) w = (True, ?w)"
      using assms(1) B by (auto simp: worker_batch_def RPOP_def Let_def)
    have "aw_accounts ?w = aw_accounts w" "logs_of ?w = ?rest" using rest by (simp_all add: persist_frame)
    moreover have "map row_content (sv_request_logs ?w) =
        map row_content (sv_request_logs w) @ List.map_filter (row_of serde (aw_accounts w)) ?items"
      using assms(2) by (simp add: persist_rows)
    moreover have "take (Suc n * ?B) (rev ?q) = ?items @ take (n * ?B) (rev ?rest)"
      using take_take_rev [of ?B "Suc n * ?B" ?q] by simp
    moreover have "take (length ?rest - n * ?B) ?rest = take (length ?q - Suc n * ?B) ?q"
    proof -
      have "length ?rest - n * ?B = length ?q - Suc n * ?B" using False by simp
      then show ?thesis by simp
    qed
    ultimately show ?thesis using Suc.IH [of ?w] by (simp add: batch map_filter_def)
  qed
qed

section \<open>Interleavings\<close>

text \<open>
  The runs of the queue, with everything that entered the list so far, what the worker received,
  what left the list otherwise (trimmed away, or popped by a command whose reply was lost), and how
  many trims failed.  Anything else may happen to the rest of the world in between.
\<close>

definition entered :: "nat \<Rightarrow> bool \<Rightarrow> 'a server_world_scheme \<Rightarrow> string list" where
  "entered i fault w = (if fault \<or> pw_redis w = None \<or> \<not> i < length (sv_log_tasks w) then []
     else case sv_log_tasks w ! i of PushThenTrim p \<Rightarrow> [p] | TrimOnly \<Rightarrow> [])"

definition trimmed :: "nat \<Rightarrow> bool \<Rightarrow> 'a server_world_scheme \<Rightarrow> string list" where
  "trimmed i fault w = (if fault \<or> \<not> i < length (sv_log_tasks w) \<or> sv_log_tasks w ! i \<noteq> TrimOnly then []
     else take (length (logs_of w) - MAX_BUFFERED_LOGS) (rev (logs_of w)))"

definition trim_failed :: "nat \<Rightarrow> bool \<Rightarrow> 'a server_world_scheme \<Rightarrow> bool" where
  "trim_failed i fault w \<longleftrightarrow> fault \<and> i < length (sv_log_tasks w) \<and> sv_log_tasks w ! i = TrimOnly"

inductive log_run :: "log_codec \<Rightarrow> string list \<Rightarrow> string list \<Rightarrow> string list \<Rightarrow> nat \<Rightarrow> 'a server_world_scheme \<Rightarrow> bool"
  for serde :: log_codec where
  start: "logs_of w = [] \<Longrightarrow> sv_log_tasks w = [] \<Longrightarrow> log_run serde [] [] [] 0 w"
| elsewhere: "log_run serde pushed received lost f w \<Longrightarrow> logs_of w' = logs_of w \<Longrightarrow> sv_log_tasks w' = sv_log_tasks w
    \<Longrightarrow> log_run serde pushed received lost f w'"
| spawned: "log_run serde pushed received lost f w \<Longrightarrow> logs_of w' = logs_of w
    \<Longrightarrow> sv_log_tasks w' = sv_log_tasks w @ [PushThenTrim p] \<Longrightarrow> log_run serde pushed received lost f w'"
| task: "log_run serde pushed received lost f w
    \<Longrightarrow> log_run serde (pushed @ entered i fault w) received (lost @ trimmed i fault w)
          (f + (if trim_failed i fault w then 1 else 0)) (log_task_step i fault w)"
| batch: "log_run serde pushed received lost f w \<Longrightarrow> items = fst (RPOP BATCH_SIZE (logs_of w))
    \<Longrightarrow> log_run serde pushed (received @ (if be_rpop env = Delivered then items else []))
          (lost @ (if be_rpop env = ReplyLost then items else [])) f (snd (worker_batch serde env w))"

lemma shuffles_append_left: "zs \<in> shuffles xs ys \<Longrightarrow> zs @ x \<in> shuffles (xs @ x) ys"
proof (induction xs ys arbitrary: zs rule: shuffles.induct)
  case (1 ys)
  then show ?case by (induction ys arbitrary: zs) (cases x; auto simp: Cons_in_shuffles_iff)+
next
  case (2 xs)
  then show ?case by simp
next
  case (3 a xs b ys)
  then show ?case by (cases zs) (auto simp: Cons_in_shuffles_iff)
qed

lemma shuffles_append_right: "zs \<in> shuffles xs ys \<Longrightarrow> zs @ y \<in> shuffles xs (ys @ y)"
  using shuffles_append_left [of zs ys xs y] by (simp add: shuffles_commutes)

definition trims :: "log_task list \<Rightarrow> nat" where
  "trims ts = length (filter (\<lambda>t. t = TrimOnly) ts)"

lemma trims_update: "i < length ts \<Longrightarrow> ts ! i = PushThenTrim p \<Longrightarrow> trims (ts[i := TrimOnly]) = trims ts + 1"
  unfolding trims_def by (subst (2) id_take_nth_drop [of i ts]) (simp_all add: upd_conv_take_nth_drop)

lemma trims_remove: "i < length ts \<Longrightarrow> ts ! i = TrimOnly \<Longrightarrow> trims ts = trims (take i ts @ drop (Suc i) ts) + 1"
  unfolding trims_def by (subst id_take_nth_drop [of i ts]) simp_all

lemma logs_of_shrunk [simp]: "logs_of (set_logs (take n (logs_of w)) w) = take n (logs_of w)"
  "logs_of (set_logs (logs_of w) w) = logs_of w" "logs_of (set_logs [] w) = []"
  by (cases "pw_redis w"; simp add: logs_of_def set_logs_def)+

lemma worker_batch_logs:
  "logs_of (snd (worker_batch serde env w)) =
     (if be_rpop env = NotDelivered then logs_of w else take (length (logs_of w) - BATCH_SIZE) (logs_of w))"
  "sv_log_tasks (snd (worker_batch serde env w)) = sv_log_tasks w"
  by (simp_all add: worker_batch_def RPOP_def Let_def persist_frame del: logs_of_set split: redis_fault.splits)

lemma rev_take_split: "rev q = take k (rev q) @ rev (take (length q - k) q)"
  by (simp add: drop_rev [symmetric])

lemma log_task_step_cases:
  obtains (push) p where "i < length (sv_log_tasks w)" "sv_log_tasks w ! i = PushThenTrim p" "trimmed i fault w = []" "\<not> trim_failed i fault w"
      "logs_of (log_task_step i fault w) = rev (entered i fault w) @ logs_of w"
      "trims (sv_log_tasks (log_task_step i fault w)) = trims (sv_log_tasks w) + 1" "length (entered i fault w) \<le> 1"
  | (trim) "i < length (sv_log_tasks w)" "sv_log_tasks w ! i = TrimOnly" "entered i fault w = []"
      "logs_of (log_task_step i fault w) = (if fault then logs_of w else take MAX_BUFFERED_LOGS (logs_of w))"
      "trims (sv_log_tasks w) = trims (sv_log_tasks (log_task_step i fault w)) + 1"
  | (idle) "log_task_step i fault w = w" "entered i fault w = []" "trimmed i fault w = []" "\<not> trim_failed i fault w"
proof (cases "i < length (sv_log_tasks w)")
  case True
  show thesis
  proof (cases "sv_log_tasks w ! i")
    case (PushThenTrim p)
    have "logs_of (log_task_step i fault w) = rev (entered i fault w) @ logs_of w"
      using True PushThenTrim by (cases "pw_redis w") (simp_all add: log_task_step_def entered_def LPUSH_def logs_of_def set_logs_def)
    moreover have "trims (sv_log_tasks (log_task_step i fault w)) = trims (sv_log_tasks w) + 1"
      using True PushThenTrim by (simp add: log_task_step_def trims_update Let_def)
    ultimately show thesis using True PushThenTrim by (intro push) (auto simp: trimmed_def trim_failed_def entered_def)
  next
    case TrimOnly
    have "logs_of (log_task_step i fault w) = (if fault then logs_of w else take MAX_BUFFERED_LOGS (logs_of w))"
      using True TrimOnly by (cases "pw_redis w") (simp_all add: log_task_step_def LTRIM_def logs_of_def set_logs_def)
    moreover have "trims (sv_log_tasks w) = trims (sv_log_tasks (log_task_step i fault w)) + 1"
      using trims_remove [OF True TrimOnly] True TrimOnly by (simp add: log_task_step_def Let_def)
    ultimately show thesis using True TrimOnly by (intro trim) (auto simp: entered_def)
  qed
qed (auto intro!: idle simp: log_task_step_def entered_def trimmed_def trim_failed_def)

text \<open>C35: in every interleaving of requests, log tasks and worker batches, with any of their commands
  failing, the list holds exactly the newest entries: what left it before them is an in-order
  interleaving of what the worker received and what was lost, so the worker receives every entry at
  most once and oldest first.  The list never holds more than the cap plus one entry per trim that
  is still to run or has failed.\<close>

theorem log_queue_fifo_and_bounded:
  assumes "log_run serde pushed received lost f w"
  shows "(\<exists>gone \<in> shuffles received lost. pushed = gone @ rev (logs_of w)) \<and>
    length (logs_of w) \<le> MAX_BUFFERED_LOGS + trims (sv_log_tasks w) + f"
  using assms
proof (induction rule: log_run.induct)
  case (start w)
  then show ?case by (simp add: trims_def)
next
  case (elsewhere pushed received lost f w w')
  then show ?case by simp
next
  case (spawned pushed received lost f w w' p)
  then show ?case by (simp add: trims_def)
next
  case (task pushed received lost f w i fault)
  then obtain gone where gone: "gone \<in> shuffles received lost" "pushed = gone @ rev (logs_of w)"
    "length (logs_of w) \<le> MAX_BUFFERED_LOGS + trims (sv_log_tasks w) + f" by blast
  show ?case
  proof (cases rule: log_task_step_cases [of i w fault])
    case (push p)
    then show ?thesis using gone by auto
  next
    case trim
    then show ?thesis
    proof (cases fault)
      case True
      then show ?thesis using gone trim by (auto simp: trimmed_def trim_failed_def)
    next
      case False
      let ?k = "length (logs_of w) - MAX_BUFFERED_LOGS"
      have "gone @ take ?k (rev (logs_of w)) \<in> shuffles received (lost @ take ?k (rev (logs_of w)))"
        using gone(1) by (rule shuffles_append_right)
      moreover have "take MAX_BUFFERED_LOGS (logs_of w) = take (length (logs_of w) - ?k) (logs_of w)"
        by (cases "length (logs_of w) \<le> MAX_BUFFERED_LOGS") simp_all
      then have "rev (logs_of w) = take ?k (rev (logs_of w)) @ rev (take MAX_BUFFERED_LOGS (logs_of w))"
        using rev_take_split [of "logs_of w" ?k] by simp
      ultimately show ?thesis using trim False gone(2)
        by (auto simp: trimmed_def trim_failed_def intro!: bexI [of _ "gone @ take ?k (rev (logs_of w))"])
    qed
  next
    case idle
    then show ?thesis using gone by auto
  qed
next
  case (batch pushed received lost f w items env)
  then obtain gone where gone: "gone \<in> shuffles received lost" "pushed = gone @ rev (logs_of w)"
    "length (logs_of w) \<le> MAX_BUFFERED_LOGS + trims (sv_log_tasks w) + f" by blast
  have items: "items = take BATCH_SIZE (rev (logs_of w))" using batch.hyps(2) by (simp add: RPOP_def)
  have split: "rev (logs_of w) = items @ rev (take (length (logs_of w) - BATCH_SIZE) (logs_of w))"
    unfolding items by (rule rev_take_split)
  show ?case
  proof (cases "be_rpop env")
    case Delivered
    then show ?thesis using gone split shuffles_append_left [OF gone(1), of items]
      by (auto simp: worker_batch_logs intro!: bexI [of _ "gone @ items"])
  next
    case NotDelivered
    then show ?thesis using gone by (auto simp: worker_batch_logs)
  next
    case ReplyLost
    then show ?thesis using gone split shuffles_append_right [OF gone(1), of items]
      by (auto simp: worker_batch_logs intro!: bexI [of _ "gone @ items"])
  qed
qed

text \<open>A tick in which nothing fails moves the oldest thousand buffered entries, or all when there are
  fewer, into the table: one row per entry that parses and whose key still exists, in the order the
  requests were logged, and leaves exactly the newer entries in the list.\<close>

theorem worker_tick_moves_oldest:
  assumes "\<And>n. be_rpop (envs n) = Delivered" "\<And>n j. \<not> be_insert_fault (envs n) j"
  shows "map row_content (sv_request_logs (worker_tick serde envs w)) =
      map row_content (sv_request_logs w) @ List.map_filter (row_of serde (aw_accounts w)) (take 1000 (rev (logs_of w))) \<and>
    logs_of (worker_tick serde envs w) = take (length (logs_of w) - 1000) (logs_of w)"
  using worker_loop_moves [where n = MAX_BATCHES_PER_TICK and serde = serde and w = w, OF assms]
  by (simp add: worker_tick_def MAX_BATCHES_PER_TICK_def BATCH_SIZE_def)

end
