(* ===== verification/AdminMetrics.thy ===== *)
theory AdminMetrics
  imports Middleware
begin

text \<open>
  \<^verbatim>\<open>api/src/routes/admin_metrics.rs\<close>: the charts of the dashboard, computed from the table of request
  logs.  Averages and percentiles, \<^verbatim>\<open>f64\<close> in the code, are exact rationals; rows with equal sort keys,
  whose order SQL leaves open, stay in insertion order.  Timestamps are microseconds, and hours are
  those of a time zone with a whole number of hours to UTC.
\<close>

section \<open>The rows of a user\<close>

abbreviation hour :: int where "hour \<equiv> 3600000000"

definition date_trunc_hour :: "timestamp \<Rightarrow> timestamp" where
  "date_trunc_hour t = t div hour * hour"

text \<open>\<^verbatim>\<open>path LIKE '/graphql%'\<close>\<close>

definition is_graphql :: "RequestLogRow \<Rightarrow> bool" where
  "is_graphql l \<longleftrightarrow> take 8 (lg_path l) = ''/graphql''"

definition user_key_ids :: "uuid \<Rightarrow> account_db \<Rightarrow> uuid set" where
  "user_key_ids user_id a = ak_id ` set (filter (\<lambda>k. ak_user_id k = user_id) (ac_keys a))"

definition owned_logs :: "uuid \<Rightarrow> 'a server_world_scheme \<Rightarrow> RequestLogRow list" where
  "owned_logs user_id w = filter (\<lambda>l. lg_api_key_id l \<in> user_key_ids user_id (aw_accounts w)) (sv_request_logs w)"

definition since :: "timestamp \<Rightarrow> RequestLogRow list \<Rightarrow> RequestLogRow list" where
  "since t ls = filter (\<lambda>l. t \<le> lg_timestamp l) ls"

definition count_if :: "('r \<Rightarrow> bool) \<Rightarrow> 'r list \<Rightarrow> i64" where
  "count_if P ls = int (length (filter P ls))"

text \<open>
  \<^verbatim>\<open>PERCENTILE_CONT(p) WITHIN GROUP (ORDER BY ...)\<close>: interpolation between the two rows around
  position \<open>p (n - 1)\<close>.
\<close>

definition percentile_cont :: "rat \<Rightarrow> int list \<Rightarrow> rat option" where
  "percentile_cont p xs =
     (if xs = [] then None
      else let ys = sort xs;
               pos = p * of_nat (length ys - 1);
               lo = nat \<lfloor>pos\<rfloor>; hi = nat \<lceil>pos\<rceil>
           in Some (of_int (ys ! lo) + (pos - of_nat lo) * (of_int (ys ! hi) - of_int (ys ! lo))))"

definition p95 :: "RequestLogRow list \<Rightarrow> rat" where
  "p95 ls = unwrap_or (percentile_cont (95 / 100) (map lg_latency_ms ls)) 0"

text \<open>The failure of a statement, wrapped as an internal error.\<close>

definition query :: "bool \<Rightarrow> 'v \<Rightarrow> ApiError + 'v" where
  "query fault v = (if fault then Inl (Internal (DbCause (Sqlx Driver))) else Inr v)"

section \<open>The handlers\<close>

record UsageDataPoint =
  ud_timestamp :: timestamp
  ud_rest :: i64
  ud_graphql :: i64

definition usage :: "bool \<Rightarrow> timestamp \<Rightarrow> uuid \<Rightarrow> 'a server_world_scheme \<Rightarrow> ApiError + UsageDataPoint list" where
  "usage fault now user_id w =
     (let recent = since (now - 24 * hour) (owned_logs user_id w);
          groups = sorted_list_of_set (set (map (\<lambda>l. date_trunc_hour (lg_timestamp l)) recent))
      in query fault (map (\<lambda>ts.
           let rows = filter (\<lambda>l. date_trunc_hour (lg_timestamp l) = ts) recent
           in \<lparr>ud_timestamp = ts, ud_rest = count_if (\<lambda>l. \<not> is_graphql l) rows, ud_graphql = count_if is_graphql rows\<rparr>) groups))"

record ActivityRow =
  av_method :: string
  av_path :: string
  av_key :: string
  av_status :: i16
  av_ms :: i32
  av_timestamp :: timestamp

text \<open>The join of the logs with the keys of the user.\<close>

definition joined :: "uuid \<Rightarrow> 'a server_world_scheme \<Rightarrow> (RequestLogRow \<times> ApiKey) list" where
  "joined user_id w = concat (map (\<lambda>l. map (\<lambda>k. (l, k))
     (filter (\<lambda>k. lg_api_key_id l = ak_id k \<and> ak_user_id k = user_id) (ac_keys (aw_accounts w)))) (sv_request_logs w))"

definition newest_first :: "(RequestLogRow \<times> ApiKey) list \<Rightarrow> (RequestLogRow \<times> ApiKey) list" where
  "newest_first rows = sort_key (\<lambda>(l, _). - lg_timestamp l) rows"

definition activity :: "bool \<Rightarrow> uuid \<Rightarrow> 'a server_world_scheme \<Rightarrow> ApiError + ActivityRow list" where
  "activity fault user_id w = query fault
     (map (\<lambda>(l, k). \<lparr>av_method = lg_method l, av_path = lg_path l, av_key = ak_prefix k, av_status = lg_status_code l,
                      av_ms = lg_latency_ms l, av_timestamp = lg_timestamp l\<rparr>)
        (take 10 (newest_first (joined user_id w))))"

record NodeStatus =
  nd_name :: string
  nd_tip :: i64
  nd_sync_status :: string
  nd_latency :: i32

record StatusResponse =
  st_network :: string
  st_nodes :: "NodeStatus list"
  st_snapshot_age_seconds :: u64

definition status :: "int \<Rightarrow> string option \<Rightarrow> 'a server_world_scheme \<Rightarrow> StatusResponse" where
  "status now query_network w =
     (let network = unwrap_or query_network ''mainnet'';
          tip = sv_tip w;
          name = (if network = ''testnet'' then ''ckb-pizza-01 (primary)'' else ''ckb-node-01 (primary)'')
      in \<lparr>st_network = network,
          st_nodes = [\<lparr>nd_name = name, nd_tip = unwrap_or (i64_try_from (unwrap_or (ts_node_tip tip) 0)) 0,
                       nd_sync_status = (if is_stale now tip then ''syncing'' else ''synced''), nd_latency = 0\<rparr>],
          st_snapshot_age_seconds = elapsed now (ts_observed_monotonic tip) div nanos_per_sec\<rparr>)"

record MetricsSummary =
  ms_rest_p95_ms :: rat
  ms_graphql_p95_ms :: rat
  ms_error_rate :: rat
  ms_rate_limit_count :: i64
  ms_rate_limit_rate :: rat
  ms_vs_yesterday_percent :: rat

definition percent :: "i64 \<Rightarrow> i64 \<Rightarrow> rat" where
  "percent part whole = (if whole > 0 then of_int part / of_int whole * 100 else 0)"

definition summary :: "bool \<Rightarrow> timestamp \<Rightarrow> uuid \<Rightarrow> 'a server_world_scheme \<Rightarrow> ApiError + MetricsSummary" where
  "summary fault now user_id w =
     (let rows = since (now - 48 * hour) (owned_logs user_id w);
          is_recent = (\<lambda>l. now - 24 * hour \<le> lg_timestamp l);
          recent = count_if is_recent rows;
          old = count_if (\<lambda>l. now - 48 * hour \<le> lg_timestamp l \<and> lg_timestamp l < now - 24 * hour) rows;
          errors = count_if (\<lambda>l. is_recent l \<and> 400 \<le> lg_status_code l \<and> lg_status_code l \<noteq> 429) rows;
          rl = count_if (\<lambda>l. is_recent l \<and> lg_status_code l = 429) rows
      in query fault
           \<lparr>ms_rest_p95_ms = p95 (filter (\<lambda>l. is_recent l \<and> \<not> is_graphql l) rows),
            ms_graphql_p95_ms = p95 (filter (\<lambda>l. is_recent l \<and> is_graphql l) rows),
            ms_error_rate = percent errors recent, ms_rate_limit_count = rl, ms_rate_limit_rate = percent rl recent,
            ms_vs_yesterday_percent =
              (if old > 0 then (of_int recent - of_int old) / of_int old * 100 else if recent > 0 then 100 else 0)\<rparr>)"

record EndpointRow =
  en_endpoint :: string
  en_requests :: i64
  en_p95_ms :: i32

text \<open>\<^verbatim>\<open>f64 as i32\<close> truncates towards zero and saturates.\<close>

definition rat_as_i32 :: "rat \<Rightarrow> i32" where
  "rat_as_i32 x = saturate (- i32_MAX - 1) i32_MAX (if x < 0 then \<lceil>x\<rceil> else \<lfloor>x\<rfloor>)"

definition endpoints :: "bool \<Rightarrow> timestamp \<Rightarrow> uuid \<Rightarrow> 'a server_world_scheme \<Rightarrow> ApiError + EndpointRow list" where
  "endpoints fault now user_id w =
     (let recent = since (now - 24 * hour) (owned_logs user_id w);
          rows = map (\<lambda>path. let ls = filter (\<lambda>l. lg_path l = path) recent in (path, int (length ls), p95 ls))
                   (remdups (map lg_path recent))
      in query fault (map (\<lambda>(path, requests, p). \<lparr>en_endpoint = path, en_requests = requests, en_p95_ms = rat_as_i32 p\<rparr>)
           (take 10 (sort_key (\<lambda>(_, requests, _). - requests) rows))))"

record RateLimitRow =
  rw_endpoint :: string
  rw_key :: string
  rw_surface :: string
  rw_ts :: timestamp
  rw_retry_after :: i32

definition rate_limits :: "bool \<Rightarrow> uuid \<Rightarrow> 'a server_world_scheme \<Rightarrow> ApiError + RateLimitRow list" where
  "rate_limits fault user_id w = query fault
     (map (\<lambda>(l, k). \<lparr>rw_endpoint = lg_path l, rw_key = ak_prefix k,
                      rw_surface = (if is_graphql l then ''GraphQL'' else ''REST''), rw_ts = lg_timestamp l, rw_retry_after = 60\<rparr>)
        (take 10 (newest_first (filter (\<lambda>(l, _). lg_status_code l = 429) (joined user_id w)))))"

section \<open>Whose requests are shown\<close>

definition keys_of :: "uuid \<Rightarrow> account_db \<Rightarrow> ApiKey list" where
  "keys_of user_id a = filter (\<lambda>k. ak_user_id k = user_id) (ac_keys a)"

lemma joined_owned: "joined user_id w = concat (map (\<lambda>l. map (\<lambda>k. (l, k))
    (filter (\<lambda>k. lg_api_key_id l = ak_id k) (keys_of user_id (aw_accounts w)))) (owned_logs user_id w))"
proof -
  let ?ks = "ac_keys (aw_accounts w)"
  have eq: "filter (\<lambda>k. lg_api_key_id l = ak_id k \<and> ak_user_id k = user_id) ?ks =
      filter (\<lambda>k. lg_api_key_id l = ak_id k) (keys_of user_id (aw_accounts w))" for l
    by (simp add: keys_of_def conj_commute)
  have "concat (map f ls) = concat (map f (filter P ls))" if "\<And>l. \<not> P l \<Longrightarrow> f l = []"
    for P and f :: "RequestLogRow \<Rightarrow> (RequestLogRow \<times> ApiKey) list" and ls
    using that by (induction ls) auto
  then show ?thesis unfolding joined_def owned_logs_def eq
    by (rule meta_mp) (auto simp: user_key_ids_def keys_of_def filter_empty_conv)
qed

lemma owned_logs_keys: "owned_logs user_id w =
    filter (\<lambda>l. lg_api_key_id l \<in> ak_id ` set (keys_of user_id (aw_accounts w))) (sv_request_logs w)"
  by (simp add: owned_logs_def user_key_ids_def keys_of_def)


section \<open>The numbers add up\<close>

lemma sum_groups:
  assumes "finite T" "f ` set ls \<subseteq> T"
  shows "(\<Sum>t \<in> T. length (filter (\<lambda>l. f l = t) ls)) = length ls"
  using assms(2)
proof (induction ls)
  case (Cons l ls)
  have "(\<Sum>t \<in> T. length (filter (\<lambda>x. f x = t) (l # ls))) =
      (\<Sum>t \<in> T. length (filter (\<lambda>x. f x = t) ls) + (if f l = t then 1 else 0))"
    by (intro sum.cong) simp_all
  also have "\<dots> = length ls + 1"
    using Cons assms(1) by (simp add: sum.distrib)
  finally show ?case by simp
qed simp

lemma count_split: "count_if (\<lambda>l. \<not> P l) ls + count_if P ls = int (length ls)"
  by (induction ls) (simp_all add: count_if_def)

lemma percentile_between:
  assumes "percentile_cont p xs = Some r" "0 \<le> p" "p \<le> 1"
  shows "\<exists>a \<in> set xs. \<exists>b \<in> set xs. of_int a \<le> r \<and> r \<le> of_int b"
proof -
  let ?ys = "sort xs"
  define pos where "pos = p * of_nat (length ?ys - 1)"
  have ne: "xs \<noteq> []" using assms(1) by (auto simp: percentile_cont_def)
  have pos: "0 \<le> pos" "pos \<le> of_nat (length ?ys - 1)"
    using assms(2,3) by (simp_all add: pos_def mult_left_le_one_le)
  define lo hi where "lo = nat \<lfloor>pos\<rfloor>" and "hi = nat \<lceil>pos\<rceil>"
  have hi: "hi < length ?ys"
  proof -
    have "\<lceil>pos\<rceil> \<le> int (length ?ys - 1)" using pos(2) by (simp add: ceiling_le_iff)
    then have "hi \<le> length ?ys - 1" by (simp add: hi_def nat_le_iff)
    moreover have "0 < length ?ys" using ne by simp
    ultimately show ?thesis by linarith
  qed
  have lohi: "lo \<le> hi" by (simp add: lo_def hi_def nat_mono floor_le_ceiling)
  have frac: "0 \<le> pos - of_nat lo" "pos - of_nat lo \<le> 1"
    using pos(1) by (simp_all add: lo_def) linarith
  have mono: "?ys ! lo \<le> ?ys ! hi" using lohi hi by (intro sorted_nth_mono) simp_all
  have r: "r = of_int (?ys ! lo) + (pos - of_nat lo) * (of_int (?ys ! hi) - of_int (?ys ! lo))"
    using assms(1) ne by (simp add: percentile_cont_def Let_def pos_def lo_def hi_def)
  have "0 \<le> (pos - of_nat lo) * (of_int (?ys ! hi) - of_int (?ys ! lo))" using frac mono by simp
  moreover have "(pos - of_nat lo) * (of_int (?ys ! hi) - of_int (?ys ! lo)) \<le> 1 * (of_int (?ys ! hi) - of_int (?ys ! lo))"
    using frac mono by (intro mult_right_mono) simp_all
  moreover have "?ys ! lo \<in> set xs" "?ys ! hi \<in> set xs" using nth_mem [of _ ?ys] lohi hi by auto
  ultimately show ?thesis unfolding r
    by (intro bexI [of _ "?ys ! lo"] bexI [of _ "?ys ! hi"]) simp_all
qed

lemma count_disjoint:
  assumes "\<And>l. \<not> (P l \<and> Q l)" "\<And>l. P l \<or> Q l \<Longrightarrow> R l"
  shows "0 \<le> count_if P ls" "count_if P ls + count_if Q ls \<le> count_if R ls"
  using assms by (induction ls) (auto simp: count_if_def)

text \<open>The hourly chart lists each hour once, in order, and its bars add up to all requests of the
  caller's keys in the last day; the error rate and the rate-limited rate are percentages of disjoint
  parts of them, so together they stay within 0 and 100.\<close>

theorem dashboard_metrics_consistent:
  assumes "usage False now user_id w = Inr points" "summary False now user_id w = Inr s"
  shows "sum_list (map (\<lambda>p. ud_rest p + ud_graphql p) points) = count_if (\<lambda>l. now - 24 * hour \<le> lg_timestamp l) (owned_logs user_id w) \<and>
    sorted_wrt (<) (map ud_timestamp points) \<and>
    0 \<le> ms_error_rate s \<and> 0 \<le> ms_rate_limit_rate s \<and> ms_error_rate s + ms_rate_limit_rate s \<le> 100"
proof -
  let ?recent = "since (now - 24 * hour) (owned_logs user_id w)"
  let ?f = "\<lambda>l. date_trunc_hour (lg_timestamp l)"
  let ?T = "set (map ?f ?recent)"
  have stamps: "map ud_timestamp points = sorted_list_of_set ?T" and
    bars: "map (\<lambda>p. ud_rest p + ud_graphql p) points = map (\<lambda>t. int (length (filter (\<lambda>l. ?f l = t) ?recent))) (sorted_list_of_set ?T)"
    using assms(1) by (auto simp: usage_def query_def Let_def count_split comp_def)
  have "sum_list (map (\<lambda>p. ud_rest p + ud_graphql p) points) = (\<Sum>t \<in> ?T. int (length (filter (\<lambda>l. ?f l = t) ?recent)))"
    unfolding bars by (subst sum_list_distinct_conv_sum_set) simp_all
  also have "\<dots> = int (length ?recent)" using sum_groups [of ?T ?f ?recent] by (simp flip: of_nat_sum)
  finally have total: "sum_list (map (\<lambda>p. ud_rest p + ud_graphql p) points) = count_if (\<lambda>l. now - 24 * hour \<le> lg_timestamp l) (owned_logs user_id w)"
    by (simp add: since_def count_if_def)
  let ?rows = "since (now - 48 * hour) (owned_logs user_id w)" and ?new = "\<lambda>l. now - 24 * hour \<le> lg_timestamp l"
  let ?P = "\<lambda>l. ?new l \<and> 400 \<le> lg_status_code l \<and> lg_status_code l \<noteq> 429" and ?Q = "\<lambda>l. ?new l \<and> lg_status_code l = 429"
  have rates: "ms_error_rate s = percent (count_if ?P ?rows) (count_if ?new ?rows)"
    "ms_rate_limit_rate s = percent (count_if ?Q ?rows) (count_if ?new ?rows)"
    using assms(2) by (auto simp: summary_def query_def Let_def)
  have counts: "0 \<le> count_if ?P ?rows" "0 \<le> count_if ?Q ?rows" "count_if ?P ?rows + count_if ?Q ?rows \<le> count_if ?new ?rows"
    using count_disjoint [of ?P ?Q ?new ?rows] by (auto simp: count_if_def)
  have "percent a n + percent b n \<le> 100 \<and> 0 \<le> percent a n \<and> 0 \<le> percent b n" if "0 \<le> a" "0 \<le> b" "a + b \<le> n" for a b n
  proof (cases "n > 0")
    case True
    have "percent a n + percent b n = of_int (a + b) / of_int n * 100" using True by (simp add: percent_def add_divide_distrib distrib_right)
    moreover have "(of_int (a + b) :: rat) \<le> of_int n" using that(3) by (simp only: of_int_le_iff)
    ultimately show ?thesis using that True by (simp add: percent_def divide_le_eq)
  qed (simp add: percent_def)
  from this [OF counts] total show ?thesis unfolding stamps rates
    by (simp add: sorted_list_of_set.strict_sorted_key_list_of_set)
qed

end
