(* ===== verification/Health.thy ===== *)
theory Health
  imports Node ApiError
begin

text \<open>
  \<^verbatim>\<open>api/src/routes/health.rs\<close>: liveness and readiness.  A probe answers in time or is cut off after
  \<^verbatim>\<open>PROBE_TIMEOUT\<close>; a dependency that was not attached at startup is skipped.
\<close>

datatype 'r timed = InTime 'r | TimedOut

record HealthResponse =
  hr_status :: string
  hr_version :: string

record CkbNodeStatus =
  ns_state :: string
  ns_tip :: "u64 option"
  ns_is_synced :: bool

record ReadyResponse =
  rr_status :: string
  rr_db :: string
  rr_redis :: string
  rr_ckb_node :: CkbNodeStatus

definition liveness :: "string \<Rightarrow> HealthResponse" where
  "liveness API_VERSION = \<lparr>hr_status = ''ok'', hr_version = API_VERSION\<rparr>"

definition probe_db :: "(DbError + int) timed \<Rightarrow> string" where
  "probe_db result = (case result of
     InTime (Inr _) \<Rightarrow> ''ok''
   | InTime (Inl err) \<Rightarrow> ''error''
   | TimedOut \<Rightarrow> ''error'')"

text \<open>The reply to \<^verbatim>\<open>PING\<close>, when a connection is attached.\<close>

definition probe_redis :: "(string + string) timed option \<Rightarrow> string" where
  "probe_redis manager = (case manager of
     None \<Rightarrow> ''skipped''
   | Some (InTime (Inr _)) \<Rightarrow> ''ok''
   | Some (InTime (Inl err)) \<Rightarrow> ''error''
   | Some TimedOut \<Rightarrow> ''error'')"

text \<open>
  The node client: its HTTP exchange, the decoders of the two results and its request counter;
  \<open>slow\<close> says that both calls together exceed the timeout.
\<close>

record ckb_probe_client =
  pc_http :: "JsonRpcRequest \<Rightarrow> CommonError + JsonRpcResponse"
  pc_chain_from_value :: "json \<Rightarrow> string + bool"
  pc_tip_from_value :: "json \<Rightarrow> string + u64"
  pc_next_id :: u64
  pc_slow :: bool

definition ckb_probe :: "ckb_probe_client \<Rightarrow> (CommonError + (bool \<times> u64)) timed" where
  "ckb_probe client =
     (if pc_slow client then TimedOut
      else case chain_info (pc_http client) (pc_chain_from_value client) (pc_next_id client) of
        (chain, next_id) \<Rightarrow>
          InTime (and_then chain (\<lambda>is_ibd.
            and_then (fst (tip_block_number (pc_http client) (pc_tip_from_value client) next_id)) (\<lambda>tip. Inr (is_ibd, tip)))))"

definition probe_ckb :: "ckb_probe_client option \<Rightarrow> CkbNodeStatus" where
  "probe_ckb client = (case client of
     None \<Rightarrow> \<lparr>ns_state = ''skipped'', ns_tip = None, ns_is_synced = True\<rparr>
   | Some c \<Rightarrow> (case ckb_probe c of
        InTime (Inr (is_ibd, tip)) \<Rightarrow> \<lparr>ns_state = ''ok'', ns_tip = Some tip, ns_is_synced = (\<not> is_ibd)\<rparr>
      | InTime (Inl err) \<Rightarrow> \<lparr>ns_state = ''error'', ns_tip = None, ns_is_synced = False\<rparr>
      | TimedOut \<Rightarrow> \<lparr>ns_state = ''error'', ns_tip = None, ns_is_synced = False\<rparr>))"

record probes =
  pb_db :: "(DbError + int) timed"
  pb_redis :: "(string + string) timed option"
  pb_ckb :: "ckb_probe_client option"

definition readiness :: "probes \<Rightarrow> nat \<times> ReadyResponse" where
  "readiness state =
     (let db = probe_db (pb_db state);
          redis = probe_redis (pb_redis state);
          ckb_node = probe_ckb (pb_ckb state);
          any_error = (db = ''error'' \<or> redis = ''error'' \<or> ns_state ckb_node = ''error'');
          status = (if any_error then ''not_ready'' else ''ready'');
          http = (if any_error then 503 else 200)
      in (http, \<lparr>rr_status = status, rr_db = db, rr_redis = redis, rr_ckb_node = ckb_node\<rparr>))"

section \<open>What readiness means\<close>

definition answered :: "('e + 'v) timed \<Rightarrow> bool" where
  "answered r = (case r of InTime (Inr _) \<Rightarrow> True | _ \<Rightarrow> False)"

text \<open>readiness answers 200 exactly when the database answered and every other dependency that is
  attached answered within the probe timeout, and 503 otherwise; a node that is still catching up
  does not make the service unready, it is only reported as not synced.\<close>

theorem readiness_iff_dependencies_answer:
  "(fst (readiness state) = 200 \<longleftrightarrow>
      answered (pb_db state) \<and> opt_all answered (pb_redis state) \<and> opt_all (\<lambda>c. answered (ckb_probe c)) (pb_ckb state)) \<and>
   (fst (readiness state) = 200 \<or> fst (readiness state) = 503) \<and>
   (rr_status (snd (readiness state)) = ''ready'' \<longleftrightarrow> fst (readiness state) = 200) \<and>
   ns_is_synced (rr_ckb_node (snd (readiness state))) =
     opt_all (\<lambda>c. \<exists>tip. ckb_probe c = InTime (Inr (False, tip))) (pb_ckb state)"
proof -
  have db: "probe_db (pb_db state) = (if answered (pb_db state) then ''ok'' else ''error'')"
    by (simp add: probe_db_def answered_def split: timed.splits sum.splits)
  have redis: "(probe_redis (pb_redis state) = ''error'') = (\<not> opt_all answered (pb_redis state))"
    by (auto simp: probe_redis_def answered_def opt_all_def split: option.splits timed.splits sum.splits)
  have ckb: "(ns_state (probe_ckb (pb_ckb state)) = ''error'') = (\<not> opt_all (\<lambda>c. answered (ckb_probe c)) (pb_ckb state))"
    by (auto simp: probe_ckb_def answered_def opt_all_def split: option.splits timed.splits sum.splits)
  have synced: "ns_is_synced (probe_ckb (pb_ckb state)) = opt_all (\<lambda>c. \<exists>tip. ckb_probe c = InTime (Inr (False, tip))) (pb_ckb state)"
    by (auto simp: probe_ckb_def opt_all_def split: option.splits timed.splits sum.splits)
  show ?thesis by (auto simp: readiness_def Let_def db redis ckb synced)
qed

end
