(* ===== verification/Proofs.thy ===== *)
theory Proofs
  imports Hex Node
begin

text \<open>
  \<^verbatim>\<open>api/src/routes/proofs.rs\<close>: the inclusion proof of a transaction, forwarded from the node.  The
  decoder of hexadecimal strings and the node's HTTP exchange are arguments; the raw JSON of the
  node is passed through.
\<close>

record ProofResponse =
  pr_tx_hash :: Hex32
  pr_block_hash :: Hex32
  pr_block_header :: json
  pr_proof :: json

definition json_get :: "string \<Rightarrow> json \<Rightarrow> json option" where
  "json_get key v = (case v of JObj obj \<Rightarrow> map_of obj key | _ \<Rightarrow> None)"

definition json_as_str :: "json \<Rightarrow> string option" where
  "json_as_str v = (case v of JStr s \<Rightarrow> Some s | _ \<Rightarrow> None)"

definition strip_block_hash :: "json \<Rightarrow> json" where
  "strip_block_hash proof = (case proof of
     JObj obj \<Rightarrow> JObj (filter (\<lambda>(k, _). k \<noteq> ''block_hash'') obj)
   | v \<Rightarrow> v)"

definition parse_tx_hash :: "(string \<Rightarrow> bytes option) \<Rightarrow> string \<Rightarrow> ApiError + bytes" where
  "parse_tx_hash hex_decode raw =
     and_then (ok_or (decode_prefixed hex_decode raw) (BadRequest (quoted raw @ '' is not 0x-prefixed hex''))) (\<lambda>bytes.
     if length bytes \<noteq> 32
     then Inl (BadRequest (''tx_hash must be exactly 32 bytes (got '' @ nat_dec (length bytes) @ '')''))
     else Inr bytes)"

record proof_client =
  px_http :: "JsonRpcRequest \<Rightarrow> CommonError + JsonRpcResponse"
  px_next_id :: u64

text \<open>A call whose result is kept as raw JSON.\<close>

definition raw_call :: "proof_client \<Rightarrow> string \<Rightarrow> json \<Rightarrow> (CommonError + json) \<times> proof_client" where
  "raw_call c method params = (case ckb_call (px_http c) Inr (px_next_id c) method params of
     (r, next_id) \<Rightarrow> (r, c\<lparr>px_next_id := next_id\<rparr>))"

definition passthrough :: "(string \<Rightarrow> bytes option) \<Rightarrow> proof_client option \<Rightarrow> string \<Rightarrow> ApiError + ProofResponse" where
  "passthrough hex_decode ckb raw =
     and_then (parse_tx_hash hex_decode raw) (\<lambda>tx_hash_bytes.
     let tx_hash_hex = ''0x'' @ hex_lower tx_hash_bytes in
     and_then (ok_or ckb (UpstreamUnavailable ''ckb node not configured'')) (\<lambda>ckb.
     let (proof_result, ckb') = raw_call ckb ''get_transaction_proof'' (JArr [JArr [JStr tx_hash_hex]]) in
     and_then (map_err (\<lambda>_. UpstreamUnavailable ''ckb node unreachable'') proof_result) (\<lambda>proof_raw.
     if proof_raw = JNull then Inl (NotFound ''no proof available for this transaction'')
     else and_then (ok_or (Option.bind (json_get ''block_hash'' proof_raw) json_as_str)
                      (Internal (Anyhow ''node response missing block_hash''))) (\<lambda>block_hash_str.
     and_then (map_err (\<lambda>_. UpstreamUnavailable ''ckb node unreachable'')
                 (fst (raw_call ckb' ''get_header'' (JArr [JStr block_hash_str])))) (\<lambda>header_raw.
     if header_raw = JNull then Inl (UpstreamUnavailable ''ckb node returned proof for a block it can no longer header'')
     else and_then (ok_or (decode_prefixed hex_decode block_hash_str) (Internal (Anyhow ''invalid block_hash from node'')))
            (\<lambda>block_hash_bytes.
     and_then (try_from_slice tx_hash_bytes) (\<lambda>tx_hash.
     and_then (try_from_slice block_hash_bytes) (\<lambda>block_hash.
     Inr \<lparr>pr_tx_hash = tx_hash, pr_block_hash = block_hash, pr_block_header = header_raw,
          pr_proof = strip_block_hash proof_raw\<rparr>))))))))"

section \<open>What a served proof says\<close>

text \<open>What the node answered to a call with the counter at \<open>i\<close>.\<close>

definition node_says :: "proof_client \<Rightarrow> u64 \<Rightarrow> string \<Rightarrow> json \<Rightarrow> json \<Rightarrow> bool" where
  "node_says c i method params v \<longleftrightarrow> fst (ckb_call (px_http c) Inr i method params) = Inr v"

lemma json_get_strip: "json_get k (strip_block_hash p) = (if k = ''block_hash'' then None else json_get k p)"
proof -
  have "map_of (filter (\<lambda>(k, _). k \<noteq> b) xs) k = (if k = b then None else map_of xs k)" for b and xs :: "(string \<times> json) list"
    by (induction xs) auto
  then show ?thesis by (auto simp: json_get_def strip_block_hash_def split: json.splits)
qed

lemma json_get_object: "json_get k v = Some x \<Longrightarrow> \<exists>obj. v = JObj obj"
  by (cases v) (auto simp: json_get_def)

text \<open>C38: a proof is served only for a well-formed transaction hash, and it is made of what the node
  answered: its proof for exactly that hash without the block hash, the block hash the proof named,
  and the header the node gave for that block hash; no other field of the proof is changed.\<close>

theorem proof_passthrough_faithful:
  assumes "passthrough hex_decode ckb raw = Inr r"
  shows "\<exists>c tx proof_raw block_hash_str block.
    ckb = Some c \<and> decode_prefixed hex_decode raw = Some tx \<and> length tx = 32 \<and> pr_tx_hash r = Hex32 tx \<and>
    node_says c (px_next_id c) ''get_transaction_proof'' (JArr [JArr [JStr (encode_prefixed tx)]]) proof_raw \<and>
    json_get ''block_hash'' proof_raw = Some (JStr block_hash_str) \<and>
    node_says c (as_u64 (px_next_id c + 1)) ''get_header'' (JArr [JStr block_hash_str]) (pr_block_header r) \<and>
    pr_block_header r \<noteq> JNull \<and>
    decode_prefixed hex_decode block_hash_str = Some block \<and> pr_block_hash r = Hex32 block \<and> length block = 32 \<and>
    (\<forall>k. json_get k (pr_proof r) = (if k = ''block_hash'' then None else json_get k proof_raw))"
proof -
  obtain c tx proof_raw v block_hash_str block where
    "ckb = Some c" "decode_prefixed hex_decode raw = Some tx" "length tx = 32" "pr_tx_hash r = Hex32 tx"
    "fst (raw_call c ''get_transaction_proof'' (JArr [JArr [JStr (''0x'' @ hex_lower tx)]])) = Inr proof_raw"
    "json_get ''block_hash'' proof_raw = Some v" "json_as_str v = Some block_hash_str"
    "fst (raw_call (snd (raw_call c ''get_transaction_proof'' (JArr [JArr [JStr (''0x'' @ hex_lower tx)]]))) ''get_header'' (JArr [JStr block_hash_str]))
       = Inr (pr_block_header r)"
    "pr_block_header r \<noteq> JNull" "decode_prefixed hex_decode block_hash_str = Some block" "pr_block_hash r = Hex32 block"
    "length block = 32" "pr_proof r = strip_block_hash proof_raw"
    using assms
    by (auto simp: passthrough_def parse_tx_hash_def Let_def res_simps bind_eq_Some_conv case_prod_unfold split: if_splits)
  note facts = this
  have "v = JStr block_hash_str" using facts(7) by (simp add: json_as_str_def split: json.splits)
  then show ?thesis using facts
    by (auto simp: node_says_def raw_call_def ckb_call_def encode_prefixed_eq json_get_strip)
qed

text \<open>The status of every refusal: 400 is the client's, 404 means the node has no proof, 503 a node that
  is missing, unreachable or lost the block, and 500 an answer of the node that is malformed.\<close>

lemma passthrough_errors:
  assumes "passthrough hex_decode ckb raw = Inl e"
  shows "ApiError_status e \<in> {400, 404, 503, 500}"
  using assms
  by (auto simp: passthrough_def parse_tx_hash_def Let_def and_then_eq_Inl ok_or_eq_Inl map_err_eq_Inl try_from_slice_def case_prod_unfold
      split: if_splits)

end
