(* ===== verification/CellQuery.thy ===== *)
theory CellQuery
  imports ChainDb
begin

text \<open>
  The paginated reads of \<^verbatim>\<open>crates/db/src/cells.rs\<close>.  Both queries join a cell with its block, filter by
  script hash, liveness and cursor, order by \<^verbatim>\<open>(block_number, tx_hash, output_index) DESC\<close> and cut at
  \<^verbatim>\<open>LIMIT\<close>.  Row comparison is the lexicographic order on triples, \<^verbatim>\<open>BYTEA\<close> comparison the
  lexicographic order on bytes.
\<close>

datatype LivenessFilter = OnlyLive | OnlyConsumed | Any

fun LivenessFilter_as_bool :: "LivenessFilter \<Rightarrow> bool option" where
  "LivenessFilter_as_bool OnlyLive = Some True"
| "LivenessFilter_as_bool OnlyConsumed = Some False"
| "LivenessFilter_as_bool Any = None"

record CellCursor =
  cu_block_number :: i64
  cu_tx_hash :: bytes
  cu_output_index :: i32

definition cursor_fields :: "CellCursor option \<Rightarrow> i64 option \<times> bytes option \<times> i32 option" where
  "cursor_fields cursor =
     (case cursor of
        Some c \<Rightarrow> (Some (cu_block_number c), Some (cu_tx_hash c), Some (cu_output_index c))
      | None \<Rightarrow> (None, None, None))"

type_synonym row_key = "i64 \<times> bytes \<times> i32"

definition row_key :: "'a CellStored_scheme \<Rightarrow> row_key" where
  "row_key c = (c_block_number c, c_tx_hash c, c_output_index c)"

definition cursor_key :: "CellCursor \<Rightarrow> row_key" where
  "cursor_key c = (cu_block_number c, cu_tx_hash c, cu_output_index c)"

text \<open>\<^verbatim>\<open>INNER JOIN blocks b ON b.number = c.block_number\<close>.\<close>

definition join_block :: "chain_db \<Rightarrow> CellStored \<Rightarrow> Cell option" where
  "join_block d c = map_option (\<lambda>b. CellStored.extend c (Cell.fields (br_hash b)))
     (find (\<lambda>b. br_number b = c_block_number c) (db_blocks d))"

text \<open>The two parameterised conditions of the \<^verbatim>\<open>WHERE\<close> clause: a \<^verbatim>\<open>NULL\<close> parameter switches a condition
  off; comparing with a \<^verbatim>\<open>NULL\<close> column is not true.\<close>

definition live_matches :: "bool option \<Rightarrow> 'a CellStored_scheme \<Rightarrow> bool" where
  "live_matches is_live c \<longleftrightarrow>
     (case is_live of None \<Rightarrow> True | Some b \<Rightarrow> (c_consumed_by_tx_hash c = None) = b)"

definition before_cursor ::
  "i64 option \<times> bytes option \<times> i32 option \<Rightarrow> 'a CellStored_scheme \<Rightarrow> bool" where
  "before_cursor slots c \<longleftrightarrow>
     (case slots of
        (None, _, _) \<Rightarrow> True
      | (Some bn, Some tx, Some oi) \<Rightarrow> row_key c < (bn, tx, oi)
      | _ \<Rightarrow> False)"

definition select_cells ::
  "(CellStored \<Rightarrow> bool) \<Rightarrow> bool option \<Rightarrow> i64 option \<times> bytes option \<times> i32 option \<Rightarrow> i64 \<Rightarrow> chain_db
     \<Rightarrow> DbError + Cell list" where
  "select_cells matches is_live slots limit d =
     (if limit < 0 then Inl (Sqlx InvalidRowCount)
      else Inr (take (nat limit) (rev (sort_key row_key
             (List.map_filter (join_block d)
               (filter (\<lambda>c. matches c \<and> live_matches is_live c \<and> before_cursor slots c)
                  (db_cells d)))))))"

definition query_by_lock_hash ::
  "bool \<Rightarrow> bytes \<Rightarrow> LivenessFilter \<Rightarrow> CellCursor option \<Rightarrow> i64 \<Rightarrow> chain_db \<Rightarrow> DbError + Cell list" where
  "query_by_lock_hash fault lock_hash liveness cursor limit d =
     (if fault then Inl (Sqlx Driver)
      else select_cells (\<lambda>c. c_lock_hash c = lock_hash) (LivenessFilter_as_bool liveness)
             (cursor_fields cursor) limit d)"

definition query_by_type_hash ::
  "bool \<Rightarrow> bytes \<Rightarrow> LivenessFilter \<Rightarrow> CellCursor option \<Rightarrow> i64 \<Rightarrow> chain_db \<Rightarrow> DbError + Cell list" where
  "query_by_type_hash fault type_hash liveness cursor limit d =
     (if fault then Inl (Sqlx Driver)
      else select_cells (\<lambda>c. c_type_hash c = Some type_hash) (LivenessFilter_as_bool liveness)
             (cursor_fields cursor) limit d)"

section \<open>Keyset pagination\<close>

text \<open>What a paginated query promises: pages are cut out of one list, ordered by a strictly decreasing
  key; a cursor is the key of the last row seen.\<close>

locale keyset_page =
  fixes rows :: "'r list" and key :: "'r \<Rightarrow> 'k :: linorder" and page :: "'k option \<Rightarrow> nat \<Rightarrow> 'r list"
  assumes keys_decrease: "sorted_wrt (\<lambda>a b. key b < key a) rows"
    and page_first: "page None n = take n rows"
    and page_after: "page (Some k) n = take n (filter (\<lambda>r. key r < k) rows)"
begin

lemma keys_strict: "i < j \<Longrightarrow> j < length rows \<Longrightarrow> key (rows ! j) < key (rows ! i)"
  using keys_decrease by (simp add: sorted_wrt_iff_nth_less)

lemma rows_distinct: "distinct rows"
proof -
  have "rows ! i \<noteq> rows ! j" if "i < length rows" "j < length rows" "i \<noteq> j" for i j
    using keys_strict [of i j] keys_strict [of j i] that by (cases i j rule: linorder_cases) auto
  then show ?thesis by (simp add: distinct_conv_nth)
qed

lemma page_continues:
  assumes "i < length rows"
  shows "page (Some (key (rows ! i))) n = take n (drop (Suc i) rows)"
proof -
  have "filter (\<lambda>r. key r < key (rows ! i)) (take (Suc i) rows @ drop (Suc i) rows) = drop (Suc i) rows"
  proof (rule filter_append_right)
    fix r assume "r \<in> set (take (Suc i) rows)"
    then obtain j where "j \<le> i" "r = rows ! j"
      by (auto simp: in_set_conv_nth less_Suc_eq_le)
    then show "\<not> key r < key (rows ! i)" using keys_strict [of j i] assms
      by (cases "j = i") (auto dest: less_imp_not_less)
  next
    fix r assume "r \<in> set (drop (Suc i) rows)"
    then obtain j where "j < length rows - Suc i" "r = rows ! (Suc i + j)"
      by (auto simp: in_set_conv_nth)
    then show "key r < key (rows ! i)" using keys_strict [of i "Suc i + j"] by simp
  qed
  then show ?thesis by (simp add: page_after)
qed

text \<open>A client that asks for one row more than it keeps, and follows the key of the last row it keeps
  while the extra row is there.\<close>

fun scan :: "nat \<Rightarrow> nat \<Rightarrow> 'k option \<Rightarrow> 'r list option" where
  "scan 0 n c = None"
| "scan (Suc fuel) n c =
     (let got = page c (Suc n)
      in if length got > n
         then map_option (\<lambda>rest. take n got @ rest)
                (scan fuel n (Some (key (last (take n got)))))
         else Some got)"

lemma scan_from:
  assumes "n > 0" and "i \<le> length rows" and "length rows - i < fuel"
    and "c = (if i = 0 then None else Some (key (rows ! (i - 1))))"
  shows "scan fuel n c = Some (drop i rows)"
  using assms
proof (induction fuel arbitrary: i c)
  case (Suc fuel)
  have got: "page c (Suc n) = take (Suc n) (drop i rows)"
  proof (cases "i = 0")
    case False
    then show ?thesis using Suc.prems page_continues [of "i - 1"] by simp
  qed (use Suc.prems page_first in simp)
  show ?case
  proof (cases "length rows - i > n")
    case True
    have last: "last (take n (drop i rows)) = rows ! (i + n - 1)"
      using True Suc.prems(1) by (simp add: last_conv_nth)
    have "scan fuel n (Some (key (rows ! (i + n - 1)))) = Some (drop (i + n) rows)"
      using True Suc.prems by (intro Suc.IH) auto
    moreover have "take n (drop i rows) @ drop (i + n) rows = drop i rows"
      by (metis add.commute append_take_drop_id drop_drop)
    ultimately show ?thesis using True got last by (simp add: Let_def min_def)
  next
    case False
    then show ?thesis using got by (simp add: Let_def)
  qed
qed simp

lemma scan_complete: "n > 0 \<Longrightarrow> length rows < fuel \<Longrightarrow> scan fuel n None = Some rows"
  using scan_from [of n 0 fuel None] by simp

end

section \<open>The queries as keyset pages\<close>

text \<open>The whole result of a query: all matching cells, newest first.\<close>

definition matching_cells :: "(CellStored \<Rightarrow> bool) \<Rightarrow> bool option \<Rightarrow> chain_db \<Rightarrow> Cell list" where
  "matching_cells matches is_live d =
     rev (sort_key row_key (List.map_filter (join_block d)
       (filter (\<lambda>c. matches c \<and> live_matches is_live c) (db_cells d))))"

lemma join_block_row_key: "join_block d c = Some x \<Longrightarrow> row_key x = row_key c"
  by (auto simp: join_block_def row_key_def CellStored.defs Cell.defs)

lemma join_block_truncate: "join_block d c = Some x \<Longrightarrow> CellStored.truncate x = c"
  by (auto simp: join_block_def CellStored.defs Cell.defs)

lemma join_block_fields:
  assumes "join_block d c = Some x"
  shows "c_lock_hash x = c_lock_hash c" "c_type_hash x = c_type_hash c"
    "c_consumed_by_tx_hash x = c_consumed_by_tx_hash c" "c_tx_hash x = c_tx_hash c"
  using assms by (auto simp: join_block_def CellStored.defs Cell.defs)

lemma filter_sort_key: "filter P (sort_key f xs) = sort_key f (filter P xs)"
  by (simp add: filter_sort)

lemma filter_map_filter:
  assumes "\<And>x y. f x = Some y \<Longrightarrow> Q y = P x"
  shows "filter Q (List.map_filter f xs) = List.map_filter f (filter P xs)"
  using assms by (induction xs) (auto simp: List.map_filter_simps split: option.splits)

lemma select_cells_page:
  assumes "0 \<le> limit"
  shows "select_cells matches is_live (cursor_fields cursor) limit d =
    Inr (take (nat limit) (filter (\<lambda>c. case cursor of None \<Rightarrow> True | Some k \<Rightarrow> row_key c < cursor_key k)
           (matching_cells matches is_live d)))"
proof -
  let ?Q = "\<lambda>c :: Cell. case cursor of None \<Rightarrow> True | Some k \<Rightarrow> row_key c < cursor_key k"
  have Q: "?Q y = before_cursor (cursor_fields cursor) x" if "join_block d x = Some y" for x y
    using join_block_row_key [OF that]
    by (auto simp: before_cursor_def cursor_fields_def cursor_key_def split: option.split)
  have "filter (\<lambda>c. matches c \<and> live_matches is_live c \<and> before_cursor (cursor_fields cursor) c) (db_cells d)
      = filter (before_cursor (cursor_fields cursor)) (filter (\<lambda>c. matches c \<and> live_matches is_live c) (db_cells d))"
    by (simp add: conj_ac)
  moreover have "filter ?Q (matching_cells matches is_live d) = rev (sort_key row_key
      (List.map_filter (join_block d) (filter (before_cursor (cursor_fields cursor))
        (filter (\<lambda>c. matches c \<and> live_matches is_live c) (db_cells d)))))"
    unfolding matching_cells_def rev_filter [symmetric] filter_sort_key
    by (subst filter_map_filter [where f = "join_block d" and Q = ?Q, OF Q]) auto
  ultimately show ?thesis using assms by (simp only: select_cells_def) simp
qed

lemma matching_cells_keys:
  assumes "schema_ok d"
  shows "sorted_wrt (\<lambda>a b. row_key b < row_key a) (matching_cells matches is_live d)"
proof -
  let ?rows = "List.map_filter (join_block d) (filter (\<lambda>c. matches c \<and> live_matches is_live c) (db_cells d))"
  have dist: "distinct (map cell_key (filter P (db_cells d)))" for P
    using assms by (simp add: schema_ok_def distinct_map_filter)
  have "distinct (map row_key (List.map_filter (join_block d) cs))" if "distinct (map cell_key cs)" for cs
    using that
  proof (induction cs)
    case (Cons c cs)
    have "row_key c \<notin> row_key ` set (List.map_filter (join_block d) cs)"
      using Cons.prems join_block_row_key
      by (force simp: List.map_filter_def row_key_def cell_key_def image_iff)
    with Cons show ?case
      by (auto simp: List.map_filter_simps join_block_row_key split: option.splits)
  qed (simp add: List.map_filter_simps)
  then have "distinct (map row_key ?rows)" using dist by blast
  then have "sorted_wrt (<) (map row_key (sort_key row_key ?rows))"
    by (simp add: strict_sorted_iff distinct_map)
  then show ?thesis by (simp add: matching_cells_def sorted_wrt_rev sorted_wrt_map)
qed

text \<open>The states of the tables that satisfy the schema, on which the queries are keyset pages.\<close>

typedef schema_db = "{d. schema_ok d}"
  using schema_ok_empty by auto

interpretation cells_pages: keyset_page "matching_cells matches is_live (Rep_schema_db s)" row_key
  "\<lambda>c n. take n (filter (\<lambda>r. case c of None \<Rightarrow> True | Some k \<Rightarrow> row_key r < k)
     (matching_cells matches is_live (Rep_schema_db s)))" for matches is_live s
  by unfold_locales (use matching_cells_keys Rep_schema_db in auto)

lemma select_cells_first:
  "0 \<le> limit \<Longrightarrow> select_cells matches is_live (cursor_fields None) limit d =
     Inr (take (nat limit) (matching_cells matches is_live d))"
  by (simp add: select_cells_page)

lemma select_cells_next:
  assumes "schema_ok d" and "0 \<le> limit" and "i < length (matching_cells matches is_live d)"
    and "cursor_key cur = row_key (matching_cells matches is_live d ! i)"
  shows "select_cells matches is_live (cursor_fields (Some cur)) limit d =
     Inr (take (nat limit) (drop (Suc i) (matching_cells matches is_live d)))"
proof -
  obtain s where d: "d = Rep_schema_db s" using assms(1) Rep_schema_db_cases by blast
  show ?thesis
    using assms(2-4) cells_pages.page_continues [of i matches is_live s "nat limit"]
    by (simp add: d select_cells_page)
qed

lemma matching_cells_distinct: "schema_ok d \<Longrightarrow> distinct (matching_cells matches is_live d)"
  using cells_pages.rows_distinct [of matches is_live] Rep_schema_db_cases [of d]
  by (metis mem_Collect_eq)

lemma matching_cells_set:
  "set (matching_cells matches is_live d) =
     {x. \<exists>c\<in>set (db_cells d). join_block d c = Some x \<and> matches c \<and> live_matches is_live c}"
  by (auto simp: matching_cells_def List.map_filter_def image_iff) (metis option.sel)

lemma join_block_total:
  assumes "schema_ok d" and "c \<in> set (db_cells d)"
  shows "\<exists>x. join_block d c = Some x"
proof -
  have "c_block_number c \<in> br_number ` set (db_blocks d)" using assms by (simp add: schema_ok_def)
  then have "find (\<lambda>b. br_number b = c_block_number c) (db_blocks d) \<noteq> None"
    by (simp add: find_key_None)
  then show ?thesis by (auto simp: join_block_def)
qed

end
