(* ===== verification/Pagination.thy ===== *)
theory Pagination
  imports CellQuery Hex
begin

text \<open>
  \<^verbatim>\<open>crates/api/src/pagination.rs\<close>: opaque cursors.  The base64 engine, the JSON codec of the wire struct
  and the \<^verbatim>\<open>hex\<close> crate are the fields of \<open>cursor_lib\<close>; \<open>cursor_lib_ok\<close> states the round trips their
  documentation promises.
\<close>

record CellsCursorWire =
  cw_bn :: i64
  cw_tx :: string
  cw_oi :: i32

record cursor_lib =
  b64_encode :: "bytes \<Rightarrow> string"
  b64_decode :: "string \<Rightarrow> bytes option"
  wire_to_vec :: "CellsCursorWire \<Rightarrow> bytes option"
  wire_from_slice :: "bytes \<Rightarrow> CellsCursorWire option"
  crate_hex_encode :: "bytes \<Rightarrow> string"
  crate_hex_decode :: "string \<Rightarrow> bytes option"

definition cursor_lib_ok :: "cursor_lib \<Rightarrow> bool" where
  "cursor_lib_ok lib \<longleftrightarrow>
     (\<forall>bs. b64_decode lib (b64_encode lib bs) = Some bs) \<and>
     (\<forall>w. \<exists>bs. wire_to_vec lib w = Some bs \<and> wire_from_slice lib bs = Some w) \<and>
     (\<forall>bs. crate_hex_decode lib (crate_hex_encode lib bs) = Some bs)"

definition encode_cells_cursor :: "cursor_lib \<Rightarrow> CellCursor \<Rightarrow> string" where
  "encode_cells_cursor lib cursor =
     (let wire = \<lparr>cw_bn = cu_block_number cursor,
                  cw_tx = ''0x'' @ crate_hex_encode lib (cu_tx_hash cursor),
                  cw_oi = cu_output_index cursor\<rparr>;
          json = unwrap_or (wire_to_vec lib wire) []
      in b64_encode lib json)"

definition decode_cells_cursor :: "cursor_lib \<Rightarrow> string \<Rightarrow> ApiError + CellCursor" where
  "decode_cells_cursor lib raw =
     and_then (ok_or (b64_decode lib raw) (InvalidCursor ''cursor is not valid base64url''))
       (\<lambda>bytes.
     and_then (ok_or (wire_from_slice lib bytes) (InvalidCursor ''cursor is not well-formed''))
       (\<lambda>wire.
     and_then (ok_or (decode_prefixed (crate_hex_decode lib) (cw_tx wire))
                 (InvalidCursor ''cursor tx_hash is not valid hex''))
       (\<lambda>tx_hash.
     if length tx_hash \<noteq> 32
     then Inl (InvalidCursor ''cursor tx_hash must be exactly 32 bytes'')
     else Inr \<lparr>cu_block_number = cw_bn wire, cu_tx_hash = tx_hash,
               cu_output_index = cw_oi wire\<rparr>)))"

lemma decode_encode_cursor:
  assumes "cursor_lib_ok lib" and "length (cu_tx_hash cursor) = 32"
  shows "decode_cells_cursor lib (encode_cells_cursor lib cursor) = Inr cursor"
proof -
  let ?wire = "\<lparr>cw_bn = cu_block_number cursor, cw_tx = ''0x'' @ crate_hex_encode lib (cu_tx_hash cursor),
    cw_oi = cu_output_index cursor\<rparr>"
  obtain bs where bs: "wire_to_vec lib ?wire = Some bs" "wire_from_slice lib bs = Some ?wire"
    using assms(1) unfolding cursor_lib_ok_def by blast
  moreover have "decode_prefixed (crate_hex_decode lib) (cw_tx ?wire) = Some (cu_tx_hash cursor)"
    using assms(1) by (simp add: decode_prefixed_def cursor_lib_ok_def)
  ultimately show ?thesis using assms
    by (simp add: encode_cells_cursor_def decode_cells_cursor_def Let_def cursor_lib_ok_def
        del: append.simps)
qed

lemma decode_cursor_error: "decode_cells_cursor lib raw = Inl e \<Longrightarrow> \<exists>m. e = InvalidCursor m"
  by (auto simp: decode_cells_cursor_def res_simps split: if_splits)

lemma decode_cursor_length: "decode_cells_cursor lib raw = Inr c \<Longrightarrow> length (cu_tx_hash c) = 32"
  by (auto simp: decode_cells_cursor_def res_simps split: if_splits)

section \<open>A reference library\<close>

text \<open>A concrete library that satisfies the promises: bytes as characters, a self-delimiting wire form
  and the reference hexadecimal codec.\<close>

definition chars_of_bytes :: "bytes \<Rightarrow> string" where
  "chars_of_bytes = map (\<lambda>b. char_of (unat b))"

definition bytes_of_chars :: "string \<Rightarrow> bytes" where
  "bytes_of_chars = map (\<lambda>c. word_of_nat (of_char c))"

definition int_bytes :: "int \<Rightarrow> bytes" where
  "int_bytes n = (if n < 0 then 1 else 0) # replicate (nat \<bar>n\<bar>) 1 @ [0]"

fun take_int :: "bytes \<Rightarrow> int \<times> bytes" where
  "take_int [] = (0, [])"
| "take_int (s # rest) =
     (let k = length (takeWhile (\<lambda>b. b = 1) rest)
      in (if s = 1 then - int k else int k, drop (Suc k) rest))"

definition ref_cursor_lib :: cursor_lib where
  "ref_cursor_lib =
     \<lparr>b64_encode = chars_of_bytes, b64_decode = (\<lambda>s. Some (bytes_of_chars s)),
      wire_to_vec = (\<lambda>w. Some (int_bytes (cw_bn w) @ int_bytes (cw_oi w) @ bytes_of_chars (cw_tx w))),
      wire_from_slice = (\<lambda>bs. let (bn, r1) = take_int bs; (oi, r2) = take_int r1
         in Some \<lparr>cw_bn = bn, cw_tx = chars_of_bytes r2, cw_oi = oi\<rparr>),
      crate_hex_encode = hex_lower, crate_hex_decode = ref_hex_decode\<rparr>"

lemma bytes_chars_bytes: "bytes_of_chars (chars_of_bytes bs) = bs"
proof -
  have "unat b < 256" for b :: byte using unsigned_less [of b, where ?'a = nat] by simp
  then show ?thesis by (induction bs) (simp_all add: bytes_of_chars_def chars_of_bytes_def)
qed

lemma chars_bytes_chars: "chars_of_bytes (bytes_of_chars s) = s"
proof (induction s)
  case (Cons c s)
  have "(of_char c :: nat) < 256" by simp
  then have "unat (word_of_nat (of_char c) :: byte) = of_char c"
    by (simp add: unsigned_of_nat take_bit_nat_eq_self)
  with Cons show ?case by (simp add: bytes_of_chars_def chars_of_bytes_def)
qed (simp add: bytes_of_chars_def chars_of_bytes_def)

lemma take_int_bytes: "take_int (int_bytes n @ rest) = (n, rest)"
proof -
  have "takeWhile (\<lambda>b. b = 1) (replicate k 1 @ 0 # rest) = (replicate k 1 :: bytes)" for k
    by (induction k) simp_all
  moreover have "drop (Suc k) (replicate k 1 @ 0 # rest) = (rest :: bytes)" for k
    by (induction k) simp_all
  ultimately show ?thesis by (simp add: int_bytes_def Let_def)
qed

lemma ref_cursor_lib_ok: "cursor_lib_ok ref_cursor_lib"
  using ref_hex_decodes
  by (simp add: cursor_lib_ok_def ref_cursor_lib_def bytes_chars_bytes chars_bytes_chars
      take_int_bytes hex_decodes_def)

end
