(* ===== verification/Registry.thy ===== *)
theory Registry
  imports Config Strings
begin

text \<open>
  \<^verbatim>\<open>crates/api/src/scripts/registry.rs\<close>: the table of well-known scripts, its compile-time hexadecimal
  literals and the lookup.
\<close>

unbundle bit_operations_syntax

datatype ScriptKind = LockKind | TypeKind | EitherKind

datatype ScriptSlot = LockSlot | TypeSlot

record WellKnownScript =
  wk_code_hash :: bytes
  wk_hash_type :: i16
  wk_network :: Network
  wk_kind :: ScriptKind
  wk_label :: string

definition hex_nibble :: "byte \<Rightarrow> byte" where
  "hex_nibble b =
     (if 48 \<le> b \<and> b \<le> 57 then b - 48
      else if 97 \<le> b \<and> b \<le> 102 then b - 97 + 10
      else if 65 \<le> b \<and> b \<le> 70 then b - 65 + 10
      else 0xff)"

text \<open>The \<^verbatim>\<open>while\<close> loop over the 32 output positions; \<open>j\<close> runs two bytes at a time from the literal's
  third.\<close>

definition h_byte :: "bytes \<Rightarrow> nat \<Rightarrow> byte" where
  "h_byte literal j = push_bit 4 (hex_nibble (literal ! j)) OR hex_nibble (literal ! (j + 1))"

definition h :: "string \<Rightarrow> bytes" where
  "h literal =
     (let bs = map (\<lambda>c. word_of_nat (of_char c)) literal
      in map (\<lambda>i. h_byte bs (2 + 2 * i)) [0..<32])"

definition HT_TYPE :: i16 where "HT_TYPE = 1"

definition known :: "string \<Rightarrow> Network \<Rightarrow> ScriptKind \<Rightarrow> string \<Rightarrow> WellKnownScript" where
  "known literal net kind label =
     \<lparr>wk_code_hash = h literal, wk_hash_type = HT_TYPE, wk_network = net, wk_kind = kind,
      wk_label = label\<rparr>"

definition SIGHASH :: string where
  "SIGHASH = ''0x9bd7e06f3ecf4be0f2fcd2188b23f1b9fcc88e5d4b65a8637b17723bbda3cce8''"

definition MULTISIG :: string where
  "MULTISIG = ''0x5c5069eb0857efc65e1bca0c07df34c31663b3622fd3876c876320fc9634e2a8''"

definition NERVOS_DAO :: string where
  "NERVOS_DAO = ''0x82d76d1b75fe2fd9a27dfbaa65a039221a380d76c926f378d3f81cf3e7e13f2e''"

definition REGISTRY :: "WellKnownScript list" where
  "REGISTRY =
     [known SIGHASH Mainnet LockKind ''sighash'',
      known SIGHASH Testnet LockKind ''sighash'',
      known MULTISIG Mainnet LockKind ''multisig'',
      known MULTISIG Testnet LockKind ''multisig'',
      known NERVOS_DAO Mainnet TypeKind ''nervos_dao'',
      known NERVOS_DAO Testnet TypeKind ''nervos_dao'']"

fun eligible :: "ScriptKind \<Rightarrow> ScriptSlot \<Rightarrow> bool" where
  "eligible EitherKind slot = True"
| "eligible LockKind slot = (slot = LockSlot)"
| "eligible TypeKind slot = (slot = TypeSlot)"

definition lookup_in ::
  "WellKnownScript list \<Rightarrow> Network \<Rightarrow> bytes \<Rightarrow> i16 \<Rightarrow> ScriptSlot \<Rightarrow> string option" where
  "lookup_in table net code_hash hash_type slot =
     (if length code_hash \<noteq> 32 then None
      else map_option wk_label (find (\<lambda>entry. wk_network entry = net
             \<and> wk_hash_type entry = hash_type \<and> wk_code_hash entry = code_hash
             \<and> eligible (wk_kind entry) slot) table))"

definition script_lookup :: "Network \<Rightarrow> bytes \<Rightarrow> i16 \<Rightarrow> ScriptSlot \<Rightarrow> string option" where
  "script_lookup = lookup_in REGISTRY"

lemma length_h: "length (h s) = 32"
  by (simp add: h_def Let_def)

lemma lookup_in_Some:
  assumes "lookup_in table net ch ht slot = Some l"
  shows "\<exists>e\<in>set table. wk_network e = net \<and> wk_hash_type e = ht \<and> wk_code_hash e = ch
    \<and> eligible (wk_kind e) slot \<and> wk_label e = l"
  using assms by (auto simp: lookup_in_def split: if_splits dest!: find_SomeD)

lemma script_hashes_differ: "h SIGHASH \<noteq> h MULTISIG" "h SIGHASH \<noteq> h NERVOS_DAO" "h MULTISIG \<noteq> h NERVOS_DAO"
proof -
  have "hd (h SIGHASH) = 0x9b" "hd (h MULTISIG) = 0x5c" "hd (h NERVOS_DAO) = 0x82" by code_simp+
  then show "h SIGHASH \<noteq> h MULTISIG" "h SIGHASH \<noteq> h NERVOS_DAO" "h MULTISIG \<noteq> h NERVOS_DAO" by force+
qed

text \<open>The table answers exactly as its entries say: a tag appears only for a listed script of the
  network, with hash type \<^verbatim>\<open>type\<close>, in the slot it is listed for.\<close>

lemma script_lookup_iff:
  "script_lookup net ch ht slot = Some l \<longleftrightarrow>
     net \<noteq> Devnet \<and> ht = HT_TYPE \<and>
     (slot = LockSlot \<and> (ch = h SIGHASH \<and> l = ''sighash'' \<or> ch = h MULTISIG \<and> l = ''multisig'')
      \<or> slot = TypeSlot \<and> ch = h NERVOS_DAO \<and> l = ''nervos_dao'')"
  using script_hashes_differ
  by (cases net; cases slot)
    (auto simp: script_lookup_def lookup_in_def REGISTRY_def known_def length_h split: if_splits)

end
