(* ===== verification/CellsRoute.thy ===== *)
theory CellsRoute
  imports Pagination Registry Tip
begin

text \<open>
  \<^verbatim>\<open>crates/api/src/routes/cells.rs\<close>: \<^verbatim>\<open>GET /v1/cells\<close>.  The handler's state is the database, the
  configuration and the tip snapshot; \<open>fault\<close> says whether the query fails.  JSON responses are the
  records the handler serialises.
\<close>

record CellsQuery =
  cq_lock_hash :: "string option"
  cq_type_hash :: "string option"
  cq_is_live :: "bool option"
  cq_cursor :: "string option"
  cq_limit :: "u32 option"
  cq_include_data :: bool

record ScriptResponse =
  sp_code_hash :: Hex32
  sp_hash_type :: string
  sp_args :: Hex

record ConsumedByResponse =
  cb_tx_hash :: Hex32
  cb_input_index :: i32
  cb_block_number :: i64

record CellResponse =
  rc_tx_hash :: Hex32
  rc_output_index :: i32
  rc_block_number :: i64
  rc_block_hash :: Hex32
  rc_capacity_shannons :: i64
  rc_lock :: ScriptResponse
  rc_lock_hash :: Hex32
  rc_lock_kind :: "string option"
  rc_type_script :: "ScriptResponse option"
  rc_type_hash :: "Hex32 option"
  rc_type_kind :: "string option"
  rc_data :: "Hex option"
  rc_is_live :: bool
  rc_consumed_by :: "ConsumedByResponse option"

record PageMeta =
  pm_indexer_tip :: "i64 option"
  pm_node_tip :: "u64 option"

record CellsPage =
  pg_data :: "CellResponse list"
  pg_next_cursor :: "string option"
  pg_meta :: PageMeta

datatype ScriptFilter = LockFilter bytes | TypeFilter bytes

definition parse_script_hash :: "cursor_lib \<Rightarrow> string \<Rightarrow> string \<Rightarrow> ApiError + bytes" where
  "parse_script_hash lib field raw =
     and_then (ok_or (decode_prefixed (crate_hex_decode lib) raw)
                 (BadRequest (quoted field @ '' must be 0x-prefixed hex'')))
       (\<lambda>bytes.
     if length bytes \<noteq> 32
     then Inl (BadRequest (quoted field @ '' must be exactly 32 bytes (got ''
            @ nat_dec (length bytes) @ '')''))
     else Inr bytes)"

definition parse_filter :: "cursor_lib \<Rightarrow> CellsQuery \<Rightarrow> ApiError + ScriptFilter" where
  "parse_filter lib params =
     (case (cq_lock_hash params, cq_type_hash params) of
        (Some _, Some _) \<Rightarrow>
          Inl (BadRequest (''specify exactly one of '' @ quoted ''lock_hash'' @ '' or '' @ quoted ''type_hash''))
      | (None, None) \<Rightarrow>
          Inl (BadRequest (''one of '' @ quoted ''lock_hash'' @ '' or '' @ quoted ''type_hash'' @ '' is required''))
      | (Some raw, None) \<Rightarrow> map_ok LockFilter (parse_script_hash lib ''lock_hash'' raw)
      | (None, Some raw) \<Rightarrow> map_ok TypeFilter (parse_script_hash lib ''type_hash'' raw))"

definition parse_liveness :: "bool option \<Rightarrow> LivenessFilter" where
  "parse_liveness raw =
     (case raw of Some True \<Rightarrow> OnlyLive | Some False \<Rightarrow> OnlyConsumed | None \<Rightarrow> Any)"

definition parse_limit :: "u32 option \<Rightarrow> Config \<Rightarrow> ApiError + u32" where
  "parse_limit raw config =
     (case raw of
        None \<Rightarrow> Inr (api_default_page_size config)
      | Some n \<Rightarrow>
          if n = 0 then Inl (BadRequest (quoted ''limit'' @ '' must be at least 1''))
          else if n > api_max_page_size config
          then Inl (BadRequest (quoted ''limit'' @ '' must not exceed '' @ int_dec (api_max_page_size config)))
          else Inr n)"

definition hash_type_label :: "i16 \<Rightarrow> ApiError + string" where
  "hash_type_label raw =
     (if raw = 0 then Inr ''data''
      else if raw = 1 then Inr ''type''
      else if raw = 2 then Inr ''data1''
      else if raw = 3 then Inr ''data2''
      else Inl (Internal (Anyhow (''unknown hash_type value in database: '' @ int_dec raw))))"

definition transpose_opt :: "('e + 'a) option \<Rightarrow> 'e + 'a option" where
  "transpose_opt x = (case x of None \<Rightarrow> Inr None | Some r \<Rightarrow> map_ok Some r)"

definition render_script :: "bytes \<Rightarrow> i16 \<Rightarrow> bytes \<Rightarrow> ApiError + ScriptResponse" where
  "render_script code_hash hash_type args =
     and_then (try_from_slice code_hash) (\<lambda>ch.
     and_then (hash_type_label hash_type) (\<lambda>ht.
       Inr \<lparr>sp_code_hash = ch, sp_hash_type = ht, sp_args = Hex args\<rparr>))"

definition render_consumed :: "Cell \<Rightarrow> ApiError + ConsumedByResponse option" where
  "render_consumed row =
     (case (c_consumed_by_tx_hash row, c_consumed_by_input_index row,
            c_consumed_at_block_number row) of
        (Some tx, Some input_index, Some block_number) \<Rightarrow>
          map_ok (\<lambda>t. Some \<lparr>cb_tx_hash = t, cb_input_index = input_index,
                            cb_block_number = block_number\<rparr>) (try_from_slice tx)
      | _ \<Rightarrow> Inr None)"

definition render_cell :: "bool \<Rightarrow> Network \<Rightarrow> Cell \<Rightarrow> ApiError + CellResponse" where
  "render_cell include_data net row =
     (let lock_kind = script_lookup net (c_lock_code_hash row) (c_lock_hash_type row) LockSlot;
          type_kind = (case (c_type_code_hash row, c_type_hash_type row) of
                         (Some code_hash, Some hash_type) \<Rightarrow>
                           script_lookup net code_hash hash_type TypeSlot
                       | _ \<Rightarrow> None)
      in and_then (render_script (c_lock_code_hash row) (c_lock_hash_type row) (c_lock_args row))
           (\<lambda>lock.
         and_then (case (c_type_code_hash row, c_type_hash_type row, c_type_args row,
                         c_type_hash row) of
                     (Some code_hash, Some hash_type, Some args, Some _) \<Rightarrow>
                       map_ok Some (render_script code_hash hash_type args)
                   | _ \<Rightarrow> Inr None)
           (\<lambda>type_script.
         and_then (transpose_opt (map_option try_from_slice (c_type_hash row))) (\<lambda>type_hash.
         and_then (render_consumed row) (\<lambda>consumed_by.
         and_then (try_from_slice (c_tx_hash row)) (\<lambda>tx_hash.
         and_then (try_from_slice (cell_block_hash row)) (\<lambda>block_hash.
         and_then (try_from_slice (c_lock_hash row)) (\<lambda>lock_hash.
           Inr \<lparr>rc_tx_hash = tx_hash, rc_output_index = c_output_index row,
                rc_block_number = c_block_number row, rc_block_hash = block_hash,
                rc_capacity_shannons = c_capacity_shannons row, rc_lock = lock,
                rc_lock_hash = lock_hash, rc_lock_kind = lock_kind,
                rc_type_script = type_script, rc_type_hash = type_hash,
                rc_type_kind = type_kind,
                rc_data = (if include_data then Some (Hex (c_data row)) else None),
                rc_is_live = (consumed_by = None), rc_consumed_by = consumed_by\<rparr>))))))))"

definition cursor_of :: "Cell \<Rightarrow> CellCursor" where
  "cursor_of row = \<lparr>cu_block_number = c_block_number row, cu_tx_hash = c_tx_hash row,
     cu_output_index = c_output_index row\<rparr>"

definition build_page ::
  "cursor_lib \<Rightarrow> Cell list \<Rightarrow> u32 \<Rightarrow> bool \<Rightarrow> Network \<Rightarrow> ApiError + (CellResponse list \<times> string option)" where
  "build_page lib rows limit include_data net =
     (let has_more = length rows > nat limit;
          rows' = (if has_more then take (nat limit) rows else rows);
          next_cursor = (if has_more
                         then (if rows' = [] then None
                               else Some (encode_cells_cursor lib (cursor_of (last rows'))))
                         else None)
      in map_ok (\<lambda>data. (data, next_cursor)) (collect_results (render_cell include_data net) rows'))"

definition cells_list ::
  "cursor_lib \<Rightarrow> Config \<Rightarrow> TipSnapshot \<Rightarrow> bool \<Rightarrow> chain_db \<Rightarrow> CellsQuery \<Rightarrow> ApiError + CellsPage" where
  "cells_list lib config snap fault d params =
     and_then (parse_filter lib params) (\<lambda>fil.
     and_then (parse_limit (cq_limit params) config) (\<lambda>limit.
     and_then (transpose_opt (map_option (decode_cells_cursor lib) (cq_cursor params))) (\<lambda>cursor.
     let liveness = parse_liveness (cq_is_live params);
         fetch_limit = limit + 1
     in and_then (map_err from_db
          (case fil of
             LockFilter hash \<Rightarrow> query_by_lock_hash fault hash liveness cursor fetch_limit d
           | TypeFilter hash \<Rightarrow> query_by_type_hash fault hash liveness cursor fetch_limit d)) (\<lambda>cells.
        and_then (build_page lib cells limit (cq_include_data params) (network config))
          (\<lambda>(page, next_cursor).
        Inr \<lparr>pg_data = page, pg_next_cursor = next_cursor,
             pg_meta = \<lparr>pm_indexer_tip = ts_indexer_tip snap,
                        pm_node_tip = ts_node_tip snap\<rparr>\<rparr>)))))"

section \<open>Rendering\<close>

lemma transpose_opt_simps [simp]:
  "transpose_opt None = Inr None" "transpose_opt (Some r) = map_ok Some r"
  by (simp_all add: transpose_opt_def)

text \<open>A stored row that can be rendered: hashes of 32 bytes and hash types of the four kinds.  Every
  row the parser writes from a block with 32-byte hashes is one.\<close>

definition renderable :: "Cell \<Rightarrow> bool" where
  "renderable row \<longleftrightarrow> length (c_tx_hash row) = 32 \<and> length (cell_block_hash row) = 32 \<and>
     length (c_lock_hash row) = 32 \<and> length (c_lock_code_hash row) = 32 \<and>
     c_lock_hash_type row \<in> {0, 1, 2, 3} \<and>
     opt_all (\<lambda>h. length h = 32) (c_type_hash row) \<and>
     opt_all (\<lambda>h. length h = 32) (c_type_code_hash row) \<and>
     opt_all (\<lambda>t. t \<in> {0, 1, 2, 3}) (c_type_hash_type row) \<and>
     opt_all (\<lambda>h. length h = 32) (c_consumed_by_tx_hash row)"

lemma hash_type_label_ok: "ht \<in> {0, 1, 2, 3} \<Longrightarrow> \<exists>l. hash_type_label ht = Inr l"
  by (auto simp: hash_type_label_def)

lemma render_script_ok:
  "length ch = 32 \<Longrightarrow> ht \<in> {0, 1, 2, 3} \<Longrightarrow> \<exists>s. render_script ch ht args = Inr s"
  using hash_type_label_ok [of ht] by (auto simp: render_script_def res_simps)

lemma render_cell_ok:
  assumes "renderable row"
  shows "\<exists>r. render_cell inc net row = Inr r"
proof -
  note ok = assms [unfolded renderable_def]
  obtain lock where lock: "render_script (c_lock_code_hash row) (c_lock_hash_type row) (c_lock_args row) = Inr lock"
    using ok render_script_ok by metis
  have "\<exists>t. (case (c_type_code_hash row, c_type_hash_type row, c_type_args row, c_type_hash row) of
      (Some code_hash, Some hash_type, Some args, Some _) \<Rightarrow> map_ok Some (render_script code_hash hash_type args)
    | _ \<Rightarrow> Inr None) = Inr t"
    using ok render_script_ok by (auto simp: res_simps opt_all_def split: option.splits)
  moreover have "\<exists>t. transpose_opt (map_option try_from_slice (c_type_hash row)) = Inr t"
    using ok by (cases "c_type_hash row") (auto simp: res_simps opt_all_def)
  moreover have "\<exists>t. render_consumed row = Inr t"
    using ok by (auto simp: render_consumed_def res_simps opt_all_def split: option.splits)
  ultimately show ?thesis using ok lock by (auto simp: render_cell_def Let_def res_simps)
qed

lemma render_cell_live:
  assumes "render_cell inc net row = Inr r" and "consumed_columns_agree row"
  shows "rc_is_live r \<longleftrightarrow> c_consumed_by_tx_hash row = None"
  using assms
  by (auto simp: render_cell_def Let_def res_simps render_consumed_def consumed_columns_agree_def
      split: option.splits)

lemma transpose_slice:
  "transpose_opt (map_option try_from_slice x) = Inr y \<Longrightarrow> y = map_option Hex32 x"
  by (cases x) (auto simp: res_simps)

lemma render_cell_key:
  assumes "render_cell inc net row = Inr r"
  shows "rc_tx_hash r = Hex32 (c_tx_hash row)" "rc_output_index r = c_output_index row"
    "rc_block_number r = c_block_number row" "rc_lock_hash r = Hex32 (c_lock_hash row)"
    "rc_type_hash r = map_option Hex32 (c_type_hash row)"
  using assms by (auto simp: render_cell_def Let_def res_simps dest: transpose_slice)

section \<open>Following the cursor\<close>

text \<open>A client that reads all pages by passing back \<^verbatim>\<open>next_cursor\<close>.\<close>

fun follow_cells ::
  "nat \<Rightarrow> cursor_lib \<Rightarrow> Config \<Rightarrow> TipSnapshot \<Rightarrow> chain_db \<Rightarrow> CellsQuery
     \<Rightarrow> (ApiError + CellResponse list) option" where
  "follow_cells 0 lib config snap d q = None"
| "follow_cells (Suc fuel) lib config snap d q =
     (case cells_list lib config snap False d q of
        Inl e \<Rightarrow> Some (Inl e)
      | Inr page \<Rightarrow>
          (case pg_next_cursor page of
             None \<Rightarrow> Some (Inr (pg_data page))
           | Some c \<Rightarrow> map_option (map_ok (\<lambda>rest. pg_data page @ rest))
                         (follow_cells fuel lib config snap d (q\<lparr>cq_cursor := Some c\<rparr>))))"

fun filter_matches :: "ScriptFilter \<Rightarrow> CellStored \<Rightarrow> bool" where
  "filter_matches (LockFilter hash) c = (c_lock_hash c = hash)"
| "filter_matches (TypeFilter hash) c = (c_type_hash c = Some hash)"

definition query_rows :: "ScriptFilter \<Rightarrow> bool option \<Rightarrow> chain_db \<Rightarrow> Cell list" where
  "query_rows fil live d =
     matching_cells (filter_matches fil) (LivenessFilter_as_bool (parse_liveness live)) d"

definition cursor_at :: "cursor_lib \<Rightarrow> Cell list \<Rightarrow> nat \<Rightarrow> string option" where
  "cursor_at lib rows i =
     (if i = 0 then None else Some (encode_cells_cursor lib (cursor_of (rows ! (i - 1)))))"

lemma filter_matches_eq:
  "filter_matches (LockFilter hash) = (\<lambda>c. c_lock_hash c = hash)"
  "filter_matches (TypeFilter hash) = (\<lambda>c. c_type_hash c = Some hash)"
  by (simp_all add: fun_eq_iff)

lemma query_page:
  assumes "schema_ok d" and "0 \<le> limit" and "i \<le> length (query_rows fil live d)"
    and "cur = (if i = 0 then None else Some (cursor_of (query_rows fil live d ! (i - 1))))"
  shows "(case fil of
      LockFilter hash \<Rightarrow> query_by_lock_hash False hash (parse_liveness live) cur limit d
    | TypeFilter hash \<Rightarrow> query_by_type_hash False hash (parse_liveness live) cur limit d)
    = Inr (take (nat limit) (drop i (query_rows fil live d)))"
proof -
  let ?rows = "query_rows fil live d" and ?live = "LivenessFilter_as_bool (parse_liveness live)"
  have "select_cells (filter_matches fil) ?live (cursor_fields cur) limit d = Inr (take (nat limit) (drop i ?rows))"
  proof (cases "i = 0")
    case True
    with assms show ?thesis by (simp add: select_cells_first query_rows_def)
  next
    case False
    then have i: "i - 1 < length ?rows" "Suc (i - 1) = i" using assms(3) by auto
    have "cursor_key (cursor_of (?rows ! (i - 1))) = row_key (?rows ! (i - 1))"
      by (simp add: cursor_key_def cursor_of_def row_key_def)
    then show ?thesis
      using select_cells_next [OF assms(1,2) i(1) [unfolded query_rows_def]] assms(4) False i(2)
      by (simp add: query_rows_def)
  qed
  then show ?thesis
    by (cases fil) (simp_all add: query_by_lock_hash_def query_by_type_hash_def filter_matches_eq)
qed

lemma cells_list_page:
  assumes ok: "schema_ok d" "cursor_lib_ok lib" and q: "parse_filter lib q = Inr fil"
      "parse_limit (cq_limit q) config = Inr limit" "0 < limit"
    and rows: "rows = query_rows fil (cq_is_live q) d" "\<forall>r\<in>set rows. renderable r" "i \<le> length rows"
    and cur: "cq_cursor q = cursor_at lib rows i"
  shows "\<exists>data. collect_results (render_cell (cq_include_data q) (network config)) (take (nat limit) (drop i rows)) = Inr data
    \<and> cells_list lib config snap False d q = Inr \<lparr>pg_data = data,
        pg_next_cursor = (if length rows - i > nat limit then cursor_at lib rows (i + nat limit) else None),
        pg_meta = \<lparr>pm_indexer_tip = ts_indexer_tip snap, pm_node_tip = ts_node_tip snap\<rparr>\<rparr>"
proof -
  let ?c = "if i = 0 then None else Some (cursor_of (rows ! (i - 1)))"
  let ?page = "take (nat limit) (drop i rows)"
  let ?render = "render_cell (cq_include_data q) (network config)"
  obtain data where data: "collect_results ?render ?page = Inr data"
    using collect_results_succeeds [of ?render ?page] rows(2) render_cell_ok
    by (auto simp: list_all_iff dest!: in_set_takeD in_set_dropD)
  have len32: "length (c_tx_hash (rows ! (i - 1))) = 32" if "i \<noteq> 0"
    using rows(2,3) that by (simp add: renderable_def)
  have dec: "transpose_opt (map_option (decode_cells_cursor lib) (cq_cursor q)) = Inr ?c"
    using decode_encode_cursor [OF ok(2)] len32 by (simp add: cur cursor_at_def cursor_of_def)
  have fetch: "(case fil of
      LockFilter hash \<Rightarrow> query_by_lock_hash False hash (parse_liveness (cq_is_live q)) ?c (limit + 1) d
    | TypeFilter hash \<Rightarrow> query_by_type_hash False hash (parse_liveness (cq_is_live q)) ?c (limit + 1) d)
    = Inr (take (nat (limit + 1)) (drop i rows))"
    using query_page [OF ok(1), of "limit + 1" i fil "cq_is_live q" ?c] rows(1,3) q(3) by simp
  have n: "nat (limit + 1) = Suc (nat limit)" using q(3) by simp
  have "build_page lib (take (Suc (nat limit)) (drop i rows)) limit (cq_include_data q) (network config)
      = Inr (data, if length rows - i > nat limit then cursor_at lib rows (i + nat limit) else None)"
  proof (cases "length rows - i > nat limit")
    case True
    then have "last ?page = rows ! (i + nat limit - 1)" and "?page \<noteq> []"
      using q(3) by (simp_all add: last_conv_nth)
    with True data q(3) show ?thesis
      by (simp add: build_page_def Let_def cursor_at_def min_def)
  next
    case False
    with data show ?thesis by (simp add: build_page_def Let_def)
  qed
  with data dec fetch n q(1,2) show ?thesis by (simp add: cells_list_def Let_def)
qed

lemma follow_cells_from:
  assumes ok: "schema_ok d" "cursor_lib_ok lib" and q: "parse_filter lib q = Inr fil"
      "parse_limit (cq_limit q) config = Inr limit" "0 < limit"
    and rows: "rows = query_rows fil (cq_is_live q) d" "\<forall>r\<in>set rows. renderable r" "i \<le> length rows"
    and cur: "cq_cursor q = cursor_at lib rows i" and fuel: "length rows - i < fuel"
  shows "follow_cells fuel lib config snap d q =
    Some (collect_results (render_cell (cq_include_data q) (network config)) (drop i rows))"
  using q(1,2) rows(1,3) cur fuel
proof (induction fuel arbitrary: q i)
  case (Suc fuel)
  let ?render = "render_cell (cq_include_data q) (network config)" and ?n = "nat limit"
  obtain data where data: "collect_results ?render (take ?n (drop i rows)) = Inr data"
    and page: "cells_list lib config snap False d q = Inr \<lparr>pg_data = data,
        pg_next_cursor = (if length rows - i > ?n then cursor_at lib rows (i + ?n) else None),
        pg_meta = \<lparr>pm_indexer_tip = ts_indexer_tip snap, pm_node_tip = ts_node_tip snap\<rparr>\<rparr>"
    using cells_list_page [OF ok Suc.prems(1,2) q(3) Suc.prems(3) rows(2) Suc.prems(4,5)] by blast
  show ?case
  proof (cases "length rows - i > ?n")
    case True
    let ?q = "q\<lparr>cq_cursor := cursor_at lib rows (i + ?n)\<rparr>"
    have "follow_cells fuel lib config snap d ?q = Some (collect_results ?render (drop (i + ?n) rows))"
      using Suc.IH [of ?q "i + ?n"] Suc.prems True q(3) by (simp add: parse_filter_def)
    moreover have "take ?n (drop i rows) @ drop (i + ?n) rows = drop i rows"
      by (metis add.commute append_take_drop_id drop_drop)
    then have "collect_results ?render (drop i rows) =
        map_ok (\<lambda>rest. data @ rest) (collect_results ?render (drop (i + ?n) rows))"
      using collect_results_append [of ?render "take ?n (drop i rows)" "drop (i + ?n) rows"] data
      by simp
    ultimately show ?thesis using page True q(3) by (simp add: cursor_at_def)
  next
    case False
    with data page show ?thesis by simp
  qed
qed simp

text \<open>The rows behind a query, and that following the cursor from the first page reads all of them.\<close>

lemma query_rows_set:
  assumes "schema_ok d"
  shows "CellStored.truncate ` set (query_rows fil live d) =
    {c \<in> set (db_cells d). filter_matches fil c
       \<and> (case live of None \<Rightarrow> True | Some b \<Rightarrow> (c_consumed_by_tx_hash c = None) = b)}"
proof -
  have live: "live_matches (LivenessFilter_as_bool (parse_liveness live)) c \<longleftrightarrow>
      (case live of None \<Rightarrow> True | Some b \<Rightarrow> (c_consumed_by_tx_hash c = None) = b)" for c :: CellStored
    by (auto simp: live_matches_def parse_liveness_def split: option.splits bool.splits)
  show ?thesis
    using join_block_total [OF assms] join_block_truncate
    by (fastforce simp: query_rows_def matching_cells_set live image_iff)
qed

lemma follow_cells_all:
  assumes "schema_ok d" and "cursor_lib_ok lib" and "parse_filter lib q = Inr fil"
    and "parse_limit (cq_limit q) config = Inr limit" and "0 < limit" and "cq_cursor q = None"
    and "\<forall>r\<in>set (query_rows fil (cq_is_live q) d). renderable r"
    and "length (db_cells d) < fuel"
  shows "follow_cells fuel lib config snap d q =
      Some (collect_results (render_cell (cq_include_data q) (network config)) (query_rows fil (cq_is_live q) d))"
proof -
  have "length (query_rows fil (cq_is_live q) d) \<le> length (db_cells d)"
    using length_filter_le le_trans
    by (fastforce simp: query_rows_def matching_cells_def List.map_filter_def)
  then show ?thesis
    using follow_cells_from [OF assms(1-5) refl assms(7), of 0 fuel snap] assms(6,8)
    by (simp add: cursor_at_def)
qed

text \<open>C15: reading \<^verbatim>\<open>GET /v1/cells\<close> page by page with the returned cursors terminates and yields every
  matching cell exactly once, newest first, whatever the page size.\<close>

theorem cells_paging_complete:
  assumes "schema_ok d" and "cursor_lib_ok lib" and "parse_filter lib q = Inr fil"
    and "parse_limit (cq_limit q) config = Inr limit" and "0 < limit" and "cq_cursor q = None"
    and "\<forall>r\<in>set (query_rows fil (cq_is_live q) d). renderable r"
    and "length (db_cells d) < fuel"
  shows "follow_cells fuel lib config snap d q =
      Some (collect_results (render_cell (cq_include_data q) (network config))
              (query_rows fil (cq_is_live q) d))
    \<and> distinct (query_rows fil (cq_is_live q) d)
    \<and> sorted_wrt (\<lambda>a b. row_key b < row_key a) (query_rows fil (cq_is_live q) d)
    \<and> CellStored.truncate ` set (query_rows fil (cq_is_live q) d) =
      {c \<in> set (db_cells d). filter_matches fil c
         \<and> (case cq_is_live q of None \<Rightarrow> True | Some b \<Rightarrow> (c_consumed_by_tx_hash c = None) = b)}"
  using follow_cells_all [OF assms] query_rows_set [OF assms(1)]
    matching_cells_distinct [OF assms(1)] matching_cells_keys [OF assms(1)]
  by (simp add: query_rows_def)

end
