(* ===== verification/BlocksRoute.thy ===== *)
theory BlocksRoute
  imports ChainDb Hex
begin

text \<open>
  \<^verbatim>\<open>crates/api/src/routes/blocks.rs\<close>: \<^verbatim>\<open>GET /v1/blocks/latest\<close> and \<^verbatim>\<open>GET /v1/blocks/:number\<close>.  The decimal
  rendering of the nonce is \<^verbatim>\<open>BigDecimal\<close>'s and an argument.
\<close>

record BlockResponse =
  rb_number :: i64
  rb_hash :: Hex32
  rb_parent_hash :: Hex32
  rb_timestamp_ms :: i64
  rb_epoch :: i64
  rb_transactions_count :: i32
  rb_proposals_count :: i32
  rb_uncles_count :: i32
  rb_nonce :: string
  rb_dao :: Hex32
  rb_indexed_at :: timestamp

definition block_response :: "(int \<Rightarrow> string) \<Rightarrow> Block \<Rightarrow> ApiError + BlockResponse" where
  "block_response nonce_str block =
     and_then (try_from_slice (br_hash block)) (\<lambda>hash.
     and_then (try_from_slice (br_parent_hash block)) (\<lambda>parent_hash.
     and_then (try_from_slice (br_dao block)) (\<lambda>dao.
       Inr \<lparr>rb_number = br_number block, rb_hash = hash, rb_parent_hash = parent_hash,
            rb_timestamp_ms = br_timestamp_ms block, rb_epoch = br_epoch block,
            rb_transactions_count = br_transactions_count block,
            rb_proposals_count = br_proposals_count block,
            rb_uncles_count = br_uncles_count block, rb_nonce = nonce_str (br_nonce block),
            rb_dao = dao, rb_indexed_at = blk_indexed_at block\<rparr>)))"

definition blocks_route_latest ::
  "(int \<Rightarrow> string) \<Rightarrow> bool \<Rightarrow> chain_db \<Rightarrow> ApiError + BlockResponse" where
  "blocks_route_latest nonce_str fault d =
     and_then (map_err from_db (blocks_latest fault d)) (\<lambda>found.
     and_then (ok_or found (NotFound ''no blocks indexed yet'')) (block_response nonce_str))"

definition parse_block_number :: "string \<Rightarrow> ApiError + i64" where
  "parse_block_number raw =
     and_then (ok_or (u64_from_str raw) (BadRequest (''invalid block number: '' @ quoted raw)))
       (\<lambda>parsed. ok_or (i64_try_from parsed) (BadRequest (''block number out of range: '' @ quoted raw)))"

definition blocks_route_by_number ::
  "(int \<Rightarrow> string) \<Rightarrow> bool \<Rightarrow> chain_db \<Rightarrow> string \<Rightarrow> ApiError + BlockResponse" where
  "blocks_route_by_number nonce_str fault d raw =
     and_then (parse_block_number raw) (\<lambda>number.
     and_then (map_err from_db (blocks_get_by_number fault number d)) (\<lambda>found.
     and_then (ok_or found (NotFound ''block not indexed'')) (block_response nonce_str)))"

section \<open>What the routes return\<close>

definition block_renderable :: "Block \<Rightarrow> bool" where
  "block_renderable b \<longleftrightarrow> length (br_hash b) = 32 \<and> length (br_parent_hash b) = 32 \<and> length (br_dao b) = 32"

lemma block_response_ok:
  assumes "block_renderable b"
  shows "\<exists>r. block_response nonce_str b = Inr r \<and> rb_number r = br_number b \<and> rb_hash r = Hex32 (br_hash b)
    \<and> rb_parent_hash r = Hex32 (br_parent_hash b)"
  using assms by (auto simp: block_response_def block_renderable_def res_simps)

lemma u64_from_str_range: "u64_from_str s = Some n \<Longrightarrow> 0 \<le> n \<and> n \<le> u64_MAX"
  by (auto simp: u64_from_str_def Let_def split: if_splits)

lemma parse_block_number_dec: "0 \<le> n \<Longrightarrow> n \<le> i64_MAX \<Longrightarrow> parse_block_number (int_dec n) = Inr n"
  by (simp add: parse_block_number_def u64_from_str_dec in_u64_def i64_try_from_def)

lemma parse_block_number_range: "parse_block_number raw = Inr n \<Longrightarrow> 0 \<le> n \<and> n \<le> i64_MAX"
  by (auto simp: parse_block_number_def res_simps in_i64_def dest: u64_from_str_range)

lemma parse_block_number_error: "parse_block_number raw = Inl e \<Longrightarrow> \<exists>m. e = BadRequest m"
  by (auto simp: parse_block_number_def res_simps)

lemma blocks_latest_max:
  assumes "distinct (map br_number (db_blocks d))" and "db_blocks d \<noteq> []"
  shows "\<exists>b. blocks_latest False d = Inr (Some b) \<and> b \<in> set (db_blocks d)
    \<and> (\<forall>x\<in>set (db_blocks d). br_number x \<le> br_number b)"
proof -
  let ?s = "sort_key (\<lambda>b. - br_number b) (db_blocks d)"
  obtain b rest where s: "?s = b # rest" using assms(2) by (metis length_0_conv length_sort list.exhaust)
  have "sorted (map (\<lambda>b. - br_number b) ?s)" by simp
  then have "\<forall>x\<in>set rest. - br_number b \<le> - br_number x" by (simp add: s)
  moreover have "set (db_blocks d) = insert b (set rest)" using s by (metis list.simps(15) set_sort)
  ultimately show ?thesis by (auto simp: blocks_latest_def s)
qed

text \<open>\<^verbatim>\<open>GET /v1/blocks/{n}\<close> serves the stored block of height \<open>n\<close> for every height that is stored, answers
  404 for every other height a \<^verbatim>\<open>BIGINT\<close> can hold, and \<^verbatim>\<open>GET /v1/blocks/latest\<close> serves the highest.\<close>

theorem blocks_routes_serve_stored:
  assumes "schema_ok d" and "\<forall>b\<in>set (db_blocks d). block_renderable b" and "0 \<le> n" and "n \<le> i64_MAX"
  shows "(case find (\<lambda>b. br_number b = n) (db_blocks d) of
      Some b \<Rightarrow> \<exists>r. blocks_route_by_number nonce_str False d (int_dec n) = Inr r
        \<and> rb_number r = n \<and> rb_hash r = Hex32 (br_hash b)
    | None \<Rightarrow> blocks_route_by_number nonce_str False d (int_dec n) = Inl (NotFound ''block not indexed''))
    \<and> (if db_blocks d = []
       then blocks_route_latest nonce_str False d = Inl (NotFound ''no blocks indexed yet'')
       else \<exists>r. blocks_route_latest nonce_str False d = Inr r
              \<and> rb_number r = Max (br_number ` set (db_blocks d)))"
proof -
  have "case find (\<lambda>b. br_number b = n) (db_blocks d) of
      Some b \<Rightarrow> \<exists>r. blocks_route_by_number nonce_str False d (int_dec n) = Inr r
        \<and> rb_number r = n \<and> rb_hash r = Hex32 (br_hash b)
    | None \<Rightarrow> blocks_route_by_number nonce_str False d (int_dec n) = Inl (NotFound ''block not indexed'')"
    using assms(2) parse_block_number_dec [OF assms(3,4)]
    by (auto simp: blocks_route_by_number_def blocks_get_by_number_def dest!: find_SomeD
        dest: block_response_ok [of _ nonce_str] split: option.split)
  moreover have "\<exists>r. blocks_route_latest nonce_str False d = Inr r \<and> rb_number r = Max (br_number ` set (db_blocks d))"
    if ne: "db_blocks d \<noteq> []"
  proof -
    obtain b where b: "blocks_latest False d = Inr (Some b)" "b \<in> set (db_blocks d)"
      "\<forall>x\<in>set (db_blocks d). br_number x \<le> br_number b"
      using blocks_latest_max [of d] assms(1) ne unfolding schema_ok_def by blast
    then have "Max (br_number ` set (db_blocks d)) = br_number b" by (intro Max_eqI) auto
    moreover obtain r where "block_response nonce_str b = Inr r" "rb_number r = br_number b"
      using block_response_ok [of b nonce_str] b(2) assms(2) by blast
    ultimately show ?thesis using b(1) by (simp add: blocks_route_latest_def)
  qed
  ultimately show ?thesis by (simp add: blocks_route_latest_def blocks_latest_def)
qed

end
