(* ===== verification/App.thy ===== *)
theory App
  imports Dashboard MetricsWorker AdminMetrics Health Proofs
    CellsRoute BlocksRoute
begin

text \<open>
  \<^verbatim>\<open>build_app\<close> of \<^verbatim>\<open>api/src/lib.rs\<close>: the routers with their layers and every handler behind them.  What
  axum does before a handler runs (matching the path, decoding path, query and body) is the choice of
  an \<open>endpoint\<close>; a request it refuses itself, because of its method or its body, is \<open>Refused\<close>.
\<close>

section \<open>Endpoints\<close>

record GraphQlRequestBody =
  gb_query :: string
  gb_variables :: "json option"
  gb_operation_name :: "string option"

datatype chart = UsageChart | SummaryChart | EndpointsChart | RateLimitsChart | ActivityChart | StatusChart "string option"

datatype router = Public | RestRouter | GraphqlRouter | AdminPublic | AdminRouter

datatype endpoint =
    HealthLive | HealthReady | OpenapiJson | MetricsText | StatsGet
  | BlocksLatest | BlocksByNumber string | CellsList CellsQuery | ProofsGet string | UnknownRoute
  | GraphqlPost GraphQlRequestBody | GraphqlSubscribe
  | OauthStart | OauthCallback GithubCallback
  | AdminCall admin_request | AdminChart chart
  | Refused router string nat

fun router_of :: "endpoint \<Rightarrow> router" where
  "router_of HealthLive = Public"
| "router_of HealthReady = Public"
| "router_of OpenapiJson = Public"
| "router_of MetricsText = Public"
| "router_of StatsGet = Public"
| "router_of BlocksLatest = RestRouter"
| "router_of (BlocksByNumber _) = RestRouter"
| "router_of (CellsList _) = RestRouter"
| "router_of (ProofsGet _) = RestRouter"
| "router_of UnknownRoute = RestRouter"
| "router_of (GraphqlPost _) = GraphqlRouter"
| "router_of GraphqlSubscribe = GraphqlRouter"
| "router_of OauthStart = AdminPublic"
| "router_of (OauthCallback _) = AdminPublic"
| "router_of (AdminCall _) = AdminRouter"
| "router_of (AdminChart _) = AdminRouter"
| "router_of (Refused r _ _) = r"

fun admin_path :: "admin_request \<Rightarrow> string" where
  "admin_path Me = ''/admin/me''"
| "admin_path SignOut = ''/admin/sign-out''"
| "admin_path ListKeys = ''/admin/keys''"
| "admin_path (CreateKey _) = ''/admin/keys''"
| "admin_path (RotateKey _) = ''/admin/keys/:id/rotate''"
| "admin_path (RevokeKey _) = ''/admin/keys/:id/revoke''"
| "admin_path ListWebhooks = ''/admin/webhooks''"
| "admin_path (CreateWebhook _) = ''/admin/webhooks''"
| "admin_path (DeleteWebhook _) = ''/admin/webhooks/:id''"

fun chart_path :: "chart \<Rightarrow> string" where
  "chart_path UsageChart = ''/admin/metrics/usage''"
| "chart_path SummaryChart = ''/admin/metrics/summary''"
| "chart_path EndpointsChart = ''/admin/metrics/endpoints''"
| "chart_path RateLimitsChart = ''/admin/metrics/rate-limits''"
| "chart_path ActivityChart = ''/admin/metrics/activity''"
| "chart_path (StatusChart _) = ''/admin/metrics/status''"

text \<open>The route axum matched; the fallback matches none.\<close>

fun matched_path :: "endpoint \<Rightarrow> string option" where
  "matched_path HealthLive = Some ''/v1/health''"
| "matched_path HealthReady = Some ''/v1/health/ready''"
| "matched_path OpenapiJson = Some ''/v1/openapi.json''"
| "matched_path MetricsText = Some ''/metrics''"
| "matched_path StatsGet = Some ''/v1/stats''"
| "matched_path BlocksLatest = Some ''/v1/blocks/latest''"
| "matched_path (BlocksByNumber _) = Some ''/v1/blocks/:number''"
| "matched_path (CellsList _) = Some ''/v1/cells''"
| "matched_path (ProofsGet _) = Some ''/v1/proofs/:tx_hash''"
| "matched_path UnknownRoute = None"
| "matched_path (GraphqlPost _) = Some ''/graphql''"
| "matched_path GraphqlSubscribe = Some ''/graphql''"
| "matched_path OauthStart = Some ''/admin/oauth/github/start''"
| "matched_path (OauthCallback _) = Some ''/admin/oauth/github/callback''"
| "matched_path (AdminCall req) = Some (admin_path req)"
| "matched_path (AdminChart ch) = Some (chart_path ch)"
| "matched_path (Refused _ path _) = Some path"

section \<open>Handlers\<close>

datatype chart_data = UsageData "UsageDataPoint list" | SummaryData MetricsSummary | EndpointsData "EndpointRow list"
  | RateLimitsData "RateLimitRow list" | ActivityData "ActivityRow list" | StatusData StatusResponse

datatype app_body = LiveBody HealthResponse | ReadyBody ReadyResponse | TextBody string | StatsBody StatsResponse
  | BlockBody BlockResponse | CellsBody CellsPage | ProofBody ProofResponse | GraphqlBody json
  | AdminBody admin_body | ChartBody chart_data

text \<open>What the handlers call: codecs, the rendered specification and metrics, the GraphQL engine on the
  index and the tip, and the upgrade of a subscription.\<close>

record app_lib =
  li_dash :: dash_lib
  li_cursor :: cursor_lib
  li_nonce_str :: "int \<Rightarrow> string"
  li_hex_decode :: "string \<Rightarrow> bytes option"
  li_version :: string
  li_openapi :: string
  li_render :: "api_metrics \<Rightarrow> string"
  li_execute :: "GraphQlRequestBody \<Rightarrow> chain_db \<Rightarrow> TipSnapshot \<Rightarrow> json"
  li_upgrade :: "http_request \<Rightarrow> nat"
  li_logs :: log_codec

text \<open>What one call meets: clocks, generated values, failures and dependencies.\<close>

record app_env =
  ap_auth :: auth_env
  ap_limiter :: limiter_env
  ap_session :: session_env
  ap_admin :: admin_env
  ap_oauth :: oauth_env
  ap_fault :: bool
  ap_now :: int
  ap_system_now :: timestamp
  ap_elapsed :: nat
  ap_request_id :: string
  ap_probes :: probes
  ap_node :: "proof_client option"
  ap_scrape :: metrics_scrape

text \<open>The index is read by the API and written by the indexer only.\<close>

record app_world = server_world +
  pp_index :: chain_db

definition plain_response :: "nat \<Rightarrow> (string \<times> string) list \<Rightarrow> 'b \<Rightarrow> 'b http_response" where
  "plain_response code headers b = \<lparr>rs_status = code, rs_headers = headers, rs_body = Payload b, rs_key = None\<rparr>"

definition result_response :: "ApiError + 'b \<Rightarrow> 'b http_response" where
  "result_response r = (case r of Inl err \<Rightarrow> error_response err | Inr b \<Rightarrow> plain_response 200 [] b)"

definition map_response :: "('b \<Rightarrow> 'c) \<Rightarrow> 'b http_response \<Rightarrow> 'c http_response" where
  "map_response f rs = \<lparr>rs_status = rs_status rs, rs_headers = rs_headers rs, rs_body = map_body f (rs_body rs), rs_key = rs_key rs\<rparr>"

definition graphql_handler :: "app_lib \<Rightarrow> GraphQlRequestBody \<Rightarrow> chain_db \<Rightarrow> TipSnapshot \<Rightarrow> app_body http_response" where
  "graphql_handler lib body d snap =
     plain_response 200 [(''content-type'', ''application/json'')] (GraphqlBody (li_execute lib body d snap))"

definition openapi_handler :: "app_lib \<Rightarrow> app_body http_response" where
  "openapi_handler lib = plain_response 200 [(''content-type'', ''application/json'')] (TextBody (li_openapi lib))"

fun chart_handle :: "app_env \<Rightarrow> uuid \<Rightarrow> chart \<Rightarrow> 'a server_world_scheme \<Rightarrow> ApiError + chart_data" where
  "chart_handle env user_id UsageChart w = map_ok UsageData (usage (ap_fault env) (ap_system_now env) user_id w)"
| "chart_handle env user_id SummaryChart w = map_ok SummaryData (summary (ap_fault env) (ap_system_now env) user_id w)"
| "chart_handle env user_id EndpointsChart w = map_ok EndpointsData (endpoints (ap_fault env) (ap_system_now env) user_id w)"
| "chart_handle env user_id RateLimitsChart w = map_ok RateLimitsData (rate_limits (ap_fault env) user_id w)"
| "chart_handle env user_id ActivityChart w = map_ok ActivityData (activity (ap_fault env) user_id w)"
| "chart_handle env user_id (StatusChart q) w = Inr (StatusData (status (ap_now env) q w))"

fun handle :: "app_lib \<Rightarrow> Config \<Rightarrow> app_env \<Rightarrow> endpoint \<Rightarrow> (app_body, 'a app_world_scheme) service" where
  "handle lib config env HealthLive rq w = (plain_response 200 [] (LiveBody (liveness (li_version lib))), w)"
| "handle lib config env HealthReady rq w =
     (case readiness (ap_probes env) of (http, body) \<Rightarrow> (plain_response http [] (ReadyBody body), w))"
| "handle lib config env OpenapiJson rq w = (openapi_handler lib, w)"
| "handle lib config env MetricsText rq w =
     (case metrics_handler (li_render lib) (ap_scrape env) w of (rs, w') \<Rightarrow> (map_response TextBody rs, w'))"
| "handle lib config env StatsGet rq w = (plain_response 200 [] (StatsBody (stats (ap_now env) (sv_tip w))), w)"
| "handle lib config env BlocksLatest rq w =
     (result_response (map_ok BlockBody (blocks_route_latest (li_nonce_str lib) (ap_fault env) (pp_index w))), w)"
| "handle lib config env (BlocksByNumber raw) rq w =
     (result_response (map_ok BlockBody (blocks_route_by_number (li_nonce_str lib) (ap_fault env) (pp_index w) raw)), w)"
| "handle lib config env (CellsList params) rq w =
     (result_response (map_ok CellsBody (cells_list (li_cursor lib) config (sv_tip w) (ap_fault env) (pp_index w) params)), w)"
| "handle lib config env (ProofsGet raw) rq w =
     (result_response (map_ok ProofBody (passthrough (li_hex_decode lib) (ap_node env) raw)), w)"
| "handle lib config env UnknownRoute rq w = (rest_not_found, w)"
| "handle lib config env (GraphqlPost body) rq w = (graphql_handler lib body (pp_index w) (sv_tip w), w)"
| "handle lib config env GraphqlSubscribe rq w =
     (\<lparr>rs_status = li_upgrade lib rq, rs_headers = [], rs_body = NoBody, rs_key = None\<rparr>, w)"
| "handle lib config env OauthStart rq w =
     (case github_start (li_dash lib) config (ap_oauth env) w of (r, w') \<Rightarrow> (map_response AdminBody (reply_response r), w'))"
| "handle lib config env (OauthCallback q) rq w =
     (case github_callback (li_dash lib) config (ap_oauth env) q rq w of (r, w') \<Rightarrow> (map_response AdminBody (reply_response r), w'))"
| "handle lib config env (AdminCall req) rq w =
     (case admin_service (li_dash lib) config (ap_admin env) req rq w of (rs, w') \<Rightarrow> (map_response AdminBody rs, w'))"
| "handle lib config env (AdminChart ch) rq w =
     (case rq_session rq of
        None \<Rightarrow> (error_response (Internal (Anyhow ''missing extension'')), w)
      | Some auth \<Rightarrow> (result_response (map_ok ChartBody (chart_handle env (us_id (as_user auth)) ch w)), w))"
| "handle lib config env (Refused r path code) rq w =
     (\<lparr>rs_status = code, rs_headers = [], rs_body = NoBody, rs_key = None\<rparr>, w)"

section \<open>The application\<close>

record app_call =
  cl_request :: http_request
  cl_endpoint :: endpoint
  cl_env :: app_env

definition routed :: "app_lib \<Rightarrow> Config \<Rightarrow> app_env \<Rightarrow> endpoint \<Rightarrow> (app_body, 'a app_world_scheme) service" where
  "routed lib config env ep =
     (case router_of ep of
        Public \<Rightarrow> handle lib config env ep
      | RestRouter \<Rightarrow> auth_middleware (dl_keys (li_dash lib)) (ap_auth env) (rate_limit_for config (ap_limiter env) Rest (handle lib config env ep))
      | GraphqlRouter \<Rightarrow> auth_middleware (dl_keys (li_dash lib)) (ap_auth env) (rate_limit_for config (ap_limiter env) Graphql (handle lib config env ep))
      | AdminPublic \<Rightarrow> handle lib config env ep
      | AdminRouter \<Rightarrow> session_middleware (li_dash lib) (ap_session env) (handle lib config env ep))"

definition build_app :: "app_lib \<Rightarrow> Config \<Rightarrow> app_call \<Rightarrow> 'a app_world_scheme \<Rightarrow> app_body http_response \<times> 'a app_world_scheme" where
  "build_app lib config c =
     (let env = cl_env c; ep = cl_endpoint c
      in request_id_layer (ap_request_id env)
           (record_request_metrics \<lparr>me_matched = matched_path ep, me_elapsed = ap_elapsed env, me_codec = li_logs lib\<rparr>
             (tip_headers (ap_now env) (routed lib config env ep)))
           (cl_request c))"

end
