(* ===== verification/Interrupt.thy ===== *)
theory Interrupt
  imports App
begin

text \<open>
  Requests that do not run to their end: the timeout layer drops the future of a request at one of its
  suspension points, and a handler that panics unwinds to the outermost layer.  What was awaited until
  then has happened, and a command that was sent may have happened too.  The functions named \<open>_cuts\<close> list the
  worlds a request can leave behind, in the order in which it reaches them, with a flag that tells
  whether the script of the limiter has run.
\<close>

section \<open>Suspension points\<close>

text \<open>The callback awaits Redis, GitHub and two statements; every other handler awaits at most one command that
  changes anything.\<close>

definition callback_cuts ::
    "dash_lib \<Rightarrow> Config \<Rightarrow> oauth_env \<Rightarrow> GithubCallback \<Rightarrow> http_request \<Rightarrow> 'a api_world_scheme \<Rightarrow> 'a api_world_scheme list" where
  "callback_cuts lib config env q rq w =
     (case callback_checks config q rq (pw_redis w) of
        Inl err \<Rightarrow> [w]
      | Inr (code, state_token, client_id, client_secret, redirect_url, redis) \<Rightarrow>
          (let key = oauth_state_key state_token;
               w' = w\<lparr>pw_redis := Some (redis\<lparr>rd_oauth := (rd_oauth redis)(key := None)\<rparr>)\<rparr>
           in if oe_redis_fault env \<or> \<not> oauth_pending (oe_redis_now env) redis key \<or> oe_redis_del_fault env then [w]
              else [w, w'] @
                (case github_identity (oe_github env) client_id client_secret redirect_url code of
                   Inl err \<Rightarrow> []
                 | Inr (profile, email) \<Rightarrow>
                     (case upsert_from_github (oe_upsert_fault env) (oe_now env) (oe_fresh_id env) (gp_id profile) (gp_login profile)
                             email (gp_avatar_url profile) (aw_accounts w') of
                        Inl e \<Rightarrow> []
                      | Inr (user, a) \<Rightarrow> [w'\<lparr>aw_accounts := a\<rparr>, snd (github_callback lib config env q rq w)]))))"

definition handler_cuts :: "app_lib \<Rightarrow> Config \<Rightarrow> app_env \<Rightarrow> endpoint \<Rightarrow> http_request \<Rightarrow> 'a app_world_scheme \<Rightarrow> 'a app_world_scheme list" where
  "handler_cuts lib config env ep rq w =
     (case ep of
        OauthCallback q \<Rightarrow> callback_cuts (li_dash lib) config (ap_oauth env) q rq w
      | _ \<Rightarrow> [w, snd (handle lib config env ep rq w)])"

type_synonym 'w cuts = "http_request \<Rightarrow> 'w \<Rightarrow> (bool \<times> 'w) list"

definition limiter_cuts :: "Config \<Rightarrow> limiter_env \<Rightarrow> Surface \<Rightarrow> (http_request \<Rightarrow> 'a server_world_scheme \<Rightarrow> 'a server_world_scheme list)
      \<Rightarrow> 'a server_world_scheme cuts" where
  "limiter_cuts config env surface next_cuts rq w = (case rq_key rq of
     None \<Rightarrow> [(False, w)]
   | Some key \<Rightarrow>
       (case rate_limiter config w of
          None \<Rightarrow> map (Pair False) (next_cuts rq (count_outcome surface key FailOpen w))
        | Some (fails_open, redis) \<Rightarrow>
            (case check env (au_prefix key) surface (from_config config (au_tier key) surface) redis of
               (r, redis') \<Rightarrow>
                 (let w' = w\<lparr>pw_redis := Some redis'\<rparr>
                  in [(False, w), (True, w')] @
                     (case r of
                        Inl err \<Rightarrow> if fails_open then map (Pair True) (next_cuts rq (count_outcome surface key FailOpen w')) else []
                      | Inr decision \<Rightarrow>
                          if dc_allowed decision then map (Pair True) (next_cuts rq (count_outcome surface key Allowed w')) else [])))))"

text \<open>Resolving a bearer string awaits the insertion into the cache before the task that touches the key is
  spawned.\<close>

definition auth_cuts :: "key_lib \<Rightarrow> auth_env \<Rightarrow> 'a auth_world_scheme cuts \<Rightarrow> 'a auth_world_scheme cuts" where
  "auth_cuts lib env next_cuts rq w = (case extract_bearer rq of
     Inl err \<Rightarrow> [(False, w)]
   | Inr bearer \<Rightarrow>
       (case auth_resolve lib env bearer w of
          (Inr key, w') \<Rightarrow> [(False, w), (False, w\<lparr>aw_cache := aw_cache w'\<rparr>)] @ next_cuts (rq\<lparr>rq_key := Some key\<rparr>) w'
        | (Inl err, w') \<Rightarrow> [(False, w)]))"

definition session_cuts :: "dash_lib \<Rightarrow> session_env \<Rightarrow> (http_request \<Rightarrow> 'a api_world_scheme \<Rightarrow> 'a api_world_scheme list)
      \<Rightarrow> 'a api_world_scheme cuts" where
  "session_cuts lib env next_cuts rq w = (case extract_session_cookie rq of
     None \<Rightarrow> [(False, w)]
   | Some token \<Rightarrow>
       (let hash = hash_token lib token in
        case session_resolve env hash (aw_accounts w) of
          Inl err \<Rightarrow> [(False, w)]
        | Inr resolved \<Rightarrow> (False, w) # map (Pair False) (next_cuts (rq\<lparr>rq_session := Some resolved\<rparr>) (w\<lparr>pw_seen := pw_seen w @ [hash]\<rparr>))))"

definition routed_cuts :: "app_lib \<Rightarrow> Config \<Rightarrow> app_env \<Rightarrow> endpoint \<Rightarrow> 'a app_world_scheme cuts" where
  "routed_cuts lib config env ep =
     (let limited = (\<lambda>surface. auth_cuts (dl_keys (li_dash lib)) (ap_auth env)
                       (limiter_cuts config (ap_limiter env) surface (handler_cuts lib config env ep)));
          open_cuts = (\<lambda>rq w. map (Pair False) (handler_cuts lib config env ep rq w))
      in case router_of ep of
           Public \<Rightarrow> open_cuts
         | RestRouter \<Rightarrow> limited Rest
         | GraphqlRouter \<Rightarrow> limited Graphql
         | AdminPublic \<Rightarrow> open_cuts
         | AdminRouter \<Rightarrow> session_cuts (li_dash lib) (ap_session env) (handler_cuts lib config env ep))"

section \<open>The interrupted application\<close>

definition TIMEOUT_STATUS :: nat where "TIMEOUT_STATUS = 408"

datatype interruption = Timeout | Panic

definition timeout_response :: "'b http_response" where
  "timeout_response = \<lparr>rs_status = TIMEOUT_STATUS, rs_headers = [], rs_body = NoBody, rs_key = None\<rparr>"

text \<open>The timeout layer is inside the one that copies the request identifier to the response, the panic catcher
  is outside all of them; the metrics layer is inside both.\<close>

definition interrupted_response :: "app_call \<Rightarrow> interruption \<Rightarrow> app_body http_response" where
  "interrupted_response c why = (case why of
     Timeout \<Rightarrow> fst (request_id_layer (ap_request_id (cl_env c)) (\<lambda>rq w. (timeout_response, w)) (cl_request c) ())
   | Panic \<Rightarrow> handle_panic)"

text \<open>What can happen to a request: it completes, or it is interrupted at one of its suspension points.\<close>

datatype app_event = Served app_call | Interrupted app_call interruption nat

fun event_call :: "app_event \<Rightarrow> app_call" where
  "event_call (Served c) = c"
| "event_call (Interrupted c why n) = c"

text \<open>The request as the inner layers see it.\<close>

definition inner_request :: "app_call \<Rightarrow> http_request" where
  "inner_request c = (let rq = cl_request c in
     if header_get REQUEST_ID_HEADER rq = None then rq\<lparr>rq_headers := rq_headers rq @ [(REQUEST_ID_HEADER, ap_request_id (cl_env c))]\<rparr> else rq)"

definition call_cuts :: "app_lib \<Rightarrow> Config \<Rightarrow> app_call \<Rightarrow> 'a app_world_scheme \<Rightarrow> (bool \<times> 'a app_world_scheme) list" where
  "call_cuts lib config c w = routed_cuts lib config (cl_env c) (cl_endpoint c) (inner_request c) w"

definition cut_at :: "app_lib \<Rightarrow> Config \<Rightarrow> app_call \<Rightarrow> nat \<Rightarrow> 'a app_world_scheme \<Rightarrow> bool \<times> 'a app_world_scheme" where
  "cut_at lib config c n w = (let cs = call_cuts lib config c w in cs ! (min n (length cs - 1)))"

fun run_event :: "app_lib \<Rightarrow> Config \<Rightarrow> app_event \<Rightarrow> 'a app_world_scheme \<Rightarrow> app_body http_response \<times> 'a app_world_scheme" where
  "run_event lib config (Served c) w = build_app lib config c w"
| "run_event lib config (Interrupted c why n) w = (interrupted_response c why, snd (cut_at lib config c n w))"

lemma cuts_nonempty: "handler_cuts lib config env ep rq w \<noteq> []" "call_cuts lib config c w \<noteq> []"
proof -
  have h: "handler_cuts lib config env ep rq w \<noteq> []" for lib config env ep rq and w :: "'b app_world_scheme"
    by (auto simp: handler_cuts_def callback_cuts_def Let_def split: endpoint.split sum.split)
  then show "handler_cuts lib config env ep rq w \<noteq> []" .
  show "call_cuts lib config c w \<noteq> []"
    by (auto simp: call_cuts_def routed_cuts_def auth_cuts_def limiter_cuts_def session_cuts_def Let_def h
        split: router.split option.split sum.split prod.split)
qed

lemma cut_at_mem: "cut_at lib config c n w \<in> set (call_cuts lib config c w)"
proof -
  have "0 < length (call_cuts lib config c w)" using cuts_nonempty(2) by blast
  then show ?thesis unfolding cut_at_def Let_def by (intro nth_mem) linarith
qed

lemma interrupted_no_key: "rs_key (interrupted_response c why) = None"
  by (simp add: interrupted_response_def request_id_layer_def timeout_response_def handle_panic_def header_insert_def Let_def
      split: interruption.split)

section \<open>What a request can change\<close>

lemma with_accounts_world: "snd (with_accounts w r k) = (case r of Inl e \<Rightarrow> w | Inr (v, a) \<Rightarrow> w\<lparr>aw_accounts := a\<rparr>)"
  by (simp add: with_accounts_def split: sum.splits prod.splits)

lemma admin_handle_accounts: "\<exists>a. snd (admin_handle lib config env auth req w) = w\<lparr>aw_accounts := a\<rparr>"
proof -
  have same: "\<exists>a. w = w\<lparr>aw_accounts := a\<rparr>" by (intro exI [of _ "aw_accounts w"]) simp
  have one: "\<exists>a. snd (with_accounts w r k) = w\<lparr>aw_accounts := a\<rparr>" for r :: "DbError + ('v \<times> account_db)" and k
    using same by (auto simp: with_accounts_world split: sum.splits)
  show ?thesis
    by (cases req) (auto simp: sign_out_def list_keys_def create_key_def rotate_key_def revoke_key_def list_webhooks_def create_webhook_def
        delete_webhook_def Let_def same one split: sum.splits option.splits)
qed

text \<open>A relation between worlds that every effect of a handler respects.\<close>

locale handler_frame =
  fixes R :: "'a app_world_scheme \<Rightarrow> 'a app_world_scheme \<Rightarrow> bool"
  assumes same: "R w w"
    and after: "R w v \<Longrightarrow> R v u \<Longrightarrow> R w u"
    and accounts: "R w (w\<lparr>aw_accounts := a\<rparr>)"
    and oauth: "pw_redis w = Some r \<Longrightarrow> R w (w\<lparr>pw_redis := Some (r\<lparr>rd_oauth := m\<rparr>)\<rparr>)"
    and pool: "R w (w\<lparr>sv_metrics := record_pool active idle (sv_metrics w)\<rparr>)"
begin

lemma oauth_accounts: "pw_redis w = Some r \<Longrightarrow> R w (w\<lparr>pw_redis := Some (r\<lparr>rd_oauth := m\<rparr>), aw_accounts := a\<rparr>)"
  using after [OF oauth accounts] by blast

lemma start: "R w (snd (github_start lib config env w))"
  by (auto simp: github_start_def Let_def res_simps intro!: oauth same split: sum.splits)

lemma callback: "R w (snd (github_callback lib config env q rq w))" "v \<in> set (callback_cuts lib config env q rq w) \<Longrightarrow> R w v"
proof -
  have "R w (snd (github_callback lib config env q rq w)) \<and> (v \<in> set (callback_cuts lib config env q rq w) \<longrightarrow> R w v)" for v
  proof (cases "callback_checks config q rq (pw_redis w)")
    case (Inl e)
    then show ?thesis by (simp add: github_callback_def callback_cuts_def same)
  next
    case (Inr t)
    obtain code state_token client_id client_secret redirect_url redis where t: "t = (code, state_token, client_id, client_secret, redirect_url, redis)"
      by (cases t) auto
    have redis: "pw_redis w = Some redis" using Inr t by (auto simp: callback_checks_def res_simps split: option.splits if_splits)
    have run: "R w (snd (github_callback lib config env q rq w))"
      using Inr t redis by (auto simp: github_callback_def Let_def same oauth oauth_accounts split: sum.splits)
    then show ?thesis
      using Inr t redis by (auto simp: callback_cuts_def Let_def same oauth oauth_accounts split: sum.splits if_splits)
  qed
  then show "R w (snd (github_callback lib config env q rq w))" "v \<in> set (callback_cuts lib config env q rq w) \<Longrightarrow> R w v" by blast+
qed

lemma handled: "R w (snd (handle lib config env ep rq w))"
proof (cases ep)
  case MetricsText
  then show ?thesis using pool by (simp add: metrics_handler_def Let_def)
next
  case OauthStart
  then show ?thesis using start [of w "li_dash lib" config "ap_oauth env"] by (auto split: prod.splits)
next
  case (OauthCallback q)
  then show ?thesis using callback(1) [of w "li_dash lib" config "ap_oauth env" q rq] by (auto split: prod.splits)
next
  case (AdminCall req)
  show ?thesis
  proof (cases "rq_session rq")
    case (Some auth)
    obtain a where "snd (admin_handle (li_dash lib) config (ap_admin env) auth req w) = w\<lparr>aw_accounts := a\<rparr>"
      using admin_handle_accounts by blast
    then show ?thesis using AdminCall Some accounts by (auto simp: admin_service_def split: prod.splits)
  qed (simp add: AdminCall admin_service_def same)
qed (simp_all add: same split: prod.splits option.splits)

lemma handler_cut: "v \<in> set (handler_cuts lib config env ep rq w) \<Longrightarrow> R w v"
  using callback(2) handled [of w lib config env ep rq] by (auto simp: handler_cuts_def same simp del: handle.simps split: endpoint.splits)

end

text \<open>It also respects what the limiter and the session layer do.\<close>

locale inner_frame = handler_frame +
  assumes seen: "R w (w\<lparr>pw_seen := s\<rparr>)"
    and count: "R w (count_outcome surface key outcome w)"
    and bucket: "pw_redis w = Some r \<Longrightarrow> R w (w\<lparr>pw_redis := Some (snd (check lenv pfx surface params r))\<rparr>)"
begin

lemma checked:
  assumes "pw_redis w = Some r" "check lenv pfx surface params r = (res, r')"
  shows "R w (w\<lparr>pw_redis := Some r'\<rparr>)" "R w (count_outcome surface key outcome (w\<lparr>pw_redis := Some r'\<rparr>))"
  using bucket [OF assms(1), of lenv pfx surface params] after [OF _ count] assms(2) by simp_all

lemma limited:
  assumes "\<And>rq w. R w (snd (next_run rq w))"
  shows "R w (snd (rate_limit_for config env surface next_run rq w))"
proof (cases "pw_redis w" "rq_key rq" rule: option.exhaust [case_product option.exhaust])
  case (None_Some key)
  then show ?thesis using after [OF count assms] by (simp add: rate_limit_for_def rate_limiter_def)
next
  case (Some_Some r key)
  obtain res r' where ck: "check env (au_prefix key) surface (from_config config (au_tier key) surface) r = (res, r')" by fastforce
  note step = checked(2) [OF Some_Some(1) ck, where key = key]
  show ?thesis using Some_Some ck step after [OF step assms]
    by (cases res) (simp_all add: rate_limit_for_def rate_limiter_def Let_def case_prod_unfold)
qed (simp_all add: rate_limit_for_def same)

lemma limiter_cut:
  assumes "\<And>rq w v. v \<in> set (next_cuts rq w) \<Longrightarrow> R w v" "(b, v) \<in> set (limiter_cuts config env surface next_cuts rq w)"
  shows "R w v"
proof (cases "rate_limiter config w")
  case None
  then show ?thesis using assms
    by (auto simp: limiter_cuts_def rate_limiter_def same split: option.splits intro: after [OF count])
next
  case (Some lim)
  obtain r where r: "pw_redis w = Some r" "lim = (api_rate_limit_fail_open config, r)" using Some by (auto simp: rate_limiter_def)
  show ?thesis
  proof (cases "rq_key rq")
    case None
    then show ?thesis using assms(2) by (simp add: limiter_cuts_def same)
  next
    case (Some key)
    obtain res r' where ck: "check env (au_prefix key) surface (from_config config (au_tier key) surface) r = (res, r')" by fastforce
    show ?thesis using assms \<open>rate_limiter config w = Some lim\<close> r(2) Some ck checked [OF r(1) ck]
      by (cases res) (auto simp: limiter_cuts_def Let_def same split: if_splits intro: after [OF checked(2) [OF r(1) ck]])
  qed
qed

lemma in_session:
  assumes "\<And>rq w. R w (snd (next_run rq w))"
  shows "R w (snd (session_middleware dlib senv next_run rq w))"
  using after [OF seen assms] by (simp add: session_middleware_def Let_def same split: option.splits sum.splits)

lemma session_cut:
  assumes "\<And>rq w v. v \<in> set (next_cuts rq w) \<Longrightarrow> R w v" "(b, v) \<in> set (session_cuts dlib senv next_cuts rq w)"
  shows "R w v"
  using assms by (auto simp: session_cuts_def Let_def same split: option.splits sum.splits intro: after [OF seen])

end

text \<open>And what resolving a bearer string does.\<close>

locale layer_frame = inner_frame +
  assumes auth: "auth_resolve klib aenv bearer w = (r, w') \<Longrightarrow> R w w' \<and> R w (w\<lparr>aw_cache := aw_cache w'\<rparr>)"
begin

lemma authenticated:
  assumes "\<And>rq w. R w (snd (next_run rq w))"
  shows "R w (snd (auth_middleware klib aenv next_run rq w))"
proof (cases "extract_bearer rq")
  case (Inr bearer)
  obtain r w' where res: "auth_resolve klib aenv bearer w = (r, w')" by fastforce
  then show ?thesis using Inr auth [OF res] after [OF _ assms] by (cases r) (auto simp: auth_middleware_def Let_def case_prod_unfold)
qed (simp add: auth_middleware_def same)

lemma auth_cut:
  assumes "\<And>rq w b v. (b, v) \<in> set (next_cuts rq w) \<Longrightarrow> R w v" "(b, v) \<in> set (auth_cuts klib aenv next_cuts rq w)"
  shows "R w v"
proof (cases "extract_bearer rq")
  case (Inr bearer)
  obtain r w' where res: "auth_resolve klib aenv bearer w = (r, w')" by fastforce
  show ?thesis using assms Inr res auth [OF res] by (cases r) (auto simp: auth_cuts_def same intro: after)
qed (use assms in \<open>simp add: auth_cuts_def same\<close>)

lemma routed: "R w (snd (routed lib config env ep rq w))"
  by (cases "router_of ep") (simp_all add: routed_def handled authenticated limited in_session)

lemma routed_cut: "(b, v) \<in> set (routed_cuts lib config env ep rq w) \<Longrightarrow> R w v"
  by (cases "router_of ep")
    (auto simp: routed_cuts_def Let_def handler_cut dest!: auth_cut [rotated] session_cut [rotated] limiter_cut [rotated])

end

end
