(* ===== verification/AppProps.thy ===== *)
theory AppProps
  imports Interrupt
begin

text \<open>
  The application as a whole: which requests reach a handler, and what every request leaves behind
  in the metrics and in the log queue.  Facts that hold for one call are lifted to sequences of
  calls by the locale \<open>counted\<close>.
\<close>

section \<open>What handlers leave alone\<close>

text \<open>The second world has the request counters, the log queue, the tip and the index of the first.\<close>

definition undisturbed :: "'a app_world_scheme \<Rightarrow> 'a app_world_scheme \<Rightarrow> bool" where
  "undisturbed w w' \<longleftrightarrow> requests_total (sv_metrics w') = requests_total (sv_metrics w) \<and>
     request_duration_seconds (sv_metrics w') = request_duration_seconds (sv_metrics w) \<and>
     sv_log_tasks w' = sv_log_tasks w \<and> sv_request_logs w' = sv_request_logs w \<and> sv_tip w' = sv_tip w \<and> pp_index w' = pp_index w \<and>
     logs_of w' = logs_of w \<and> (pw_redis w' = None) = (pw_redis w = None)"

lemma quiet_refl [simp]: "undisturbed w w" by (simp add: undisturbed_def)

lemma quiet_trans: "undisturbed w w' \<Longrightarrow> undisturbed w' w'' \<Longrightarrow> undisturbed w w''" by (simp add: undisturbed_def)

lemma quiet_accounts [simp]: "undisturbed w (w\<lparr>aw_accounts := a\<rparr>)" "undisturbed w (w\<lparr>pw_seen := s\<rparr>)"
  "undisturbed w (w\<lparr>aw_cache := c, aw_pending := p\<rparr>)" "undisturbed w (count_outcome surface key outcome w)"
  by (simp_all add: undisturbed_def logs_of_def count_outcome_def observe_rate_limit_def Let_def)

lemma quiet_redis:
  "pw_redis w = Some r \<Longrightarrow> rd_request_logs r' = rd_request_logs r \<Longrightarrow> undisturbed w (w\<lparr>pw_redis := Some r'\<rparr>)"
  by (simp add: undisturbed_def logs_of_def)

lemma check_logs: "rd_request_logs (snd (check env pfx surface params r)) = rd_request_logs r"
  by (simp add: check_def TOKEN_BUCKET_LUA_def store_bucket_def Let_def split: redis_fault.splits)

interpretation quiet: layer_frame "undisturbed :: 'a app_world_scheme \<Rightarrow> 'a app_world_scheme \<Rightarrow> bool"
proof
  fix w :: "'a app_world_scheme" and r lenv pfx surface params
  assume "pw_redis w = Some r"
  then show "undisturbed w (w\<lparr>pw_redis := Some (snd (check lenv pfx surface params r))\<rparr>)" by (rule quiet_redis) (rule check_logs)
next
  fix w w' :: "'a app_world_scheme" and klib aenv bearer r
  assume "auth_resolve klib aenv bearer w = (r, w')"
  then show "undisturbed w w' \<and> undisturbed w (w\<lparr>aw_cache := aw_cache w'\<rparr>)"
    by (rule auth_resolve_cases) (simp_all add: undisturbed_def logs_of_def)
qed (auto simp: undisturbed_def logs_of_def count_outcome_def observe_rate_limit_def record_pool_def Let_def)

lemma handle_no_key: "rs_key (fst (handle lib config env ep rq w)) = None"
  by (cases ep)
    (simp_all add: plain_response_def openapi_handler_def graphql_handler_def rest_not_found_def error_response_def result_response_def
      map_response_def metrics_handler_def reply_response_def admin_service_def into_response_def Let_def
      split: prod.splits option.splits sum.splits)

section \<open>The rate-limit layer\<close>

text \<open>The tokens that the bucket of a key holds for a call.\<close>

definition tokens_for :: "Config \<Rightarrow> limiter_env \<Rightarrow> Surface \<Rightarrow> AuthenticatedKey \<Rightarrow> redis_db \<Rightarrow> rat" where
  "tokens_for config env surface key r = (let params = from_config config (au_tier key) surface
     in refilled (of_int (burst params)) (refill_per_sec params) (now_ms_of env)
          (live_bucket (le_redis_now env) r (bucket_key surface (au_prefix key))))"

lemma check_result:
  "fst (check env (au_prefix key) surface (from_config config (au_tier key) surface) r) =
     (if le_fault env = Delivered
      then Inr (decision_of (from_config config (au_tier key) surface)
             (fst (TOKEN_BUCKET_LUA (le_redis_now env) (bucket_key surface (au_prefix key))
                (of_int (burst (from_config config (au_tier key) surface))) (refill_per_sec (from_config config (au_tier key) surface))
                (now_ms_of env) 1 r)))
      else Inl RedisUnreachable)"
  by (simp add: check_def Let_def split: redis_fault.splits prod.splits)

lemma check_allowed:
  assumes "fst (check env (au_prefix key) surface (from_config config (au_tier key) surface) r) = Inr d"
  shows "le_fault env = Delivered" "dc_allowed d \<longleftrightarrow> 1 \<le> tokens_for config env surface key r"
  using assms by (auto simp: check_result TOKEN_BUCKET_LUA_def decision_of_def nth_or_def tokens_for_def Let_def split: if_splits)

lemma check_failed:
  "fst (check env (au_prefix key) surface (from_config config (au_tier key) surface) r) = Inl e \<Longrightarrow> le_fault env \<noteq> Delivered"
  by (auto simp: check_result split: if_splits)

lemma rate_limit_cases:
  assumes "rate_limit_for config env surface next_run rq w = (rs, w')" "rq_key rq = Some key"
  obtains (absent) "pw_redis w = None" "(rs, w') = next_run rq (count_outcome surface key FailOpen w)"
  | (fail_open) r r' where "pw_redis w = Some r" "le_fault env \<noteq> Delivered" "api_rate_limit_fail_open config"
      "rd_request_logs r' = rd_request_logs r" "(rs, w') = next_run rq (count_outcome surface key FailOpen (w\<lparr>pw_redis := Some r'\<rparr>))"
  | (fail_closed) r r' where "pw_redis w = Some r" "le_fault env \<noteq> Delivered" "\<not> api_rate_limit_fail_open config"
      "rd_request_logs r' = rd_request_logs r" "rs = error_response (UpstreamUnavailable ''rate limiter unreachable'')"
      "w' = count_outcome surface key FailClosed (w\<lparr>pw_redis := Some r'\<rparr>)"
  | (limited) r r' d where "pw_redis w = Some r" "le_fault env = Delivered" "tokens_for config env surface key r < 1"
      "rd_request_logs r' = rd_request_logs r"
      "rs = attach_rate_limit_headers d (header_insert RETRY_AFTER_HEADER (int_dec (dc_retry_after_seconds d))
         (error_response (RateLimited (dc_retry_after_seconds d))))"
      "w' = count_outcome surface key Limited (w\<lparr>pw_redis := Some r'\<rparr>)"
  | (allowed) r r' d where "pw_redis w = Some r" "le_fault env = Delivered" "1 \<le> tokens_for config env surface key r"
      "rd_request_logs r' = rd_request_logs r"
      "rs = attach_rate_limit_headers d (fst (next_run rq (count_outcome surface key Allowed (w\<lparr>pw_redis := Some r'\<rparr>))))"
      "w' = snd (next_run rq (count_outcome surface key Allowed (w\<lparr>pw_redis := Some r'\<rparr>)))"
proof (cases "pw_redis w")
  case None
  then show thesis using assms by (intro absent) (simp_all add: rate_limit_for_def rate_limiter_def)
next
  case (Some r)
  obtain res r' where ck: "check env (au_prefix key) surface (from_config config (au_tier key) surface) r = (res, r')" by fastforce
  have logs: "rd_request_logs r' = rd_request_logs r" using check_logs ck by (metis snd_conv)
  show thesis
  proof (cases res)
    case (Inl e)
    have "le_fault env \<noteq> Delivered" using check_failed ck Inl by (metis fst_conv)
    then show thesis using assms Some ck Inl logs fail_open fail_closed
      by (cases "api_rate_limit_fail_open config") (simp_all add: rate_limit_for_def rate_limiter_def Let_def)
  next
    case (Inr d)
    have facts: "le_fault env = Delivered" "dc_allowed d \<longleftrightarrow> 1 \<le> tokens_for config env surface key r"
      using check_allowed ck Inr by (metis fst_conv)+
    show thesis
    proof (cases "dc_allowed d")
      case True
      then show thesis using assms Some ck Inr logs facts
        by (intro allowed [of r r' d]) (auto simp: rate_limit_for_def rate_limiter_def Let_def split: prod.splits)
    next
      case False
      then show thesis using assms Some ck Inr logs facts
        by (intro limited [of r r' d]) (auto simp: rate_limit_for_def rate_limiter_def Let_def)
    qed
  qed
qed

lemma attach_status [simp]: "rs_status (attach_rate_limit_headers d rs) = rs_status rs"
  "rs_key (attach_rate_limit_headers d rs) = rs_key rs" "rs_body (attach_rate_limit_headers d rs) = rs_body rs"
  by (simp_all add: attach_rate_limit_headers_def header_insert_def)

lemma header_insert_status [simp]: "rs_status (header_insert n v rs) = rs_status rs"
  "rs_key (header_insert n v rs) = rs_key rs" "rs_body (header_insert n v rs) = rs_body rs"
  by (simp_all add: header_insert_def)

lemma error_response_simps [simp]: "rs_status (error_response e) = ApiError_status e" "rs_key (error_response e) = None"
  by (simp_all add: error_response_def into_response_def)

text \<open>C36: the rate-limit layer takes exactly one decision per request, counts it under the surface and tier
  of the key, and lets the request through exactly when the bucket still holds a token, when the
  limiter cannot be asked and is configured to fail open, or when there is no limiter at all (Redis
  was unreachable at startup), whatever the configuration says.  A refusal is a 429 that carries the
  waiting time, or a 503, and the inner service does not run.\<close>

theorem rate_limit_layer_outcomes:
  assumes "rate_limit_for config env surface next_run rq w = (rs, w')" "rq_key rq = Some key"
  shows "\<exists>outcome redis d. let w1 = count_outcome surface key outcome (w\<lparr>pw_redis := redis\<rparr>) in
    (outcome = FailOpen \<longleftrightarrow> pw_redis w = None \<or> (le_fault env \<noteq> Delivered \<and> api_rate_limit_fail_open config)) \<and>
    (outcome = FailClosed \<longleftrightarrow> pw_redis w \<noteq> None \<and> le_fault env \<noteq> Delivered \<and> \<not> api_rate_limit_fail_open config) \<and>
    (outcome = Allowed \<longleftrightarrow> le_fault env = Delivered \<and> (\<exists>r. pw_redis w = Some r \<and> 1 \<le> tokens_for config env surface key r)) \<and>
    (case outcome of
       FailOpen \<Rightarrow> (rs, w') = next_run rq w1
     | Allowed \<Rightarrow> rs = attach_rate_limit_headers d (fst (next_run rq w1)) \<and> w' = snd (next_run rq w1)
     | Limited \<Rightarrow> rs_status rs = 429 \<and> (RETRY_AFTER_HEADER, int_dec (dc_retry_after_seconds d)) \<in> set (rs_headers rs) \<and> w' = w1
     | FailClosed \<Rightarrow> rs_status rs = 503 \<and> w' = w1)"
  using assms
proof (cases rule: rate_limit_cases)
  case absent
  then have same: "w\<lparr>pw_redis := None\<rparr> = w" by simp
  show ?thesis using absent(1) by (intro exI [of _ FailOpen] exI [of _ None]) (simp add: same absent(2) Let_def)
next
  case (fail_open r r')
  then show ?thesis by (intro exI [of _ FailOpen] exI [of _ "Some r'"]) (simp add: Let_def)
next
  case (fail_closed r r')
  then show ?thesis by (intro exI [of _ FailClosed] exI [of _ "Some r'"]) (simp add: Let_def)
next
  case (limited r r' d)
  have "(RETRY_AFTER_HEADER, v) \<in> set (rs_headers (attach_rate_limit_headers d (header_insert RETRY_AFTER_HEADER v x)))"
    for v and x :: "'a http_response"
    by (simp add: attach_rate_limit_headers_def header_insert_def RETRY_AFTER_HEADER_def RATELIMIT_RESET_HEADER_def
        RATELIMIT_REMAINING_HEADER_def RATELIMIT_LIMIT_HEADER_def)
  then show ?thesis using limited by (intro exI [of _ Limited] exI [of _ "Some r'"] exI [of _ d]) (simp add: Let_def)
next
  case (allowed r r' d)
  then show ?thesis by (intro exI [of _ Allowed] exI [of _ "Some r'"] exI [of _ d]) (simp add: Let_def)
qed

section \<open>One request\<close>

lemma auth_resolve_undisturbed: "auth_resolve klib aenv bearer w = (r, w') \<Longrightarrow> undisturbed w w'"
  by (erule auth_resolve_cases) (simp_all add: undisturbed_def logs_of_def)

lemma auth_resolve_redis: "auth_resolve klib aenv bearer w = (r, w') \<Longrightarrow> pw_redis w' = pw_redis w"
  by (erule auth_resolve_cases) simp_all

text \<open>What the metrics layer adds to a service that leaves the counters alone.\<close>

definition label_path :: "app_call \<Rightarrow> string" where
  "label_path c = unwrap_or (matched_path (cl_endpoint c)) (rq_path (cl_request c))"

definition request_labels :: "app_lib \<Rightarrow> Config \<Rightarrow> app_call \<Rightarrow> 'a app_world_scheme \<Rightarrow> string list" where
  "request_labels lib config c w =
     [http_request.rq_method (cl_request c), label_path c, nat_dec (rs_status (fst (build_app lib config c w)))]"

definition request_log :: "app_lib \<Rightarrow> app_call \<Rightarrow> app_body http_response \<Rightarrow> string list" where
  "request_log lib c rs = (case rs_key rs of
     None \<Rightarrow> []
   | Some key \<Rightarrow> [unwrap_or (lc_to_string (li_logs lib)
       \<lparr>lp_api_key_id = au_id key, lp_method = http_request.rq_method (cl_request c), lp_path = label_path c,
        lp_status_code = int (rs_status rs), lp_latency_ms = latency_ms_of (ap_elapsed (cl_env c))\<rparr>) []])"

lemma tip_headers_undisturbed:
  "undisturbed w (snd (next_run rq w)) \<Longrightarrow> undisturbed w (snd (tip_headers now next_run rq w))"
  by (simp add: tip_headers_def Let_def case_prod_unfold)

lemma request_id_result:
  "snd (request_id_layer fresh next_run rq w) =
     snd (next_run (if header_get REQUEST_ID_HEADER rq = None then rq\<lparr>rq_headers := rq_headers rq @ [(REQUEST_ID_HEADER, fresh)]\<rparr> else rq) w)"
  "rs_status (fst (request_id_layer fresh next_run rq w)) =
     rs_status (fst (next_run (if header_get REQUEST_ID_HEADER rq = None then rq\<lparr>rq_headers := rq_headers rq @ [(REQUEST_ID_HEADER, fresh)]\<rparr> else rq) w))"
  "rs_key (fst (request_id_layer fresh next_run rq w)) =
     rs_key (fst (next_run (if header_get REQUEST_ID_HEADER rq = None then rq\<lparr>rq_headers := rq_headers rq @ [(REQUEST_ID_HEADER, fresh)]\<rparr> else rq) w))"
  by (auto simp: request_id_layer_def Let_def split: prod.splits)

lemma inner_request_simps [simp]:
  "http_request.rq_method (inner_request c) = http_request.rq_method (cl_request c)" "rq_path (inner_request c) = rq_path (cl_request c)"
  "header_get ''authorization'' (inner_request c) = header_get ''authorization'' (cl_request c)"
  "header_get ''cookie'' (inner_request c) = header_get ''cookie'' (cl_request c)"
  by (simp_all add: inner_request_def header_get_def map_add_def REQUEST_ID_HEADER_def Let_def split: option.splits)

lemma tip_world [simp]: "snd (tip_headers now next_run rq w) = snd (next_run rq w)"
  by (simp add: tip_headers_def Let_def split: prod.splits)

lemma metrics_world:
  "\<exists>m tasks. snd (record_request_metrics env next_run rq w) = (snd (next_run rq w))\<lparr>sv_metrics := m, sv_log_tasks := tasks\<rparr>"
proof -
  obtain rs u where "next_run rq w = (rs, u)" by fastforce
  moreover have only: "\<exists>m' tasks. u\<lparr>sv_metrics := m\<rparr> = u\<lparr>sv_metrics := m', sv_log_tasks := tasks\<rparr>" for m
    by (intro exI [of _ m] exI [of _ "sv_log_tasks u"]) simp
  ultimately show ?thesis by (auto simp: record_request_metrics_def Let_def only split: option.split)
qed

text \<open>Around the routers, a request changes metrics and log tasks only.\<close>

lemma build_app_world:
  "\<exists>m tasks. snd (build_app lib config c w) =
     (snd (routed lib config (cl_env c) (cl_endpoint c) (inner_request c) w))\<lparr>sv_metrics := m, sv_log_tasks := tasks\<rparr>"
  using metrics_world [of _ "tip_headers (ap_now (cl_env c)) (routed lib config (cl_env c) (cl_endpoint c))" "inner_request c" w]
  by (simp add: build_app_def Let_def request_id_result inner_request_def split: if_splits)

lemma build_app_inner:
  assumes "routed lib config (cl_env c) (cl_endpoint c) (inner_request c) w = (rs, v)"
  shows "rs_status (fst (build_app lib config c w)) = rs_status rs" "rs_key (fst (build_app lib config c w)) = rs_key rs"
    and "requests_total (sv_metrics (snd (build_app lib config c w))) = inc (request_labels lib config c w) (requests_total (sv_metrics v))"
    and "sv_log_tasks (snd (build_app lib config c w)) =
      sv_log_tasks v @ (if pw_redis v = None then [] else map PushThenTrim (request_log lib c (fst (build_app lib config c w))))"
    and "logs_of (snd (build_app lib config c w)) = logs_of v"
proof -
  have tip: "rs_status (annotate_tip n t rs) = rs_status rs" "rs_key (annotate_tip n t rs) = rs_key rs" for n t and rs :: "'z http_response"
    by (simp_all add: annotate_tip_def Let_def split: option.splits)
  let ?rs = "fst (build_app lib config c w)"
  note run = build_app_def request_id_result record_request_metrics_def tip_headers_def inner_request_def [symmetric] Let_def
  show st: "rs_status ?rs = rs_status rs" "rs_key ?rs = rs_key rs"
    using assms by (auto simp: run tip inner_request_def split: option.splits)
  show "requests_total (sv_metrics (snd (build_app lib config c w))) = inc (request_labels lib config c w) (requests_total (sv_metrics v))"
    using assms by (auto simp: run tip inner_request_def request_labels_def label_path_def observe_request_def st split: option.splits)
  show "sv_log_tasks (snd (build_app lib config c w)) =
      sv_log_tasks v @ (if pw_redis v = None then [] else map PushThenTrim (request_log lib c ?rs))"
    using assms by (auto simp: run tip inner_request_def request_log_def log_payload_def label_path_def st split: option.splits)
  show "logs_of (snd (build_app lib config c w)) = logs_of v"
    using assms by (auto simp: run tip inner_request_def logs_of_def split: option.splits)
qed

section \<open>Who reaches the data\<close>

fun surface_of :: "router \<Rightarrow> Surface" where
  "surface_of GraphqlRouter = Graphql"
| "surface_of _ = Rest"

lemma auth_passed:
  assumes "auth_middleware klib aenv next_run rq w = (rs, w')" "rs_status rs \<notin> {401, 500}"
    and "auth_run klib (ae_ttl aenv) hs w"
  obtains bearer key t a v where "header_get ''authorization'' rq = Some (''Bearer '' @ bearer)"
    "(t, a) \<in> set ((ae_now aenv, aw_accounts w) # hs)" "t = ae_now aenv \<or> ae_now aenv - t < ae_ttl aenv"
    "authorises klib a bearer key" "rs = (fst (next_run (rq\<lparr>rq_key := Some key\<rparr>) v))\<lparr>rs_key := Some key\<rparr>"
    "w' = snd (next_run (rq\<lparr>rq_key := Some key\<rparr>) v)" "pw_redis v = pw_redis w"
proof (cases "extract_bearer rq")
  case (Inl e)
  then have "ApiError_status e = 401"
    by (auto simp: extract_bearer_def and_then_def ok_or_def split: sum.splits option.splits if_splits)
  then show thesis using assms(1,2) Inl by (auto simp: auth_middleware_def)
next
  case (Inr bearer)
  then have header: "header_get ''authorization'' rq = Some (''Bearer '' @ bearer)"
    by (auto simp: extract_bearer_def res_simps strip_prefix_Some to_str_def split: if_splits)
  obtain r v where res: "auth_resolve klib aenv bearer w = (r, v)" by fastforce
  show thesis
  proof (cases r)
    case (Inl e)
    have "ApiError_status e \<in> {401, 500}" using res Inl by (auto elim: auth_resolve_cases)
    then show thesis using assms(1,2) Inl Inr res by (auto simp: auth_middleware_def)
  next
    case (Inr key)
    obtain t a where just: "(t, a) \<in> set ((ae_now aenv, aw_accounts w) # hs)" "t = ae_now aenv \<or> ae_now aenv - t < ae_ttl aenv"
      "authorises klib a bearer key" using resolve_justified [OF assms(3) res [unfolded Inr]] by blast
    have "rs = (fst (next_run (rq\<lparr>rq_key := Some key\<rparr>) v))\<lparr>rs_key := Some key\<rparr>" "w' = snd (next_run (rq\<lparr>rq_key := Some key\<rparr>) v)"
      using assms(1) res Inr \<open>extract_bearer rq = Inr bearer\<close> by (auto simp: auth_middleware_def Let_def case_prod_unfold)
    from that [OF header just this auth_resolve_redis [OF res]] show thesis .
  qed
qed

text \<open>A data request, over REST, GraphQL or to an unknown route, is answered with anything other than
  401 or 500 only when it carries a bearer string that the tables authorise now or did less than one
  cache lifetime ago; and with anything other than 429 or 503 only when the limiter admitted it: its
  bucket held a token, or the limiter could not be asked and failing open was configured, or no
  limiter is attached.\<close>

theorem data_requires_key_and_token:
  assumes "auth_run (dl_keys (li_dash lib)) (ae_ttl (ap_auth (cl_env c))) hs w" "build_app lib config c w = (rs, w')"
    and "router_of (cl_endpoint c) \<in> {RestRouter, GraphqlRouter}" "rs_status rs \<notin> {401, 500}"
  shows "\<exists>bearer key t a. header_get ''authorization'' (cl_request c) = Some (''Bearer '' @ bearer) \<and>
    (t, a) \<in> set ((ae_now (ap_auth (cl_env c)), aw_accounts w) # hs) \<and>
    (t = ae_now (ap_auth (cl_env c)) \<or> ae_now (ap_auth (cl_env c)) - t < ae_ttl (ap_auth (cl_env c))) \<and>
    authorises (dl_keys (li_dash lib)) a bearer key \<and> rs_key rs = Some key \<and>
    (rs_status rs \<in> {429, 503} \<or> pw_redis w = None \<or>
     (le_fault (ap_limiter (cl_env c)) \<noteq> Delivered \<and> api_rate_limit_fail_open config) \<or>
     (\<exists>r. pw_redis w = Some r \<and> 1 \<le> tokens_for config (ap_limiter (cl_env c)) (surface_of (router_of (cl_endpoint c))) key r))"
proof -
  let ?env = "cl_env c" and ?ep = "cl_endpoint c" and ?s = "surface_of (router_of (cl_endpoint c))"
  let ?next = "rate_limit_for config (ap_limiter ?env) ?s (handle lib config ?env ?ep)"
  obtain rs0 v0 where inner: "routed lib config ?env ?ep (inner_request c) w = (rs0, v0)" by fastforce
  have st: "rs_status rs = rs_status rs0" "rs_key rs = rs_key rs0" using build_app_inner(1,2) [OF inner] assms(2) by simp_all
  have auth: "auth_middleware (dl_keys (li_dash lib)) (ap_auth ?env) ?next (inner_request c) w = (rs0, v0)"
    using inner assms(3) by (auto simp: routed_def)
  from assms(4) have "rs_status rs0 \<notin> {401, 500}" using st by simp
  then obtain bearer key t a v where ok:
    "header_get ''authorization'' (cl_request c) = Some (''Bearer '' @ bearer)"
    "(t, a) \<in> set ((ae_now (ap_auth ?env), aw_accounts w) # hs)" "t = ae_now (ap_auth ?env) \<or> ae_now (ap_auth ?env) - t < ae_ttl (ap_auth ?env)"
    "authorises (dl_keys (li_dash lib)) a bearer key" "rs0 = (fst (?next ((inner_request c)\<lparr>rq_key := Some key\<rparr>) v))\<lparr>rs_key := Some key\<rparr>"
    "v0 = snd (?next ((inner_request c)\<lparr>rq_key := Some key\<rparr>) v)" "pw_redis v = pw_redis w"
    by (rule auth_passed [OF auth _ assms(1), unfolded inner_request_simps]) (rule that)
  obtain rs1 v1 where lim: "?next ((inner_request c)\<lparr>rq_key := Some key\<rparr>) v = (rs1, v1)" by fastforce
  have "rs_status rs1 \<in> {429, 503} \<or> pw_redis w = None \<or> (le_fault (ap_limiter ?env) \<noteq> Delivered \<and> api_rate_limit_fail_open config) \<or>
     (\<exists>r. pw_redis w = Some r \<and> 1 \<le> tokens_for config (ap_limiter ?env) ?s key r)"
    by (rule rate_limit_cases [OF lim]) (use ok(7) in auto)
  moreover have "rs_status rs = rs_status rs1" "rs_key rs = Some key" using st ok(5) lim by simp_all
  ultimately show ?thesis using ok(1-4) by auto
qed

lemma request_id_body:
  "rs_body (fst (request_id_layer fresh next_run rq w)) =
     rs_body (fst (next_run (if header_get REQUEST_ID_HEADER rq = None then rq\<lparr>rq_headers := rq_headers rq @ [(REQUEST_ID_HEADER, fresh)]\<rparr> else rq) w))"
  by (simp add: request_id_layer_def Let_def case_prod_unfold)

lemma tip_headers_body: "rs_body (fst (tip_headers now next_run rq w)) = rs_body (fst (next_run rq w))"
  by (simp add: tip_headers_def annotate_tip_def Let_def case_prod_unfold split: option.split)

lemma record_metrics_body: "rs_body (fst (record_request_metrics env next_run rq w)) = rs_body (fst (next_run rq w))"
  by (simp add: record_request_metrics_def Let_def case_prod_unfold split: option.split)

lemma build_app_body:
  assumes "routed lib config (cl_env c) (cl_endpoint c) (inner_request c) w = (rs, v)"
  shows "rs_body (fst (build_app lib config c w)) = rs_body rs"
  using arg_cong [OF assms, of fst]
  by (simp add: build_app_def Let_def request_id_body record_metrics_body tip_headers_body inner_request_def split: if_splits)

text \<open>An answer to a data request that no layer refused is the handler's answer, on the index and the tip
  as they are.\<close>

lemma data_answer:
  assumes "router_of (cl_endpoint c) \<in> {RestRouter, GraphqlRouter}"
    and "rs_status (fst (build_app lib config c w)) \<notin> {401, 429, 500, 503}"
  obtains rq v where "undisturbed w v"
    "rs_status (fst (build_app lib config c w)) = rs_status (fst (handle lib config (cl_env c) (cl_endpoint c) rq v))"
    "rs_body (fst (build_app lib config c w)) = rs_body (fst (handle lib config (cl_env c) (cl_endpoint c) rq v))"
proof -
  let ?s = "surface_of (router_of (cl_endpoint c))" and ?h = "handle lib config (cl_env c) (cl_endpoint c)"
  let ?next = "rate_limit_for config (ap_limiter (cl_env c)) ?s ?h"
  obtain rs0 v0 where inner: "routed lib config (cl_env c) (cl_endpoint c) (inner_request c) w = (rs0, v0)" by fastforce
  have st: "rs_status (fst (build_app lib config c w)) = rs_status rs0" "rs_body (fst (build_app lib config c w)) = rs_body rs0"
    using build_app_inner(1) [OF inner] build_app_body [OF inner] by simp_all
  have auth: "auth_middleware (dl_keys (li_dash lib)) (ap_auth (cl_env c)) ?next (inner_request c) w = (rs0, v0)"
    using inner assms(1) by (auto simp: routed_def)
  have bad: "rs_status rs0 \<notin> {401, 429, 500, 503}" using assms(2) st by simp
  have "\<exists>bearer. extract_bearer (inner_request c) = Inr bearer"
  proof (cases "extract_bearer (inner_request c)")
    case (Inl e)
    then have "ApiError_status e = 401"
      by (auto simp: extract_bearer_def and_then_def ok_or_def split: sum.splits option.splits if_splits)
    then show ?thesis using auth bad Inl by (auto simp: auth_middleware_def)
  qed simp
  then obtain bearer where bearer: "extract_bearer (inner_request c) = Inr bearer" by blast
  obtain r v where res: "auth_resolve (dl_keys (li_dash lib)) (ap_auth (cl_env c)) bearer w = (r, v)" by fastforce
  have quiet: "undisturbed w v" using res by (rule auth_resolve_undisturbed)
  obtain key where key: "r = Inr key"
  proof (cases r)
    case (Inl e)
    have "ApiError_status e \<in> {401, 500}" using res Inl by (auto elim: auth_resolve_cases)
    then show thesis using auth bad Inl bearer res by (auto simp: auth_middleware_def)
  qed (rule that)
  let ?rq = "(inner_request c)\<lparr>rq_key := Some key\<rparr>"
  obtain rs1 v1 where lim: "?next ?rq v = (rs1, v1)" by fastforce
  have rs: "rs_status rs0 = rs_status rs1" "rs_body rs0 = rs_body rs1"
    using auth bearer res key lim by (auto simp: auth_middleware_def Let_def)
  have red: "undisturbed w (count_outcome ?s key out (v\<lparr>pw_redis := Some r'\<rparr>))"
    if "pw_redis v = Some r" "rd_request_logs r' = rd_request_logs r" for out r r'
    using quiet_trans [OF quiet quiet_trans [OF quiet_redis [OF that] quiet_accounts(4)]] .
  have plain: "undisturbed w (count_outcome ?s key out v)" for out using quiet_trans [OF quiet quiet_accounts(4)] .
  have own: "rq_key ?rq = Some key" by simp
  from lim own have "\<exists>u. undisturbed w u \<and> rs_status rs1 = rs_status (fst (?h ?rq u)) \<and> rs_body rs1 = rs_body (fst (?h ?rq u))"
  proof (cases rule: rate_limit_cases)
    case absent
    then show ?thesis using plain by (metis fst_conv)
  next
    case (fail_open r r')
    then show ?thesis using red [OF fail_open(1,4)] by (metis fst_conv)
  next
    case (allowed r r' d)
    then show ?thesis using red [OF allowed(1,4)] by (metis attach_status(1,3))
  qed (use bad rs in auto)
  then show thesis using that st rs by metis
qed

section \<open>Counting and logging\<close>

lemma routed_key: "rs_key (fst (routed lib config env ep rq w)) \<noteq> None \<Longrightarrow> router_of ep \<in> {RestRouter, GraphqlRouter}"
  by (cases "router_of ep")
    (auto simp: routed_def handle_no_key session_middleware_def Let_def split: option.splits sum.splits)

lemma build_app_effects:
  "requests_total (sv_metrics (snd (build_app lib config c w))) = inc (request_labels lib config c w) (requests_total (sv_metrics w))"
  "sv_log_tasks (snd (build_app lib config c w)) =
     sv_log_tasks w @ (if pw_redis w = None then [] else map PushThenTrim (request_log lib c (fst (build_app lib config c w))))"
  "logs_of (snd (build_app lib config c w)) = logs_of w"
  "rs_key (fst (build_app lib config c w)) = None \<or> router_of (cl_endpoint c) \<in> {RestRouter, GraphqlRouter}"
proof -
  obtain rs v where inner: "routed lib config (cl_env c) (cl_endpoint c) (inner_request c) w = (rs, v)" by fastforce
  have "undisturbed w v" using quiet.routed [of w lib config "cl_env c" "cl_endpoint c" "inner_request c"] inner by simp
  then have frame: "requests_total (sv_metrics v) = requests_total (sv_metrics w)" "sv_log_tasks v = sv_log_tasks w"
    "(pw_redis v = None) = (pw_redis w = None)" "logs_of v = logs_of w" by (simp_all add: undisturbed_def)
  show "requests_total (sv_metrics (snd (build_app lib config c w))) = inc (request_labels lib config c w) (requests_total (sv_metrics w))"
    "sv_log_tasks (snd (build_app lib config c w)) =
       sv_log_tasks w @ (if pw_redis w = None then [] else map PushThenTrim (request_log lib c (fst (build_app lib config c w))))"
    "logs_of (snd (build_app lib config c w)) = logs_of w"
    using build_app_inner(3-5) [OF inner] unfolding frame by blast+
  show "rs_key (fst (build_app lib config c w)) = None \<or> router_of (cl_endpoint c) \<in> {RestRouter, GraphqlRouter}"
    using routed_key [of lib config "cl_env c" "cl_endpoint c" "inner_request c" w] build_app_inner(2) [OF inner] inner by auto
qed

section \<open>Sequences of requests\<close>

text \<open>A process that counts each of its steps under a label.\<close>

locale counted =
  fixes act :: "'c \<Rightarrow> 's \<Rightarrow> 's"
    and label :: "'c \<Rightarrow> 's \<Rightarrow> string list"
    and counters :: "'s \<Rightarrow> string list \<rightharpoonup> nat"
  assumes counts: "counters (act c s) = inc (label c s) (counters s)"
begin

fun labels :: "'c list \<Rightarrow> 's \<Rightarrow> string list list" where
  "labels [] s = []"
| "labels (c # cs) s = label c s # labels cs (act c s)"

lemma series: "dom (counters (fold act cs s)) = dom (counters s) \<union> set (labels cs s)"
  by (induction cs arbitrary: s) (auto simp: counts inc_def)

lemma count_of: "unwrap_or (counters (fold act cs s) l) 0 = unwrap_or (counters s l) 0 + count_list (labels cs s) l"
  by (induction cs arbitrary: s) (auto simp: counts inc_def)

end

interpretation http_counter: counted "\<lambda>c w. snd (build_app lib config c w)" "request_labels lib config"
  "\<lambda>w :: 'a app_world_scheme. requests_total (sv_metrics w)"
  by unfold_locales (rule build_app_effects)

text \<open>Serving requests one after the other, and the labels they are counted under.\<close>

fun serve :: "app_lib \<Rightarrow> Config \<Rightarrow> app_call list \<Rightarrow> 'a app_world_scheme \<Rightarrow> 'a app_world_scheme" where
  "serve lib config [] w = w"
| "serve lib config (c # cs) w = serve lib config cs (snd (build_app lib config c w))"

fun served_labels :: "app_lib \<Rightarrow> Config \<Rightarrow> app_call list \<Rightarrow> 'a app_world_scheme \<Rightarrow> string list list" where
  "served_labels lib config [] w = []"
| "served_labels lib config (c # cs) w =
     request_labels lib config c w # served_labels lib config cs (snd (build_app lib config c w))"

lemma serve_fold: "serve lib config cs w = fold (\<lambda>c w. snd (build_app lib config c w)) cs w"
  by (induction cs arbitrary: w) simp_all

lemma served_labels_eq: "served_labels lib config cs w = http_counter.labels lib config cs w"
  by (induction cs arbitrary: w) simp_all

lemma served_label_paths: "map (\<lambda>l. l ! 1) (served_labels lib config cs w) = map label_path cs"
  by (induction cs arbitrary: w) (simp_all add: request_labels_def)


text \<open>The span that is logged for a request carries the path it is counted under, the status that is sent,
  and the identifier that the response carries.\<close>

definition span_of :: "app_lib \<Rightarrow> Config \<Rightarrow> nat \<Rightarrow> app_call \<Rightarrow> 'a app_world_scheme \<Rightarrow> http_span" where
  "span_of lib config latency c w =
     traced (ap_request_id (cl_env c)) (matched_path (cl_endpoint c)) latency
       (record_request_metrics \<lparr>me_matched = matched_path (cl_endpoint c), me_elapsed = ap_elapsed (cl_env c), me_codec = li_logs lib\<rparr>
         (tip_headers (ap_now (cl_env c)) (routed lib config (cl_env c) (cl_endpoint c)))) (cl_request c) w"

lemma span_correlates:
  "sp_path (span_of lib config latency c w) = label_path c"
  "sp_status (span_of lib config latency c w) = Some (rs_status (fst (build_app lib config c w)))"
  "sp_request_id (span_of lib config latency c w) =
     unwrap_or (to_str (unwrap_or (header_get REQUEST_ID_HEADER (cl_request c)) (ap_request_id (cl_env c)))) ''-''"
  by (auto simp: span_of_def traced_def make_request_span_def on_response_def label_path_def build_app_def request_id_layer_def
      header_get_def map_add_def Let_def split: prod.splits option.splits)

definition ROUTES :: "string list" where
  "ROUTES = [''/v1/health'', ''/v1/health/ready'', ''/v1/openapi.json'', ''/metrics'', ''/v1/stats'', ''/v1/blocks/latest'',
     ''/v1/blocks/:number'', ''/v1/cells'', ''/v1/proofs/:tx_hash'', ''/graphql'', ''/admin/oauth/github/start'',
     ''/admin/oauth/github/callback'', ''/admin/me'', ''/admin/sign-out'', ''/admin/keys'', ''/admin/keys/:id/rotate'',
     ''/admin/keys/:id/revoke'', ''/admin/webhooks'', ''/admin/webhooks/:id'', ''/admin/metrics/usage'',
     ''/admin/metrics/summary'', ''/admin/metrics/endpoints'', ''/admin/metrics/rate-limits'', ''/admin/metrics/activity'',
     ''/admin/metrics/status'']"

lemma matched_routes: "matched_path ep = Some p \<Longrightarrow> (\<forall>r path code. ep \<noteq> Refused r path code) \<Longrightarrow> p \<in> set ROUTES"
proof (cases ep)
  case (AdminCall req)
  then show "matched_path ep = Some p \<Longrightarrow> p \<in> set ROUTES" by (cases req) (simp_all add: ROUTES_def)
next
  case (AdminChart ch)
  then show "matched_path ep = Some p \<Longrightarrow> p \<in> set ROUTES" by (cases ch) (simp_all add: ROUTES_def)
qed (simp_all add: ROUTES_def)

text \<open>A call to a path that no route matches.\<close>

definition stray :: "app_call \<Rightarrow> string \<Rightarrow> app_call" where
  "stray c path = c\<lparr>cl_endpoint := UnknownRoute, cl_request := (cl_request c)\<lparr>rq_path := path\<rparr>\<rparr>"

text \<open>C40: requests that match a route create counters for the routes of the application only, whatever
  their parameters; but a client without any key that asks for paths no route matches creates one
  counter per distinct path, so the number of counters has no bound.\<close>

theorem stray_paths_multiply_counters:
  assumes "requests_total (sv_metrics w) = Map.empty" "distinct paths" "list_all (\<lambda>c. matched_path (cl_endpoint c) \<in> Some ` set ROUTES) cs"
  shows "(\<lambda>l. l ! 1) ` dom (requests_total (sv_metrics (serve lib config cs w))) \<subseteq> set ROUTES \<and>
    card (dom (requests_total (sv_metrics (serve lib config (map (stray c) paths) w)))) = length paths"
proof
  have dom: "dom (requests_total (sv_metrics (serve lib config ds w))) = set (served_labels lib config ds w)" for ds
    using http_counter.series [of lib config ds w] assms(1) by (simp add: serve_fold served_labels_eq)
  have paths: "(\<lambda>l. l ! 1) ` set (served_labels lib config ds w) = label_path ` set ds" for ds
    using arg_cong [OF served_label_paths [of lib config ds w], of set] by simp
  show "(\<lambda>l. l ! 1) ` dom (requests_total (sv_metrics (serve lib config cs w))) \<subseteq> set ROUTES"
    unfolding dom paths using assms(3) by (auto simp: label_path_def list_all_iff)
  have "map (\<lambda>l. l ! 1) (served_labels lib config (map (stray c) paths) w) = paths"
    unfolding served_label_paths by (simp add: comp_def label_path_def stray_def)
  then have "distinct (served_labels lib config (map (stray c) paths) w)" "length (served_labels lib config (map (stray c) paths) w) = length paths"
    using assms(2) distinct_map length_map by metis+
  then show "card (dom (requests_total (sv_metrics (serve lib config (map (stray c) paths) w)))) = length paths"
    unfolding dom by (simp add: distinct_card)
qed

end
