(* ===== verification/ApiDocument.thy ===== *)
theory ApiDocument
  imports Main
begin

text \<open>
  The OpenAPI document of \<^verbatim>\<open>api/src/openapi.rs\<close>: the annotation of each handler and what the document collects.
  Descriptions and the fields of schemas are left to the generator.
\<close>

text \<open>An annotation: method, path template, tag, parameters, schema of the request body, and the answers
  as a status with the schema of its body.\<close>

record doc_path =
  dp_method :: string
  dp_path :: string
  dp_tag :: string
  dp_params :: "string list"
  dp_request :: "string option"
  dp_responses :: "(nat \<times> string option) list"

definition liveness_doc :: doc_path where
  "liveness_doc = \<lparr>dp_method = ''GET'', dp_path = ''/v1/health'', dp_tag = ''health'', dp_params = [], dp_request = None,
     dp_responses = [(200, Some ''HealthResponse'')]\<rparr>"

definition readiness_doc :: doc_path where
  "readiness_doc = \<lparr>dp_method = ''GET'', dp_path = ''/v1/health/ready'', dp_tag = ''health'', dp_params = [], dp_request = None,
     dp_responses = [(200, Some ''ReadyResponse''), (503, Some ''ReadyResponse'')]\<rparr>"

definition latest_doc :: doc_path where
  "latest_doc = \<lparr>dp_method = ''GET'', dp_path = ''/v1/blocks/latest'', dp_tag = ''blocks'', dp_params = [], dp_request = None,
     dp_responses = [(200, Some ''BlockResponse''), (404, Some ''ErrorEnvelope'')]\<rparr>"

definition by_number_doc :: doc_path where
  "by_number_doc = \<lparr>dp_method = ''GET'', dp_path = ''/v1/blocks/{number}'', dp_tag = ''blocks'', dp_params = [''number''], dp_request = None,
     dp_responses = [(200, Some ''BlockResponse''), (400, Some ''ErrorEnvelope''), (404, Some ''ErrorEnvelope'')]\<rparr>"

definition cells_doc :: doc_path where
  "cells_doc = \<lparr>dp_method = ''GET'', dp_path = ''/v1/cells'', dp_tag = ''cells'',
     dp_params = [''lock_hash'', ''type_hash'', ''is_live'', ''cursor'', ''limit'', ''include_data''], dp_request = None,
     dp_responses = [(200, Some ''CellsPage''), (400, Some ''ErrorEnvelope''), (400, Some ''ErrorEnvelope'')]\<rparr>"

definition stats_doc :: doc_path where
  "stats_doc = \<lparr>dp_method = ''GET'', dp_path = ''/v1/stats'', dp_tag = ''stats'', dp_params = [], dp_request = None,
     dp_responses = [(200, Some ''StatsResponse'')]\<rparr>"

definition passthrough_doc :: doc_path where
  "passthrough_doc = \<lparr>dp_method = ''GET'', dp_path = ''/v1/proofs/{tx_hash}'', dp_tag = ''proofs'', dp_params = [''tx_hash''], dp_request = None,
     dp_responses = [(200, Some ''ProofResponse''), (400, Some ''ErrorEnvelope''), (404, Some ''ErrorEnvelope''), (503, Some ''ErrorEnvelope'')]\<rparr>"

definition list_keys_doc :: doc_path where
  "list_keys_doc = \<lparr>dp_method = ''GET'', dp_path = ''/admin/keys'', dp_tag = ''admin'', dp_params = [], dp_request = None,
     dp_responses = [(200, Some ''ListKeysResponse''), (401, Some ''ErrorEnvelope'')]\<rparr>"

definition create_key_doc :: doc_path where
  "create_key_doc = \<lparr>dp_method = ''POST'', dp_path = ''/admin/keys'', dp_tag = ''admin'', dp_params = [], dp_request = Some ''CreateKeyRequest'',
     dp_responses = [(201, Some ''CreateKeyResponse''), (401, Some ''ErrorEnvelope'')]\<rparr>"

definition rotate_key_doc :: doc_path where
  "rotate_key_doc = \<lparr>dp_method = ''POST'', dp_path = ''/admin/keys/{id}/rotate'', dp_tag = ''admin'', dp_params = [''id''], dp_request = None,
     dp_responses = [(200, Some ''CreateKeyResponse''), (401, Some ''ErrorEnvelope''), (404, Some ''ErrorEnvelope'')]\<rparr>"

definition revoke_key_doc :: doc_path where
  "revoke_key_doc = \<lparr>dp_method = ''DELETE'', dp_path = ''/admin/keys/{id}'', dp_tag = ''admin'', dp_params = [''id''], dp_request = None,
     dp_responses = [(204, None), (401, Some ''ErrorEnvelope''), (404, Some ''ErrorEnvelope'')]\<rparr>"

text \<open>The operations the document lists, by the handler each annotation stands for.\<close>

definition ApiDoc :: "(string \<times> doc_path) list" where
  "ApiDoc =
    [(''health::liveness'', liveness_doc),
     (''health::readiness'', readiness_doc),
     (''blocks::latest'', latest_doc),
     (''blocks::by_number'', by_number_doc),
     (''cells::list'', cells_doc),
     (''stats::stats'', stats_doc),
     (''proofs::passthrough'', passthrough_doc),
     (''admin::list_keys'', list_keys_doc),
     (''admin::create_key'', create_key_doc),
     (''admin::rotate_key'', rotate_key_doc),
     (''admin::revoke_key'', revoke_key_doc)]"

definition ApiDoc_schemas :: "string list" where
  "ApiDoc_schemas =
    [''HealthResponse'', ''ReadyResponse'', ''CkbNodeStatus'', ''BlockResponse'', ''CellResponse'', ''CellsPage'', ''ConsumedByResponse'',
     ''PageMeta'', ''ScriptResponse'', ''StatsResponse'', ''ProofResponse'', ''ErrorEnvelope'', ''ErrorBody'', ''KeyView'', ''ListKeysResponse'',
     ''CreateKeyRequest'', ''CreateKeyResponse'', ''TierInput'']"

definition ApiDoc_tags :: "string list" where
  "ApiDoc_tags = [''health'', ''blocks'', ''cells'', ''stats'', ''proofs'', ''admin'']"

lemmas doc_defs = liveness_doc_def readiness_doc_def latest_doc_def by_number_doc_def cells_doc_def stats_doc_def passthrough_doc_def
  list_keys_doc_def create_key_doc_def rotate_key_doc_def revoke_key_doc_def

text \<open>The schemas an operation refers to.\<close>

definition doc_refs :: "doc_path \<Rightarrow> string list" where
  "doc_refs d = List.map_filter (\<lambda>s. s) (dp_request d # map snd (dp_responses d))"

text \<open>No operation refers to a schema or a tag that the document does not define.\<close>

lemma document_closed: "list_all (\<lambda>(f, d). set (doc_refs d) \<subseteq> set ApiDoc_schemas \<and> dp_tag d \<in> set ApiDoc_tags) ApiDoc"
  by (simp add: ApiDoc_def doc_defs doc_refs_def ApiDoc_schemas_def ApiDoc_tags_def List.map_filter_simps)

end
