(* ===== verification/Routes.thy ===== *)
theory Routes
  imports AppProps ApiDocument
begin

text \<open>
  The routes of \<^verbatim>\<open>build_app\<close> and whether the operations of the OpenAPI document are routed.  Matching a path against route patterns is axum's;
  it is a parameter with the laws of the locale \<open>path_router\<close>, and the decoding of path segments, queries
  and bodies is the record \<open>extractors\<close>.  \<open>dispatch\<close> turns a request as it arrives into the endpoint that
  \<open>build_app\<close> runs.
\<close>

section \<open>Route tables\<close>

record raw_request =
  rr_request :: http_request
  rr_query :: string
  rr_body :: bytes

text \<open>Each extractor gives a value or the status with which axum rejects the request.\<close>

record extractors =
  ex_path :: "string \<Rightarrow> nat + string"
  ex_cells :: "string \<Rightarrow> nat + CellsQuery"
  ex_callback :: "string \<Rightarrow> nat + GithubCallback"
  ex_status :: "string \<Rightarrow> nat + string option"
  ex_graphql :: "http_request \<Rightarrow> bytes \<Rightarrow> nat + GraphQlRequestBody"
  ex_create_key :: "http_request \<Rightarrow> bytes \<Rightarrow> nat + CreateKeyRequest"
  ex_create_webhook :: "http_request \<Rightarrow> bytes \<Rightarrow> nat + CreateWebhookRequest"

text \<open>What a handler is called with: the extractors, the segment a parameter of the route captured, the request.\<close>

type_synonym handler = "extractors \<Rightarrow> string \<Rightarrow> raw_request \<Rightarrow> nat + endpoint"

type_synonym route_table = "(string \<times> (string \<times> handler) list) list"

definition plain :: "endpoint \<Rightarrow> handler" where
  "plain ep = (\<lambda>ex seg r. Inr ep)"

definition with_path :: "(string \<Rightarrow> endpoint) \<Rightarrow> handler" where
  "with_path k = (\<lambda>ex seg r. map_ok k (ex_path ex seg))"

definition with_query :: "(extractors \<Rightarrow> string \<Rightarrow> nat + 'q) \<Rightarrow> ('q \<Rightarrow> endpoint) \<Rightarrow> handler" where
  "with_query parse k = (\<lambda>ex seg r. map_ok k (parse ex (rr_query r)))"

definition with_json :: "(extractors \<Rightarrow> http_request \<Rightarrow> bytes \<Rightarrow> nat + 'j) \<Rightarrow> ('j \<Rightarrow> endpoint) \<Rightarrow> handler" where
  "with_json parse k = (\<lambda>ex seg r. map_ok k (parse ex (rr_request r) (rr_body r)))"

definition public_routes :: route_table where
  "public_routes =
    [(''/v1/health'', [(''GET'', plain HealthLive)]),
     (''/v1/health/ready'', [(''GET'', plain HealthReady)]),
     (''/v1/openapi.json'', [(''GET'', plain OpenapiJson)]),
     (''/metrics'', [(''GET'', plain MetricsText)]),
     (''/v1/stats'', [(''GET'', plain StatsGet)])]"

definition rest_routes :: route_table where
  "rest_routes =
    [(''/v1/blocks/latest'', [(''GET'', plain BlocksLatest)]),
     (''/v1/blocks/:number'', [(''GET'', with_path BlocksByNumber)]),
     (''/v1/cells'', [(''GET'', with_query ex_cells CellsList)]),
     (''/v1/proofs/:tx_hash'', [(''GET'', with_path ProofsGet)])]"

definition graphql_routes :: route_table where
  "graphql_routes = [(''/graphql'', [(''POST'', with_json ex_graphql GraphqlPost), (''GET'', plain GraphqlSubscribe)])]"

definition admin_public_routes :: route_table where
  "admin_public_routes =
    [(''/admin/oauth/github/start'', [(''GET'', plain OauthStart)]),
     (''/admin/oauth/github/callback'', [(''GET'', with_query ex_callback OauthCallback)])]"

definition admin_routes :: route_table where
  "admin_routes =
    [(''/admin/me'', [(''GET'', plain (AdminCall Me))]),
     (''/admin/sign-out'', [(''POST'', plain (AdminCall SignOut))]),
     (''/admin/keys'', [(''GET'', plain (AdminCall ListKeys)), (''POST'', with_json ex_create_key (AdminCall \<circ> CreateKey))]),
     (''/admin/keys/:id/rotate'', [(''POST'', with_path (AdminCall \<circ> RotateKey))]),
     (''/admin/keys/:id/revoke'', [(''POST'', with_path (AdminCall \<circ> RevokeKey))]),
     (''/admin/webhooks'', [(''GET'', plain (AdminCall ListWebhooks)), (''POST'', with_json ex_create_webhook (AdminCall \<circ> CreateWebhook))]),
     (''/admin/webhooks/:id'', [(''DELETE'', with_path (AdminCall \<circ> DeleteWebhook))]),
     (''/admin/metrics/usage'', [(''GET'', plain (AdminChart UsageChart))]),
     (''/admin/metrics/summary'', [(''GET'', plain (AdminChart SummaryChart))]),
     (''/admin/metrics/endpoints'', [(''GET'', plain (AdminChart EndpointsChart))]),
     (''/admin/metrics/rate-limits'', [(''GET'', plain (AdminChart RateLimitsChart))]),
     (''/admin/metrics/activity'', [(''GET'', plain (AdminChart ActivityChart))]),
     (''/admin/metrics/status'', [(''GET'', with_query ex_status (AdminChart \<circ> StatusChart))])]"

text \<open>The merged routers.\<close>

definition app_routes :: "(string \<times> router \<times> (string \<times> handler) list) list" where
  "app_routes =
     concat (map (\<lambda>(rt, table). map (\<lambda>(p, ms). (p, rt, ms)) table)
       [(Public, public_routes), (RestRouter, rest_routes), (GraphqlRouter, graphql_routes),
        (AdminPublic, admin_public_routes), (AdminRouter, admin_routes)])"

section \<open>Dispatch\<close>

text \<open>A path is matched segment by segment; a parameter takes any segment that is not empty.\<close>

fun seg_matches :: "string \<Rightarrow> string \<Rightarrow> bool" where
  "seg_matches [] s = (s = [])"
| "seg_matches (c # p) s = (if c = CHR '':'' then s \<noteq> [] else s = c # p)"

definition pattern_matches :: "string \<Rightarrow> string \<Rightarrow> bool" where
  "pattern_matches p path = list_all2 seg_matches (split_char (CHR ''/'') p) (split_char (CHR ''/'') path)"

definition captured :: "string \<Rightarrow> string \<Rightarrow> string" where
  "captured p path =
     (case find (\<lambda>(a, s). take 1 a = '':'') (zip (split_char (CHR ''/'') p) (split_char (CHR ''/'') path)) of
        None \<Rightarrow> [] | Some (a, s) \<Rightarrow> s)"

type_synonym matcher = "string list \<Rightarrow> string \<Rightarrow> (string \<times> string) option"

text \<open>A handler registered with \<^verbatim>\<open>get\<close> also answers \<^verbatim>\<open>HEAD\<close>.\<close>

definition method_handler :: "(string \<times> handler) list \<Rightarrow> string \<Rightarrow> handler option" where
  "method_handler ms m = (case map_of ms m of Some g \<Rightarrow> Some g | None \<Rightarrow> if m = ''HEAD'' then map_of ms ''GET'' else None)"

definition dispatch :: "matcher \<Rightarrow> extractors \<Rightarrow> raw_request \<Rightarrow> endpoint" where
  "dispatch rm ex r =
     (case rm (map fst app_routes) (rq_path (rr_request r)) of
        None \<Rightarrow> UnknownRoute
      | Some (p, seg) \<Rightarrow>
          (case map_of app_routes p of
             None \<Rightarrow> UnknownRoute
           | Some (rt, ms) \<Rightarrow>
               (case method_handler ms (http_request.rq_method (rr_request r)) of
                  None \<Rightarrow> Refused rt p 405
                | Some g \<Rightarrow> (case g ex seg r of Inl code \<Rightarrow> Refused rt p code | Inr ep \<Rightarrow> ep))))"

definition call_of :: "matcher \<Rightarrow> extractors \<Rightarrow> app_env \<Rightarrow> raw_request \<Rightarrow> app_call" where
  "call_of rm ex env r = \<lparr>cl_request = rr_request r, cl_endpoint = dispatch rm ex r, cl_env = env\<rparr>"

text \<open>The application on requests as they arrive; the answer to \<^verbatim>\<open>HEAD\<close> loses its body.\<close>

definition app_service ::
    "matcher \<Rightarrow> extractors \<Rightarrow> app_lib \<Rightarrow> Config \<Rightarrow> app_env \<Rightarrow> raw_request \<Rightarrow> 'a app_world_scheme
      \<Rightarrow> app_body http_response \<times> 'a app_world_scheme" where
  "app_service rm ex lib config env r w =
     (case build_app lib config (call_of rm ex env r) w of
        (rs, w') \<Rightarrow> (if http_request.rq_method (rr_request r) = ''HEAD'' then rs\<lparr>rs_body := NoBody\<rparr> else rs, w'))"

section \<open>The OpenAPI document\<close>

text \<open>A template \<^verbatim>\<open>{id}\<close> of the document is the parameter \<^verbatim>\<open>:id\<close> of a route.\<close>

definition axum_form :: "string \<Rightarrow> string" where
  "axum_form t = map (\<lambda>c. if c = CHR ''{'' then CHR '':'' else c) (filter (\<lambda>c. c \<noteq> CHR ''}'') t)"

text \<open>The handler that serves an endpoint.\<close>

fun operation :: "endpoint \<Rightarrow> string option" where
  "operation HealthLive = Some ''health::liveness''"
| "operation HealthReady = Some ''health::readiness''"
| "operation OpenapiJson = Some ''openapi_handler''"
| "operation MetricsText = Some ''metrics_handler''"
| "operation StatsGet = Some ''stats::stats''"
| "operation BlocksLatest = Some ''blocks::latest''"
| "operation (BlocksByNumber _) = Some ''blocks::by_number''"
| "operation (CellsList _) = Some ''cells::list''"
| "operation (ProofsGet _) = Some ''proofs::passthrough''"
| "operation UnknownRoute = Some ''rest_not_found''"
| "operation (GraphqlPost _) = Some ''graphql_handler''"
| "operation GraphqlSubscribe = Some ''graphql_subscription_handler''"
| "operation OauthStart = Some ''admin::github_start''"
| "operation (OauthCallback _) = Some ''admin::github_callback''"
| "operation (AdminCall Me) = Some ''admin::me''"
| "operation (AdminCall SignOut) = Some ''admin::sign_out''"
| "operation (AdminCall ListKeys) = Some ''admin::list_keys''"
| "operation (AdminCall (CreateKey _)) = Some ''admin::create_key''"
| "operation (AdminCall (RotateKey _)) = Some ''admin::rotate_key''"
| "operation (AdminCall (RevokeKey _)) = Some ''admin::revoke_key''"
| "operation (AdminCall ListWebhooks) = Some ''webhooks::list_webhooks''"
| "operation (AdminCall (CreateWebhook _)) = Some ''webhooks::create_webhook''"
| "operation (AdminCall (DeleteWebhook _)) = Some ''webhooks::delete_webhook''"
| "operation (AdminChart UsageChart) = Some ''admin_metrics::usage''"
| "operation (AdminChart SummaryChart) = Some ''admin_metrics::summary''"
| "operation (AdminChart EndpointsChart) = Some ''admin_metrics::endpoints''"
| "operation (AdminChart RateLimitsChart) = Some ''admin_metrics::rate_limits''"
| "operation (AdminChart ActivityChart) = Some ''admin_metrics::activity''"
| "operation (AdminChart (StatusChart _)) = Some ''admin_metrics::status''"
| "operation (Refused _ _ _) = None"

text \<open>A documented operation is routed when its method and path lead to the handler it names.\<close>

definition doc_routed :: "string \<times> doc_path \<Rightarrow> bool" where
  "doc_routed op = (case op of (f, d) \<Rightarrow> \<exists>rt ms g. map_of app_routes (axum_form (dp_path d)) = Some (rt, ms) \<and>
     map_of ms (dp_method d) = Some g \<and> (\<forall>ex seg r ep. g ex seg r = Inr ep \<longrightarrow> operation ep = Some f))"

text \<open>The paths that ask for no credentials.\<close>

definition OPEN_PATHS :: "string list" where
  "OPEN_PATHS = [''/v1/health'', ''/v1/health/ready'', ''/v1/openapi.json'', ''/metrics'', ''/v1/stats'',
     ''/admin/oauth/github/start'', ''/admin/oauth/github/callback'']"

section \<open>Facts on the table\<close>

lemmas handler_defs = plain_def with_path_def with_query_def with_json_def
lemmas route_defs = public_routes_def rest_routes_def graphql_routes_def admin_public_routes_def admin_routes_def

lemma app_routes_distinct: "distinct (map fst app_routes)"
  by (simp add: app_routes_def route_defs)

lemma app_routes_paths: "map fst app_routes = ROUTES"
  by (simp add: app_routes_def route_defs ROUTES_def)

text \<open>Every handler stays in the router and under the path it is registered with.\<close>

definition entry_ok :: "string \<times> router \<times> (string \<times> handler) list \<Rightarrow> bool" where
  "entry_ok e = (case e of (p, rt, ms) \<Rightarrow> list_all (\<lambda>(m, g). \<forall>ex seg r ep. g ex seg r = Inr ep \<longrightarrow>
     router_of ep = rt \<and> matched_path ep = Some p) ms)"

lemma app_routes_ok: "list_all entry_ok app_routes"
  by (auto simp: app_routes_def route_defs entry_ok_def handler_defs res_simps)

section \<open>Matching\<close>

fun join_char :: "char \<Rightarrow> string list \<Rightarrow> string" where
  "join_char c [] = []"
| "join_char c [x] = x"
| "join_char c (x # y # ys) = x @ c # join_char c (y # ys)"

lemma split_char_nonempty [simp]: "split_char c s \<noteq> []"
  by (induction s) (auto split: list.splits)

lemma join_split [simp]: "join_char c (split_char c s) = s"
proof (induction s)
  case (Cons x xs)
  obtain p ps where "split_char c xs = p # ps" by (cases "split_char c xs") auto
  with Cons show ?case by (cases ps) auto
qed simp

lemma split_char_inject [simp]: "split_char c s = split_char c t \<longleftrightarrow> s = t"
  by (metis join_split)

lemma split_char_parts: "x \<in> set (split_char c s) \<Longrightarrow> set x \<subseteq> set s - {c}"
proof (induction s arbitrary: x)
  case (Cons y ys)
  then show ?case by (cases "split_char c ys") (fastforce split: if_splits)+
qed simp

lemma static_captured: "CHR '':'' \<notin> set p \<Longrightarrow> captured p path = []"
proof -
  assume "CHR '':'' \<notin> set p"
  then have "take 1 a \<noteq> '':''" if "a \<in> set (split_char (CHR ''/'') p)" for a
    using split_char_parts [OF that] by (cases a) auto
  then have "find (\<lambda>(a, s). take 1 a = '':'') (zip (split_char (CHR ''/'') p) ss) = None" for ss :: "string list"
    by (fastforce simp: find_None_iff dest: set_zip_leftD)
  then show ?thesis by (simp add: captured_def)
qed

text \<open>A pattern without parameter matches itself only.\<close>

lemma static_match:
  assumes "CHR '':'' \<notin> set p"
  shows "pattern_matches p path \<longleftrightarrow> path = p"
proof -
  have lit: "seg_matches a s \<longleftrightarrow> a = s" if "a \<in> set (split_char (CHR ''/'') p)" for a s
    using split_char_parts [OF that] assms by (cases a) auto
  have "list_all2 seg_matches (split_char (CHR ''/'') p) ss \<longleftrightarrow> split_char (CHR ''/'') p = ss" for ss
    using list.rel_cong [of _ _ ss ss seg_matches "(=)"] lit by (simp add: list.rel_eq)
  then show ?thesis unfolding pattern_matches_def by auto
qed

locale path_router =
  fixes rm :: matcher
  assumes matched: "rm ps path = Some (p, seg) \<Longrightarrow> p \<in> set ps \<and> pattern_matches p path \<and> seg = captured p path"
    and unmatched: "rm ps path = None \<Longrightarrow> p \<in> set ps \<Longrightarrow> \<not> pattern_matches p path"
    and static_first: "rm ps path = Some (p, seg) \<Longrightarrow> path \<in> set ps \<Longrightarrow> CHR '':'' \<notin> set path \<Longrightarrow> p = path"
begin

lemma dispatch_cases:
  obtains (unknown) "dispatch rm ex r = UnknownRoute" "\<And>p. p \<in> set ROUTES \<Longrightarrow> \<not> pattern_matches p (rq_path (rr_request r))"
  | (route) p rt ms where "(p, rt, ms) \<in> set app_routes" "pattern_matches p (rq_path (rr_request r))"
      "router_of (dispatch rm ex r) = rt" "matched_path (dispatch rm ex r) = Some p"
proof (cases "rm (map fst app_routes) (rq_path (rr_request r))")
  case None
  then show thesis using unmatched app_routes_paths by (intro unknown) (auto simp: dispatch_def)
next
  case (Some pair)
  obtain p seg where pair: "pair = (p, seg)" by fastforce
  note m = matched [OF Some [unfolded pair]]
  then obtain rt ms where e: "map_of app_routes p = Some (rt, ms)" by (auto simp: map_of_eq_None_iff image_iff dest: weak_map_of_SomeI)
  have "entry_ok (p, rt, ms)" using app_routes_ok map_of_SomeD [OF e] by (auto simp: list_all_iff)
  then have ok: "router_of ep = rt \<and> matched_path ep = Some p" if "method_handler ms mt = Some g" "g ex seg r = Inr ep" for mt g ep
    using that by (fastforce simp: entry_ok_def list_all_iff method_handler_def split: option.splits if_splits dest: map_of_SomeD)
  show thesis
    by (rule route [OF map_of_SomeD [OF e]]) (use m Some pair e ok in \<open>auto simp: dispatch_def split: option.splits sum.splits\<close>)
qed

text \<open>A path that is itself a route goes to that route, whatever a parameter could also match.\<close>

lemma dispatch_static:
  assumes "(p, rt, ms) \<in> set app_routes" "CHR '':'' \<notin> set p" "rq_path (rr_request r) = p"
    and "method_handler ms (http_request.rq_method (rr_request r)) = Some g" "g ex [] r = Inr ep"
  shows "dispatch rm ex r = ep"
proof -
  have at: "p \<in> set (map fst app_routes)" using assms(1) by force
  obtain q seg where m: "rm (map fst app_routes) p = Some (q, seg)" using unmatched [OF _ at] static_match [OF assms(2)] by fastforce
  have q: "q = p" using static_first [OF m at assms(2)] .
  have "seg = []" using matched [OF m] q static_captured [OF assms(2)] by simp
  then show ?thesis using assms m q map_of_is_SomeI [OF app_routes_distinct assms(1)] by (simp add: dispatch_def)
qed

end

text \<open>A matcher with these laws: the path itself when it is a route without parameter, otherwise the first pattern
  that matches.\<close>

definition ref_match :: matcher where
  "ref_match ps path =
     map_option (\<lambda>p. (p, captured p path))
       (if path \<in> set ps \<and> CHR '':'' \<notin> set path then Some path else find (\<lambda>p. pattern_matches p path) ps)"

interpretation first_match: path_router ref_match
proof
  fix ps path p seg
  show "ref_match ps path = Some (p, seg) \<Longrightarrow> p \<in> set ps \<and> pattern_matches p path \<and> seg = captured p path"
    using static_match [of p path] by (auto simp: ref_match_def find_Some_iff split: if_splits)
  show "ref_match ps path = None \<Longrightarrow> p \<in> set ps \<Longrightarrow> \<not> pattern_matches p path"
    by (auto simp: ref_match_def find_None_iff split: if_splits)
  show "ref_match ps path = Some (p, seg) \<Longrightarrow> path \<in> set ps \<Longrightarrow> CHR '':'' \<notin> set path \<Longrightarrow> p = path"
    by (auto simp: ref_match_def)
qed

section \<open>Who reaches what\<close>

lemma session_passed:
  assumes "session_middleware dlib senv next_run rq w = (rs, w')" "rs_status rs \<notin> {401, 500}"
  shows "\<exists>token auth. extract_session_cookie rq = Some token \<and> session_resolve senv (hash_token dlib token) (aw_accounts w) = Inr auth"
  using assms
  by (auto simp: session_middleware_def error_response_def into_response_def Let_def split: option.splits sum.splits dest: session_resolve_Inl)

lemma app_service_facts:
  "rs_status (fst (app_service rm ex lib config env r w)) = rs_status (fst (build_app lib config (call_of rm ex env r) w))"
  "rs_key (fst (app_service rm ex lib config env r w)) = rs_key (fst (build_app lib config (call_of rm ex env r) w))"
  "snd (app_service rm ex lib config env r w) = snd (build_app lib config (call_of rm ex env r) w)"
  by (simp_all add: app_service_def split: prod.splits)

lemma inner_session [simp]: "extract_session_cookie (inner_request c) = extract_session_cookie (cl_request c)"
  by (simp add: extract_session_cookie_def cookie_value_def)

text \<open>The routes of each router.\<close>

lemma open_routes: "(p, rt, ms) \<in> set app_routes \<Longrightarrow> rt \<in> {Public, AdminPublic} \<Longrightarrow> p \<in> set OPEN_PATHS"
  by (auto simp: app_routes_def route_defs OPEN_PATHS_def)

lemma admin_routes_prefix: "(p, AdminRouter, ms) \<in> set app_routes \<Longrightarrow> \<exists>q. p = ''/admin/'' @ q"
  by (auto simp: app_routes_def route_defs)

lemma admin_pattern: "pattern_matches (''/admin/'' @ q) path \<Longrightarrow> \<exists>rest. path = ''/admin/'' @ rest"
proof -
  assume "pattern_matches (''/admin/'' @ q) path"
  moreover obtain y ys where "split_char (CHR ''/'') q = y # ys" by (cases "split_char (CHR ''/'') q") auto
  ultimately obtain s ss where "split_char (CHR ''/'') path = [] # ''admin'' # s # ss"
    by (auto simp: pattern_matches_def list_all2_Cons1)
  then have "path = join_char (CHR ''/'') ([] # ''admin'' # s # ss)" by (metis join_split)
  then show ?thesis by simp
qed

text \<open>An answer other than 401 or 500 is for an open path, a session or a bearer string.\<close>

lemma open_paths_exact:
  assumes "path_router rm" "auth_run (dl_keys (li_dash lib)) (ae_ttl (ap_auth env)) hs w"
    and "app_service rm ex lib config env r w = (rs, w')" "rs_status rs \<notin> {401, 500}"
  shows "rq_path (rr_request r) \<in> set OPEN_PATHS \<or>
    (\<exists>rest. rq_path (rr_request r) = ''/admin/'' @ rest) \<and>
      (\<exists>token auth. extract_session_cookie (rr_request r) = Some token \<and>
         session_resolve (ap_session env) (hash_token (li_dash lib) token) (aw_accounts w) = Inr auth) \<or>
    (\<exists>bearer key t a. header_get ''authorization'' (rr_request r) = Some (''Bearer '' @ bearer) \<and>
       (t, a) \<in> set ((ae_now (ap_auth env), aw_accounts w) # hs) \<and>
       (t = ae_now (ap_auth env) \<or> ae_now (ap_auth env) - t < ae_ttl (ap_auth env)) \<and>
       authorises (dl_keys (li_dash lib)) a bearer key \<and> rs_key rs = Some key \<and>
       (rs_status rs \<in> {429, 503} \<or> pw_redis w = None \<or>
        (le_fault (ap_limiter env) \<noteq> Delivered \<and> api_rate_limit_fail_open config) \<or>
        (\<exists>redis. pw_redis w = Some redis \<and>
           1 \<le> tokens_for config (ap_limiter env) (surface_of (router_of (dispatch rm ex r))) key redis)))"
proof -
  let ?c = "call_of rm ex env r"
  obtain rs0 v where app: "build_app lib config ?c w = (rs0, v)" by fastforce
  have st: "rs_status rs0 \<notin> {401, 500}" "rs_status rs0 = rs_status rs" "rs_key rs0 = rs_key rs"
    using app assms(3,4) app_service_facts(1,2) [of rm ex lib config env r w] by simp_all
  have data: ?thesis if "router_of (dispatch rm ex r) \<in> {RestRouter, GraphqlRouter}"
    using data_requires_key_and_token [of lib ?c hs w config rs0 v] assms(2) app st that unfolding call_of_def by simp
  show ?thesis
  proof (rule path_router.dispatch_cases [OF assms(1), of ex r], goal_cases unknown route)
    case unknown
    then show ?thesis by (intro data) simp
  next
    case (route p rt ms)
    consider "rt \<in> {Public, AdminPublic}" | "rt = AdminRouter" | "rt \<in> {RestRouter, GraphqlRouter}" by (cases rt) auto
    then show ?thesis
    proof cases
      case 1
      have "p \<in> set OPEN_PATHS" using route(1) 1 by (rule open_routes)
      moreover from this have "CHR '':'' \<notin> set p" by (auto simp: OPEN_PATHS_def)
      ultimately show ?thesis using route(2) static_match by auto
    next
      case 2
      obtain rs1 v1 where inner: "routed lib config env (dispatch rm ex r) (inner_request ?c) w = (rs1, v1)" by fastforce
      have "rs_status rs1 = rs_status rs0" using build_app_inner(1) [of lib config ?c w rs1 v1] inner app by (simp add: call_of_def)
      moreover have "session_middleware (li_dash lib) (ap_session env) (handle lib config env (dispatch rm ex r)) (inner_request ?c) w = (rs1, v1)"
        using inner route(3) 2 by (simp add: routed_def)
      ultimately show ?thesis using session_passed st(1) admin_routes_prefix route(1,2) 2 admin_pattern by (fastforce simp: call_of_def)
    next
      case 3
      then show ?thesis using route(3) by (intro data) simp
    qed
  qed
qed

section \<open>The document and the routes\<close>

lemma not_found_status: "rs_status rest_not_found = 404"
  by (simp add: rest_not_found_def error_response_def into_response_def)

text \<open>Requests to the data routers leave the account tables alone.\<close>

lemma count_accounts [simp]: "aw_accounts (count_outcome surface key out w) = aw_accounts w"
  by (simp add: count_outcome_def Let_def)

lemma limiter_accounts:
  assumes keep: "\<And>rq w. aw_accounts (snd (next_run rq w)) = aw_accounts w"
  shows "aw_accounts (snd (rate_limit_for config env surface next_run rq w)) = aw_accounts w"
proof (cases "rq_key rq")
  case None
  then show ?thesis by (simp add: rate_limit_for_def)
next
  case (Some key)
  obtain rs w' where eq: "rate_limit_for config env surface next_run rq w = (rs, w')" by fastforce
  have run: "aw_accounts w' = aw_accounts v" if "(x, w') = next_run rq v" for x v using keep [of rq v] that by (metis snd_conv)
  from eq Some have "aw_accounts w' = aw_accounts w"
    by (cases rule: rate_limit_cases) (auto simp: keep dest!: run)
  then show ?thesis using eq by simp
qed

lemma auth_accounts:
  assumes keep: "\<And>rq w. aw_accounts (snd (next_run rq w)) = aw_accounts w"
  shows "aw_accounts (snd (auth_middleware klib aenv next_run rq w)) = aw_accounts w"
proof (cases "extract_bearer rq")
  case (Inr bearer)
  obtain r w' where res: "auth_resolve klib aenv bearer w = (r, w')" by fastforce
  then have "aw_accounts w' = aw_accounts w" by (rule auth_resolve_cases) simp_all
  then show ?thesis using Inr res keep by (cases r) (simp_all add: auth_middleware_def Let_def case_prod_unfold)
qed (simp add: auth_middleware_def)

lemma data_keeps_accounts:
  assumes "router_of (cl_endpoint c) \<in> {RestRouter, GraphqlRouter}"
  shows "aw_accounts (snd (build_app lib config c w)) = aw_accounts w"
proof -
  have "aw_accounts (snd (handle lib config env (cl_endpoint c) rq v)) = aw_accounts v" for env rq and v :: "'b app_world_scheme"
    using assms by (cases "cl_endpoint c") simp_all
  then have keep: "aw_accounts (snd (routed lib config env (cl_endpoint c) rq v)) = aw_accounts v" for env rq and v :: "'b app_world_scheme"
    using assms by (auto simp: routed_def intro!: auth_accounts limiter_accounts)
  show ?thesis using build_app_world [of lib config c w] by (auto simp: keep)
qed

lemma doc_entries:
  "doc_routed (''health::liveness'', liveness_doc)" "doc_routed (''health::readiness'', readiness_doc)"
  "doc_routed (''blocks::latest'', latest_doc)" "doc_routed (''blocks::by_number'', by_number_doc)"
  "doc_routed (''cells::list'', cells_doc)" "doc_routed (''stats::stats'', stats_doc)"
  "doc_routed (''proofs::passthrough'', passthrough_doc)" "doc_routed (''admin::list_keys'', list_keys_doc)"
  "doc_routed (''admin::create_key'', create_key_doc)" "doc_routed (''admin::rotate_key'', rotate_key_doc)"
  by (simp_all add: doc_routed_def doc_defs axum_form_def app_routes_def route_defs handler_defs map_ok_eq_Inr, auto)

lemma doc_exception: "\<not> doc_routed (f, revoke_key_doc)"
  by (simp add: doc_routed_def revoke_key_doc_def axum_form_def app_routes_def route_defs)

lemma stray_key_path:
  assumes "CHR ''/'' \<notin> set key_id" "p \<in> set ROUTES"
  shows "\<not> pattern_matches p (''/admin/keys/'' @ key_id)"
  using assms by (auto simp: ROUTES_def pattern_matches_def split_char_free)

text \<open>C30: every operation of the OpenAPI document is routed under its method and path to the handler it names,
  with one exception: revoking a key is documented as \<^verbatim>\<open>DELETE /admin/keys/{id}\<close>, but no route matches such a
  path.  Whatever the method and the identifier, the request ends in the fallback of the data routers: it
  is refused for want of an API key, or by the limiter, or answered 404, and no key is revoked.\<close>

theorem documented_revocation_is_unrouted:
  assumes "path_router rm" "rq_path (rr_request r) = ''/admin/keys/'' @ key_id" "CHR ''/'' \<notin> set key_id"
  shows "map (\<lambda>(f, d). (dp_method d, dp_path d, f)) (filter (\<lambda>op. \<not> doc_routed op) ApiDoc) =
      [(''DELETE'', ''/admin/keys/{id}'', ''admin::revoke_key'')] \<and>
    dispatch rm ex r = UnknownRoute \<and>
    rs_status (fst (app_service rm ex lib config env r w)) \<in> {401, 404, 429, 500, 503} \<and>
    aw_accounts (snd (app_service rm ex lib config env r w)) = aw_accounts w"
proof (intro conjI)
  show "map (\<lambda>(f, d). (dp_method d, dp_path d, f)) (filter (\<lambda>op. \<not> doc_routed op) ApiDoc) =
      [(''DELETE'', ''/admin/keys/{id}'', ''admin::revoke_key'')]"
    by (simp add: ApiDoc_def doc_entries doc_exception) (simp add: revoke_key_doc_def)
  show un: "dispatch rm ex r = UnknownRoute"
  proof (rule path_router.dispatch_cases [OF assms(1), of ex r], goal_cases unknown route)
    case (route p rt ms)
    have "p \<in> set ROUTES" unfolding app_routes_paths [symmetric] using route(1) by force
    then show ?case using stray_key_path [OF assms(3)] route(2) assms(2) by simp
  qed
  let ?c = "call_of rm ex env r"
  have rt: "cl_endpoint ?c = UnknownRoute" "router_of (cl_endpoint ?c) \<in> {RestRouter, GraphqlRouter}" by (simp_all add: call_of_def un)
  show "rs_status (fst (app_service rm ex lib config env r w)) \<in> {401, 404, 429, 500, 503}"
  proof (rule ccontr)
    assume no: "rs_status (fst (app_service rm ex lib config env r w)) \<notin> {401, 404, 429, 500, 503}"
    then have "rs_status (fst (build_app lib config ?c w)) \<notin> {401, 429, 500, 503}" by (simp add: app_service_facts)
    from data_answer [OF rt(2) this] rt(1) have "rs_status (fst (build_app lib config ?c w)) = 404"
      by (metis handle.simps(10) fst_conv not_found_status)
    with no show False by (simp add: app_service_facts)
  qed
  show "aw_accounts (snd (app_service rm ex lib config env r w)) = aw_accounts w"
    by (simp add: app_service_facts data_keeps_accounts [OF rt(2)])
qed

end
