(* ===== verification/AppLimit.thy ===== *)
theory AppLimit
  imports AppProps
begin

text \<open>
  The rate limit as a client of the composed application meets it.  Every request that authenticates
  makes one call of the limiter (at most one when it is interrupted), nothing else in the application touches the buckets, and so the
  bound on the script carries over to the answers of \<^verbatim>\<open>build_app\<close>.
\<close>

section \<open>Who touches the buckets\<close>

definition buckets :: "'a api_world_scheme \<Rightarrow> (string \<rightharpoonup> bucket) option" where
  "buckets w = map_option rd_buckets (pw_redis w)"

lemma buckets_simps [simp]:
  "buckets (w\<lparr>aw_accounts := a\<rparr>) = buckets w" "buckets (w\<lparr>pw_seen := s\<rparr>) = buckets w"
  "buckets (w\<lparr>pw_redis := r\<rparr>) = map_option rd_buckets r"
  by (simp_all add: buckets_def)

lemma buckets_count [simp]: "buckets (count_outcome surface key outcome w) = buckets w"
  by (simp add: buckets_def count_outcome_def Let_def)

interpretation bucket_frame: handler_frame "\<lambda>w w' :: 'a app_world_scheme. buckets w' = buckets w"
  by unfold_locales (auto simp: buckets_def)

section \<open>The limiter call of a request\<close>

definition limiter_call_of :: "Config \<Rightarrow> app_call \<Rightarrow> AuthenticatedKey \<Rightarrow> limiter_call" where
  "limiter_call_of config c key =
     (let surface = surface_of (router_of (cl_endpoint c))
      in \<lparr>lc_env = ap_limiter (cl_env c), lc_prefix = au_prefix key, lc_surface = surface,
          lc_params = from_config config (au_tier key) surface\<rparr>)"

lemma rate_limit_buckets:
  assumes "rq_key rq = Some key" and "pw_redis w = Some r" and "surface = surface_of (router_of (cl_endpoint c))"
    and "\<And>rq w. buckets (snd (next_run rq w)) = buckets w" and call_def: "call = limiter_call_of config c key"
  shows "buckets (snd (rate_limit_for config (ap_limiter (cl_env c)) surface next_run rq w)) = Some (rd_buckets (snd (run_check call r)))"
    and "\<not> api_rate_limit_fail_open config \<Longrightarrow>
      rs_status (fst (rate_limit_for config (ap_limiter (cl_env c)) surface next_run rq w)) \<notin> {429, 503} \<Longrightarrow>
      admits (bucket_key surface (au_prefix key)) call r"
proof -
  obtain res r' where run: "run_check call r = (res, r')" by fastforce
  then have ck: "check (ap_limiter (cl_env c)) (au_prefix key) surface (from_config config (au_tier key) surface) r = (res, r')"
    using assms(3) by (simp add: run_check_def call_def limiter_call_of_def Let_def)
  show "buckets (snd (rate_limit_for config (ap_limiter (cl_env c)) surface next_run rq w)) = Some (rd_buckets (snd (run_check call r)))"
    using assms(1,2,4) run ck
    by (auto simp: rate_limit_for_def rate_limiter_def Let_def case_prod_unfold split: sum.split)
  show "admits (bucket_key surface (au_prefix key)) call r"
    if "\<not> api_rate_limit_fail_open config"
      "rs_status (fst (rate_limit_for config (ap_limiter (cl_env c)) surface next_run rq w)) \<notin> {429, 503}"
    using that assms(1,2,3) run ck
    by (auto simp: rate_limit_for_def rate_limiter_def Let_def case_prod_unfold admits_def call_def limiter_call_of_def
        split: sum.splits if_splits)
qed

text \<open>The key a request presents, and the call of the limiter behind it: one when it completes and authenticates,
  and when it is interrupted one if the script had run.\<close>

definition presented_key :: "app_lib \<Rightarrow> app_call \<Rightarrow> 'a app_world_scheme \<Rightarrow> AuthenticatedKey option" where
  "presented_key lib c w = (case extract_bearer (inner_request c) of
     Inl _ \<Rightarrow> None
   | Inr bearer \<Rightarrow> (case fst (auth_resolve (dl_keys (li_dash lib)) (ap_auth (cl_env c)) bearer w) of Inl _ \<Rightarrow> None | Inr key \<Rightarrow> Some key))"

fun event_key :: "app_lib \<Rightarrow> Config \<Rightarrow> app_event \<Rightarrow> 'a app_world_scheme \<Rightarrow> AuthenticatedKey option" where
  "event_key lib config (Served c) w = rs_key (fst (build_app lib config c w))"
| "event_key lib config (Interrupted c why n) w = (if fst (cut_at lib config c n w) then presented_key lib c w else None)"

fun limiter_calls :: "app_lib \<Rightarrow> Config \<Rightarrow> app_event list \<Rightarrow> 'a app_world_scheme \<Rightarrow> limiter_call list" where
  "limiter_calls lib config [] w = []"
| "limiter_calls lib config (ev # evs) w =
     (case event_key lib config ev w of None \<Rightarrow> [] | Some key \<Rightarrow> [limiter_call_of config (event_call ev) key]) @
     limiter_calls lib config evs (snd (run_event lib config ev w))"

text \<open>How many requests were answered for a key on a surface with anything but a refusal of the limiter.\<close>

definition counts_for :: "Surface \<Rightarrow> string \<Rightarrow> app_call \<Rightarrow> app_body http_response \<Rightarrow> bool" where
  "counts_for surface pfx c rs \<longleftrightarrow> surface_of (router_of (cl_endpoint c)) = surface \<and> rs_status rs \<notin> {429, 503} \<and>
     (case rs_key rs of None \<Rightarrow> False | Some key \<Rightarrow> au_prefix key = pfx)"

fun answered :: "app_lib \<Rightarrow> Config \<Rightarrow> Surface \<Rightarrow> string \<Rightarrow> app_event list \<Rightarrow> 'a app_world_scheme \<Rightarrow> nat" where
  "answered lib config surface pfx [] w = 0"
| "answered lib config surface pfx (ev # evs) w =
     (case run_event lib config ev w of (rs, w') \<Rightarrow>
        (if counts_for surface pfx (event_call ev) rs then 1 else 0) + answered lib config surface pfx evs w')"

section \<open>One request\<close>

lemma session_buckets:
  assumes "\<And>rq w. buckets (snd (next_run rq w)) = buckets w"
  shows "buckets (snd (session_middleware dlib senv next_run rq w)) = buckets w"
  using assms by (simp add: session_middleware_def Let_def split: option.splits sum.splits)

lemma routed_buckets:
  assumes "routed lib config (cl_env c) (cl_endpoint c) rq w = (rs, w')" and "pw_redis w = Some r"
  shows "case rs_key rs of
      None \<Rightarrow> buckets w' = buckets w
    | Some key \<Rightarrow> buckets w' = Some (rd_buckets (snd (run_check (limiter_call_of config c key) r))) \<and>
        (\<not> api_rate_limit_fail_open config \<and> rs_status rs \<notin> {429, 503} \<longrightarrow>
           admits (bucket_key (surface_of (router_of (cl_endpoint c))) (au_prefix key)) (limiter_call_of config c key) r)"
proof (cases "router_of (cl_endpoint c) \<in> {RestRouter, GraphqlRouter}")
  case True
  let ?s = "surface_of (router_of (cl_endpoint c))"
  let ?next = "rate_limit_for config (ap_limiter (cl_env c)) ?s (handle lib config (cl_env c) (cl_endpoint c))"
  have auth: "auth_middleware (dl_keys (li_dash lib)) (ap_auth (cl_env c)) ?next rq w = (rs, w')"
    using True assms(1) by (auto simp: routed_def)
  show ?thesis
  proof (cases "extract_bearer rq")
    case (Inl e)
    then show ?thesis using auth by (auto simp: auth_middleware_def)
  next
    case (Inr bearer)
    obtain res v where res: "auth_resolve (dl_keys (li_dash lib)) (ap_auth (cl_env c)) bearer w = (res, v)" by fastforce
    have v: "pw_redis v = Some r" "buckets v = buckets w" using auth_resolve_redis [OF res] assms(2) by (simp_all add: buckets_def)
    show ?thesis
    proof (cases res)
      case (Inl e)
      then show ?thesis using auth Inr res v by (auto simp: auth_middleware_def)
    next
      case key: (Inr key)
      have "rs = (fst (?next (rq\<lparr>rq_key := Some key\<rparr>) v))\<lparr>rs_key := Some key\<rparr>" "w' = snd (?next (rq\<lparr>rq_key := Some key\<rparr>) v)"
        using auth res Inr key by (auto simp: auth_middleware_def Let_def case_prod_unfold)
      then show ?thesis
        using rate_limit_buckets [where rq = "rq\<lparr>rq_key := Some key\<rparr>" and key = key and c = c and config = config and w = v and r = r
            and next_run = "handle lib config (cl_env c) (cl_endpoint c)", OF _ v(1) refl bucket_frame.handled refl]
        by simp
    qed
  qed
next
  case False
  then have "rs_key rs = None" using routed_key [of lib config "cl_env c" "cl_endpoint c" rq w] assms(1) by (cases "rs_key rs") auto
  moreover have "buckets w' = buckets w"
    using False arg_cong [OF assms(1), of snd] bucket_frame.handled session_buckets [OF bucket_frame.handled]
    by (cases "router_of (cl_endpoint c)") (auto simp: routed_def)
  ultimately show ?thesis by simp
qed

lemma build_app_buckets:
  assumes "build_app lib config c w = (rs, w')" and "pw_redis w = Some r"
  shows "case rs_key rs of
      None \<Rightarrow> buckets w' = buckets w
    | Some key \<Rightarrow> buckets w' = Some (rd_buckets (snd (run_check (limiter_call_of config c key) r))) \<and>
        (\<not> api_rate_limit_fail_open config \<and> rs_status rs \<notin> {429, 503} \<longrightarrow>
           admits (bucket_key (surface_of (router_of (cl_endpoint c))) (au_prefix key)) (limiter_call_of config c key) r)"
proof -
  obtain rs0 v where inner: "routed lib config (cl_env c) (cl_endpoint c) (inner_request c) w = (rs0, v)" by fastforce
  have "buckets w' = buckets v" using build_app_world [of lib config c w] assms(1) inner by (auto simp: buckets_def)
  moreover have "rs_status rs = rs_status rs0" "rs_key rs = rs_key rs0" using build_app_inner(1,2) [OF inner] assms(1) by simp_all
  ultimately show ?thesis using routed_buckets [OF inner assms(2)] by (cases "rs_key rs0") auto
qed

lemma limiter_cut_buckets:
  assumes "rq_key rq = Some key" and "pw_redis w = Some r" and "surface = surface_of (router_of (cl_endpoint c))"
    and "(b, v) \<in> set (limiter_cuts config (ap_limiter (cl_env c)) surface (handler_cuts lib config env ep) rq w)"
  shows "buckets v = (if b then Some (rd_buckets (snd (run_check (limiter_call_of config c key) r))) else buckets w)"
proof -
  obtain res r' where run: "run_check (limiter_call_of config c key) r = (res, r')" by fastforce
  then have ck: "check (ap_limiter (cl_env c)) (au_prefix key) surface (from_config config (au_tier key) surface) r = (res, r')"
    using assms(3) by (simp add: run_check_def limiter_call_of_def Let_def)
  show ?thesis using assms(1,2,4) run ck
    by (auto simp: limiter_cuts_def rate_limiter_def Let_def dest!: bucket_frame.handler_cut split: sum.splits if_splits)
qed

lemma session_cut_buckets:
  assumes "(b, v) \<in> set (session_cuts dlib senv (handler_cuts lib config env ep) rq w)"
  shows "\<not> b" "buckets v = buckets w"
  using assms by (auto simp: session_cuts_def Let_def split: option.splits sum.splits dest!: bucket_frame.handler_cut)

text \<open>An interrupted request leaves the buckets as they were, or as one call of the limiter leaves them.\<close>

lemma cut_buckets:
  assumes "(b, v) \<in> set (call_cuts lib config c w)" and "pw_redis w = Some r"
  shows "if b then \<exists>key. presented_key lib c w = Some key \<and> buckets v = Some (rd_buckets (snd (run_check (limiter_call_of config c key) r)))
    else buckets v = buckets w"
proof (cases "router_of (cl_endpoint c) \<in> {RestRouter, GraphqlRouter}")
  case True
  let ?s = "surface_of (router_of (cl_endpoint c))"
  let ?next = "limiter_cuts config (ap_limiter (cl_env c)) ?s (handler_cuts lib config (cl_env c) (cl_endpoint c))"
  have cut: "(b, v) \<in> set (auth_cuts (dl_keys (li_dash lib)) (ap_auth (cl_env c)) ?next (inner_request c) w)"
    using True assms(1) by (auto simp: call_cuts_def routed_cuts_def Let_def)
  show ?thesis
  proof (cases "extract_bearer (inner_request c)")
    case (Inl e)
    then show ?thesis using cut by (simp add: auth_cuts_def)
  next
    case (Inr bearer)
    obtain res u where res: "auth_resolve (dl_keys (li_dash lib)) (ap_auth (cl_env c)) bearer w = (res, u)" by fastforce
    have u: "pw_redis u = Some r" "buckets u = buckets w" using auth_resolve_redis [OF res] assms(2) by (simp_all add: buckets_def)
    have cache: "buckets (w\<lparr>aw_cache := x\<rparr>) = buckets w" for x by (simp add: buckets_def)
    show ?thesis using cut Inr res u cache
        limiter_cut_buckets [where rq = "(inner_request c)\<lparr>rq_key := Some k\<rparr>" and key = k and w = u and r = r and c = c for k, OF _ u(1) refl]
      by (cases res) (auto simp: auth_cuts_def presented_key_def)
  qed
next
  case False
  then show ?thesis using assms(1) session_cut_buckets bucket_frame.handler_cut
    by (cases "router_of (cl_endpoint c)") (fastforce simp: call_cuts_def routed_cuts_def Let_def)+
qed

text \<open>The limiter sees nothing of Redis but its buckets.\<close>

lemma check_sees_buckets:
  assumes "rd_buckets r = rd_buckets r'"
  shows "fst (run_check call r) = fst (run_check call r')" "rd_buckets (snd (run_check call r)) = rd_buckets (snd (run_check call r'))"
    "admits key call r = admits key call r'"
  using assms
  by (simp_all add: admits_def run_check_def check_def TOKEN_BUCKET_LUA_def store_bucket_def live_bucket_def Let_def split: redis_fault.split)

lemma event_buckets:
  assumes "run_event lib config ev w = (rs, w')" and "pw_redis w = Some r"
  shows "case event_key lib config ev w of
      None \<Rightarrow> buckets w' = buckets w \<and> rs_key rs = None
    | Some key \<Rightarrow> buckets w' = Some (rd_buckets (snd (run_check (limiter_call_of config (event_call ev) key) r))) \<and>
        (\<not> api_rate_limit_fail_open config \<and> counts_for surface pfx (event_call ev) rs \<longrightarrow>
           admits (bucket_key surface pfx) (limiter_call_of config (event_call ev) key) r)"
proof (cases ev)
  case (Served c)
  then show ?thesis using build_app_buckets [of lib config c w rs w' r] assms by (cases "rs_key rs") (auto simp: counts_for_def)
next
  case (Interrupted c why n)
  obtain b v where cut: "cut_at lib config c n w = (b, v)" by fastforce
  have "(b, v) \<in> set (call_cuts lib config c w)" using cut_at_mem [of lib config c n w] cut by simp
  from cut_buckets [OF this assms(2)] show ?thesis
    using assms(1) Interrupted cut interrupted_no_key [of c why] by (auto simp: counts_for_def split: if_splits)
qed

lemma answered_le_admitted:
  assumes "\<not> api_rate_limit_fail_open config" and "buckets w = Some (rd_buckets r)"
  shows "answered lib config surface pfx evs w \<le> admitted (bucket_key surface pfx) (limiter_calls lib config evs w) r"
  using assms(2)
proof (induction evs arbitrary: w r)
  case (Cons ev evs)
  obtain rs w' where app: "run_event lib config ev w = (rs, w')" by fastforce
  obtain s where s: "pw_redis w = Some s" "rd_buckets s = rd_buckets r" using Cons.prems by (auto simp: buckets_def)
  note step = event_buckets [OF app s(1), of surface pfx]
  show ?case
  proof (cases "event_key lib config ev w")
    case None
    then have "buckets w' = Some (rd_buckets r)" using step Cons.prems by simp
    then show ?thesis using Cons.IH app None step by (simp add: counts_for_def)
  next
    case (Some key)
    let ?call = "limiter_call_of config (event_call ev) key"
    have "buckets w' = Some (rd_buckets (snd (run_check ?call r)))" using step Some check_sees_buckets(2) [OF s(2)] by simp
    moreover have "counts_for surface pfx (event_call ev) rs \<Longrightarrow> admits (bucket_key surface pfx) ?call r"
      using step Some assms(1) check_sees_buckets(3) [OF s(2)] by (auto simp: counts_for_def)
    ultimately show ?thesis using Cons.IH [of w' "snd (run_check ?call r)"] app Some by auto
  qed
qed simp


end
