(* ===== verification/Reach.thy ===== *)
theory Reach
  imports Routes AppLimit
begin

text \<open>
  The server over time.  \<open>app_run\<close> holds of the worlds that requests, completed or interrupted, and everything
  else that happens in between lead to; what an interrupted request leaves behind; and that credentials
  stay sound in every such world.
\<close>

section \<open>Interrupted requests\<close>

lemma timeout_headers:
  "rs_status (interrupted_response c Timeout) = 408" "rs_body (interrupted_response c Timeout) = NoBody"
  "map_of (rs_headers (interrupted_response c Timeout)) REQUEST_ID_HEADER =
     Some (unwrap_or (header_get REQUEST_ID_HEADER (cl_request c)) (ap_request_id (cl_env c)))"
  by (simp_all add: interrupted_response_def request_id_layer_def timeout_response_def TIMEOUT_STATUS_def header_insert_def Let_def)

lemma panic_headers: "rs_status (interrupted_response c Panic) = 500" "rs_headers (interrupted_response c Panic) = []"
  by (simp_all add: interrupted_response_def handle_panic_def)

lemma completed_request_id: "map_of (rs_headers (fst (build_app lib config c w))) REQUEST_ID_HEADER \<noteq> None"
  by (auto simp: build_app_def request_id_layer_def header_insert_def map_of_eq_None_iff Let_def image_iff split: prod.splits)

lemma data_handler_cut:
  assumes "router_of ep \<in> {RestRouter, GraphqlRouter}" "v \<in> set (handler_cuts lib config env ep rq w)"
  shows "v = w"
  using assms by (cases ep) (auto simp: handler_cuts_def)

lemma data_cut_accounts:
  assumes "router_of (cl_endpoint c) \<in> {RestRouter, GraphqlRouter}" "(b, v) \<in> set (call_cuts lib config c w)"
  shows "aw_accounts v = aw_accounts w"
proof -
  let ?next = "limiter_cuts config (ap_limiter (cl_env c)) (surface_of (router_of (cl_endpoint c))) (handler_cuts lib config (cl_env c) (cl_endpoint c))"
  have inner: "aw_accounts v = aw_accounts u" if "(b, v) \<in> set (?next rq u)" for rq u
  proof (cases "rate_limiter config u")
    case None
    then show ?thesis using that by (auto simp: limiter_cuts_def dest!: data_handler_cut [OF assms(1)] split: option.splits)
  next
    case (Some lim)
    then show ?thesis using that
      by (cases "rq_key rq") (auto simp: limiter_cuts_def Let_def case_prod_unfold dest!: data_handler_cut [OF assms(1)] split: sum.splits if_splits)
  qed
  have cut: "(b, v) \<in> set (auth_cuts (dl_keys (li_dash lib)) (ap_auth (cl_env c)) ?next (inner_request c) w)"
    using assms by (auto simp: call_cuts_def routed_cuts_def Let_def)
  show ?thesis
  proof (cases "extract_bearer (inner_request c)")
    case (Inr bearer)
    obtain r u where res: "auth_resolve (dl_keys (li_dash lib)) (ap_auth (cl_env c)) bearer w = (r, u)" by fastforce
    then have "aw_accounts u = aw_accounts w" by (rule auth_resolve_cases) simp_all
    then show ?thesis using cut Inr res inner by (cases r) (auto simp: auth_cuts_def)
  qed (use cut in \<open>simp add: auth_cuts_def\<close>)
qed


section \<open>What a client does not see\<close>

lemma last_handler_cut: "last (handler_cuts lib config env ep rq w) = snd (handle lib config env ep rq w)"
proof (cases ep)
  case (OauthCallback q)
  have "last (callback_cuts (li_dash lib) config (ap_oauth env) q rq w) = snd (github_callback (li_dash lib) config (ap_oauth env) q rq w)"
    by (auto simp: callback_cuts_def github_callback_def Let_def split: sum.split)
  then show ?thesis using OauthCallback by (simp add: handler_cuts_def case_prod_unfold)
qed (simp_all add: handler_cuts_def del: handle.simps)

text \<open>The account tables and Redis, which outlive the process.\<close>

definition durable :: "'a api_world_scheme \<Rightarrow> account_db \<times> redis_db option" where
  "durable w = (aw_accounts w, pw_redis w)"

lemma durable_count [simp]: "durable (count_outcome surface key outcome w) = durable w"
  by (simp add: durable_def count_outcome_def Let_def)

lemma last_limiter_cut:
  assumes "\<And>rq w. next_cuts rq w \<noteq> []" "\<And>rq w. durable (last (next_cuts rq w)) = durable (snd (next_run rq w))"
  shows "durable (snd (last (limiter_cuts config env surface next_cuts rq w))) = durable (snd (rate_limit_for config env surface next_run rq w))"
proof (cases "rate_limiter config w" "rq_key rq" rule: option.exhaust [case_product option.exhaust])
  case (Some_Some lim key)
  obtain res r' where ck: "check env (au_prefix key) surface (from_config config (au_tier key) surface) (snd lim) = (res, r')" by fastforce
  then show ?thesis using Some_Some assms
    by (cases res) (auto simp: limiter_cuts_def rate_limit_for_def Let_def case_prod_unfold last_map)
qed (use assms in \<open>auto simp: limiter_cuts_def rate_limit_for_def last_map\<close>)

lemma last_routed_cut:
  "durable (snd (last (routed_cuts lib config env ep rq w))) = durable (snd (routed lib config env ep rq w))"
proof -
  let ?h = "handler_cuts lib config env ep"
  have limiter_nonempty: "limiter_cuts config (ap_limiter env) surface ?h rq v \<noteq> []" for surface rq and v :: "'a app_world_scheme"
    by (auto simp: limiter_cuts_def Let_def cuts_nonempty split: option.split prod.split)
  note lim = last_limiter_cut [of ?h "handle lib config env ep", OF cuts_nonempty(1) arg_cong [OF last_handler_cut, of durable]]
  have auth: "durable (snd (last (auth_cuts klib aenv (limiter_cuts config (ap_limiter env) surface ?h) rq w))) =
      durable (snd (auth_middleware klib aenv (rate_limit_for config (ap_limiter env) surface (handle lib config env ep)) rq w))" for klib aenv surface
  proof (cases "extract_bearer rq")
    case (Inr bearer)
    obtain r u where res: "auth_resolve klib aenv bearer w = (r, u)" by fastforce
    have "r = Inl e \<Longrightarrow> u = w" for e using res by (auto elim: auth_resolve_cases)
    then show ?thesis using Inr res lim limiter_nonempty
      by (cases r) (auto simp: auth_cuts_def auth_middleware_def Let_def case_prod_unfold)
  qed (simp add: auth_cuts_def auth_middleware_def)
  have session: "durable (snd (last (session_cuts dlib senv ?h rq w))) =
      durable (snd (session_middleware dlib senv (handle lib config env ep) rq w))" for dlib senv
    by (simp add: session_cuts_def session_middleware_def Let_def last_map cuts_nonempty(1) last_handler_cut split: option.split sum.split)
  show ?thesis
    by (cases "router_of ep") (simp_all add: routed_cuts_def routed_def Let_def auth session last_map cuts_nonempty last_handler_cut)
qed


section \<open>Credentials over time\<close>

text \<open>The worlds of a running server, with the moments and the account tables at which its cache gained an entry.
  Between requests anything but the cache may change, and the cache may lose entries.\<close>

inductive app_run :: "app_lib \<Rightarrow> Config \<Rightarrow> int \<Rightarrow> (int \<times> account_db) list \<Rightarrow> 'a app_world_scheme \<Rightarrow> bool"
  for lib :: app_lib and config :: Config and ttl :: int where
  boot: "aw_cache w = Map.empty \<Longrightarrow> app_run lib config ttl [] w"
| event: "app_run lib config ttl hs w \<Longrightarrow> ae_ttl (ap_auth (cl_env (event_call ev))) = ttl \<Longrightarrow> run_event lib config ev w = (rs, w')
    \<Longrightarrow> app_run lib config ttl
          ((if aw_cache w' = aw_cache w then [] else [(ae_now (ap_auth (cl_env (event_call ev))), aw_accounts w)]) @ hs) w'"
| between: "app_run lib config ttl hs w \<Longrightarrow> aw_cache w' \<subseteq>\<^sub>m aw_cache w \<Longrightarrow> app_run lib config ttl hs w'"

interpretation cache_frame: inner_frame "\<lambda>w w' :: 'a app_world_scheme. aw_cache w' = aw_cache w"
  by unfold_locales (simp_all add: count_outcome_def Let_def)

lemma auth_layer_cache:
  assumes "\<And>rq w. aw_cache (snd (next_run rq w)) = aw_cache w"
  shows "aw_cache (snd (auth_middleware klib aenv next_run rq w)) = aw_cache w \<or>
    (\<exists>bearer. aw_cache (snd (auth_middleware klib aenv next_run rq w)) = aw_cache (snd (auth_resolve klib aenv bearer w)))"
proof (cases "extract_bearer rq")
  case (Inr bearer)
  obtain r u where "auth_resolve klib aenv bearer w = (r, u)" by fastforce
  then show ?thesis using Inr assms
    by (cases r) (auto simp: auth_middleware_def Let_def case_prod_unfold intro!: exI [of _ bearer])
qed (simp add: auth_middleware_def)

lemma auth_cut_cache:
  assumes "\<And>rq w b v. (b, v) \<in> set (next_cuts rq w) \<Longrightarrow> aw_cache v = aw_cache w" "(b, v) \<in> set (auth_cuts klib aenv next_cuts rq w)"
  shows "aw_cache v = aw_cache w \<or> (\<exists>bearer. aw_cache v = aw_cache (snd (auth_resolve klib aenv bearer w)))"
proof (cases "extract_bearer rq")
  case (Inr bearer)
  obtain r u where res: "auth_resolve klib aenv bearer w = (r, u)" by fastforce
  show ?thesis using assms Inr res by (cases r) (auto simp: auth_cuts_def intro!: exI [of _ bearer])
qed (use assms in \<open>simp add: auth_cuts_def\<close>)

lemma event_cache:
  assumes "run_event lib config ev w = (rs, w')"
  defines "aenv \<equiv> ap_auth (cl_env (event_call ev))"
  shows "aw_cache w' = aw_cache w \<or> (\<exists>bearer. aw_cache w' = aw_cache (snd (auth_resolve (dl_keys (li_dash lib)) aenv bearer w)))"
proof (cases ev)
  case (Served c)
  have "aw_cache w' = aw_cache (snd (routed lib config (cl_env c) (cl_endpoint c) (inner_request c) w))"
    using build_app_world [of lib config c w] assms(1) Served by auto
  moreover have "aw_cache (snd (auth_middleware klib aenv (rate_limit_for config lenv s (handle lib config env ep)) rq w)) = aw_cache w \<or>
      (\<exists>bearer. aw_cache (snd (auth_middleware klib aenv (rate_limit_for config lenv s (handle lib config env ep)) rq w)) =
         aw_cache (snd (auth_resolve klib aenv bearer w)))" for klib lenv s env ep rq
    by (rule auth_layer_cache) (rule cache_frame.limited, rule cache_frame.handled)
  ultimately show ?thesis using Served
    by (cases "router_of (cl_endpoint c)") (simp_all add: routed_def aenv_def cache_frame.handled cache_frame.in_session del: handle.simps)
next
  case (Interrupted c why n)
  let ?h = "handler_cuts lib config (cl_env c) (cl_endpoint c)"
  obtain b where cut: "(b, w') \<in> set (routed_cuts lib config (cl_env c) (cl_endpoint c) (inner_request c) w)"
    using cut_at_mem [of lib config c n w] assms(1) Interrupted unfolding call_cuts_def by (metis prod.collapse run_event.simps(2) snd_conv)
  show ?thesis
  proof (cases "router_of (cl_endpoint c) \<in> {RestRouter, GraphqlRouter}")
    case True
    then have "(b, w') \<in> set (auth_cuts (dl_keys (li_dash lib)) aenv
        (limiter_cuts config (ap_limiter (cl_env c)) (surface_of (router_of (cl_endpoint c))) ?h) (inner_request c) w)"
      using cut Interrupted by (auto simp: routed_cuts_def Let_def aenv_def)
    then show ?thesis by (intro auth_cut_cache) (rule cache_frame.limiter_cut [OF cache_frame.handler_cut])
  next
    case False
    then have "aw_cache w' = aw_cache w"
      using cut cache_frame.session_cut [of ?h b w' "li_dash lib" "ap_session (cl_env c)" "inner_request c" w] cache_frame.handler_cut
      by (cases "router_of (cl_endpoint c)") (auto simp: routed_cuts_def Let_def dest: cache_frame.handler_cut)
    then show ?thesis ..
  qed
qed

lemma app_run_auth: "app_run lib config ttl hs w \<Longrightarrow> auth_run (dl_keys (li_dash lib)) ttl hs w"
proof (induction rule: app_run.induct)
  case (event hs w ev rs w')
  let ?aenv = "ap_auth (cl_env (event_call ev))"
  show ?case
  proof (cases "aw_cache w' = aw_cache w")
    case True
    then show ?thesis using auth_run.elsewhere [OF event.IH, of w'] by simp
  next
    case False
    then obtain bearer where cache: "aw_cache w' = aw_cache (snd (auth_resolve (dl_keys (li_dash lib)) ?aenv bearer w))"
      using event_cache [OF event.hyps(3)] by blast
    have "auth_run (dl_keys (li_dash lib)) ttl ((ae_now ?aenv, aw_accounts w) # hs) (snd (auth_resolve (dl_keys (li_dash lib)) ?aenv bearer w))"
      by (rule auth_run.resolved [OF event.IH event.hyps(2) surjective_pairing])
    then show ?thesis using False auth_run.elsewhere [of _ _ _ _ w'] cache by simp
  qed
qed (auto intro: auth_run.start auth_run.elsewhere)


end
