(* ===== verification/Documented.thy ===== *)
theory Documented
  imports Routes
begin

text \<open>
  What the OpenAPI document promises of answers.  \<open>fails_in\<close> bounds the statuses of the errors of a handler and
  is derived rule by rule along its code; every answer of a documented operation is then compared with the
  statuses and schemas of its annotation.
\<close>

section \<open>Statuses of errors\<close>

definition fails_in :: "nat set \<Rightarrow> ApiError + 'a \<Rightarrow> bool" where
  "fails_in S r = (case r of Inl e \<Rightarrow> ApiError_status e \<in> S | Inr _ \<Rightarrow> True)"

named_theorems fails \<open>rules that derive the statuses of a result from those of its parts\<close>

lemma fails_values [fails]:
  "fails_in S (Inr x)" "ApiError_status e \<in> S \<Longrightarrow> fails_in S (Inl e)"
  by (simp_all add: fails_in_def)

lemma fails_and_then [fails]: "fails_in S r \<Longrightarrow> (\<And>x. fails_in S (k x)) \<Longrightarrow> fails_in S (and_then r k)"
  by (cases r) (simp_all add: fails_in_def)

lemma fails_parts [fails]:
  "fails_in S r \<Longrightarrow> fails_in S (map_ok f r)"
  "(\<And>e. ApiError_status (g e) \<in> S) \<Longrightarrow> fails_in S (map_err g q)"
  "ApiError_status e \<in> S \<Longrightarrow> fails_in S (ok_or found e)"
  "(c \<Longrightarrow> fails_in S r) \<Longrightarrow> (\<not> c \<Longrightarrow> fails_in S r') \<Longrightarrow> fails_in S (if c then r else r')"
  "(\<And>x. o' = Some x \<Longrightarrow> fails_in S (f' x)) \<Longrightarrow> fails_in S (transpose_opt (map_option f' o'))"
  by (auto simp: fails_in_def map_ok_def map_err_def ok_or_def transpose_opt_def split: sum.splits option.splits)

lemma fails_collect [fails]: "(\<And>x. fails_in S (f x)) \<Longrightarrow> fails_in S (collect_results f xs)"
  by (induction xs) (auto intro!: fails)

lemma fails_cases [fails]:
  "(\<And>x y. p = (x, y) \<Longrightarrow> fails_in S (f x y)) \<Longrightarrow> fails_in S (case p of (x, y) \<Rightarrow> f x y)"
  "fails_in S r \<Longrightarrow> (\<And>x. fails_in S (g x)) \<Longrightarrow> fails_in S (case m of None \<Rightarrow> r | Some x \<Rightarrow> g x)"
  by (cases p, simp) (cases m, simp_all)

lemma fails_slice [fails]: "500 \<in> S \<Longrightarrow> fails_in S (try_from_slice b)"
  by (simp add: try_from_slice_def fails_in_def)

lemma from_db_status [simp]: "ApiError_status (from_db e) = 500"
  by (simp add: from_db_def)

lemma block_fails: "fails_in {404, 500} (blocks_route_latest nonce_str fault d)"
  "fails_in {400, 404, 500} (blocks_route_by_number nonce_str fault d raw)"
  unfolding blocks_route_latest_def blocks_route_by_number_def block_response_def parse_block_number_def
  by (intro fails; simp)+

lemma proof_fails: "fails_in {400, 404, 500, 503} (passthrough hex_decode ckb raw)"
  unfolding passthrough_def parse_tx_hash_def Let_def by (intro fails; simp)

lemma cell_fails: "fails_in {500} (render_cell keep net row)"
  unfolding render_cell_def render_script_def render_consumed_def hash_type_label_def Let_def by (intro fails; simp)

lemma cells_fails: "fails_in {400, 500} (cells_list lib config snap fault d params)"
proof -
  have "fails_in {400, 500} (render_cell keep net row)" for keep net row using cell_fails [of keep net row] by (auto simp: fails_in_def split: sum.splits)
  then show ?thesis
    unfolding cells_list_def parse_filter_def parse_script_hash_def parse_limit_def decode_cells_cursor_def build_page_def Let_def
    by (intro fails; simp)
qed

section \<open>Schemas of answers\<close>

fun admin_schema :: "admin_body \<Rightarrow> string option" where
  "admin_schema (KeysBody _) = Some ''ListKeysResponse''"
| "admin_schema (KeyBody _) = Some ''CreateKeyResponse''"
| "admin_schema _ = None"

text \<open>The documented schema of what a handler returns.\<close>

fun body_schema :: "app_body \<Rightarrow> string option" where
  "body_schema (LiveBody _) = Some ''HealthResponse''"
| "body_schema (ReadyBody _) = Some ''ReadyResponse''"
| "body_schema (StatsBody _) = Some ''StatsResponse''"
| "body_schema (BlockBody _) = Some ''BlockResponse''"
| "body_schema (CellsBody _) = Some ''CellsPage''"
| "body_schema (ProofBody _) = Some ''ProofResponse''"
| "body_schema (AdminBody b) = admin_schema b"
| "body_schema _ = None"

fun response_schema :: "app_body body \<Rightarrow> string option" where
  "response_schema (ErrorJson _) = Some ''ErrorEnvelope''"
| "response_schema (Payload b) = body_schema b"
| "response_schema NoBody = None"

definition answer_of :: "app_body http_response \<Rightarrow> nat \<times> string option" where
  "answer_of rs = (rs_status rs, response_schema (rs_body rs))"

lemma answer_error: "answer_of (error_response e) = (ApiError_status e, Some ''ErrorEnvelope'')"
  "answer_of (map_response f (error_response e)) = (ApiError_status e, Some ''ErrorEnvelope'')"
  by (simp_all add: answer_of_def error_response_def into_response_def map_response_def)

lemma answer_result:
  assumes "fails_in S r" "\<And>x. body_schema (f x) = Some s"
  shows "answer_of (result_response (map_ok f r)) \<in> insert (200, Some s) ((\<lambda>n. (n, Some ''ErrorEnvelope'')) ` S)"
  using assms by (cases r) (auto simp: result_response_def answer_error fails_in_def, simp add: answer_of_def plain_response_def)

text \<open>What the handlers of keys answer.\<close>

definition key_answers :: "nat set \<Rightarrow> nat \<times> string option \<Rightarrow> ApiError + admin_reply \<Rightarrow> bool" where
  "key_answers S ok r = (case r of Inl e \<Rightarrow> ApiError_status e \<in> S | Inr reply \<Rightarrow> (ar_status reply, admin_schema (ar_body reply)) = ok)"

lemma key_handlers:
  "key_answers {500} (200, Some ''ListKeysResponse'') (fst (list_keys env auth w))"
  "key_answers {500} (201, Some ''CreateKeyResponse'') (fst (create_key lib env auth body w))"
  "key_answers {404, 500} (200, Some ''CreateKeyResponse'') (fst (rotate_key lib env auth raw w))"
  "key_answers {404, 500} (204, None) (fst (revoke_key lib env auth raw w))"
  by (auto simp: key_answers_def list_keys_def create_key_def rotate_key_def revoke_key_def with_accounts_def parse_uuid_def ok_reply_def
      and_then_def ok_or_def map_err_def Let_def split: sum.splits option.splits prod.splits)

lemma answer_reply:
  assumes "key_answers S ok r"
  shows "answer_of (map_response AdminBody (reply_response r)) \<in> insert ok ((\<lambda>n. (n, Some ''ErrorEnvelope'')) ` S)"
  using assms by (cases r) (auto simp: key_answers_def reply_response_def answer_error, auto simp: answer_of_def map_response_def)

text \<open>What a handler answers.\<close>

lemma admin_answer:
  assumes "\<And>auth. key_answers S ok (fst (admin_handle (li_dash lib) config (ap_admin env) auth req w))" "500 \<in> S"
  shows "answer_of (fst (handle lib config env (AdminCall req) rq w)) \<in> insert ok ((\<lambda>n. (n, Some ''ErrorEnvelope'')) ` S)"
  using answer_reply [OF assms(1)] assms(2) by (auto simp: admin_service_def answer_error case_prod_unfold split: option.splits)

lemma key_answer:
  "answer_of (fst (handle lib config env (AdminCall ListKeys) rq w)) \<in> {(200, Some ''ListKeysResponse''), (500, Some ''ErrorEnvelope'')}"
  "answer_of (fst (handle lib config env (AdminCall (CreateKey body)) rq w)) \<in> {(201, Some ''CreateKeyResponse''), (500, Some ''ErrorEnvelope'')}"
  "answer_of (fst (handle lib config env (AdminCall (RotateKey raw)) rq w))
     \<in> {(200, Some ''CreateKeyResponse''), (404, Some ''ErrorEnvelope''), (500, Some ''ErrorEnvelope'')}"
  "answer_of (fst (handle lib config env (AdminCall (RevokeKey raw)) rq w)) \<in> {(204, None), (404, Some ''ErrorEnvelope''), (500, Some ''ErrorEnvelope'')}"
  using admin_answer [of "{500}" "(200, Some ''ListKeysResponse'')" lib config env ListKeys w rq]
    admin_answer [of "{500}" "(201, Some ''CreateKeyResponse'')" lib config env "CreateKey body" w rq]
    admin_answer [of "{404, 500}" "(200, Some ''CreateKeyResponse'')" lib config env "RotateKey raw" w rq]
    admin_answer [of "{404, 500}" "(204, None)" lib config env "RevokeKey raw" w rq]
  by (simp_all add: key_handlers del: handle.simps)

lemma data_answers:
  "answer_of (fst (handle lib config env BlocksLatest rq w)) \<in> {(200, Some ''BlockResponse''), (404, Some ''ErrorEnvelope''), (500, Some ''ErrorEnvelope'')}"
  "answer_of (fst (handle lib config env (BlocksByNumber raw) rq w))
     \<in> {(200, Some ''BlockResponse''), (400, Some ''ErrorEnvelope''), (404, Some ''ErrorEnvelope''), (500, Some ''ErrorEnvelope'')}"
  "answer_of (fst (handle lib config env (CellsList params) rq w))
     \<in> {(200, Some ''CellsPage''), (400, Some ''ErrorEnvelope''), (500, Some ''ErrorEnvelope'')}"
  "answer_of (fst (handle lib config env (ProofsGet raw) rq w))
     \<in> {(200, Some ''ProofResponse''), (400, Some ''ErrorEnvelope''), (404, Some ''ErrorEnvelope''), (500, Some ''ErrorEnvelope''), (503, Some ''ErrorEnvelope'')}"
  using answer_result [OF block_fails(1), of BlockBody "''BlockResponse''" "li_nonce_str lib" "ap_fault env" "pp_index w"]
    answer_result [OF block_fails(2), of BlockBody "''BlockResponse''" "li_nonce_str lib" "ap_fault env" "pp_index w" raw]
    answer_result [OF cells_fails, of CellsBody "''CellsPage''" "li_cursor lib" config "sv_tip w" "ap_fault env" "pp_index w" params]
    answer_result [OF proof_fails, of ProofBody "''ProofResponse''" "li_hex_decode lib" "ap_node env" raw]
  by simp_all

lemma status_answers:
  "answer_of (fst (handle lib config env HealthLive rq w)) \<in> {(200, Some ''HealthResponse'')}"
  "answer_of (fst (handle lib config env HealthReady rq w)) \<in> {(200, Some ''ReadyResponse''), (503, Some ''ReadyResponse'')}"
  "answer_of (fst (handle lib config env StatsGet rq w)) \<in> {(200, Some ''StatsResponse'')}"
  by (simp_all add: answer_of_def plain_response_def readiness_def Let_def)

lemmas handler_answers = key_answer data_answers status_answers

lemma doc_lookup: "(f, d) \<in> set ApiDoc \<longleftrightarrow> map_of ApiDoc f = Some d"
  by (rule map_of_eq_Some_iff [symmetric]) (simp add: ApiDoc_def)

lemma doc_entry: "(f, d) \<in> set ApiDoc \<Longrightarrow> operation ep = Some f \<Longrightarrow> Option.bind (operation ep) (map_of ApiDoc) = Some d"
  by (simp add: doc_lookup)

text \<open>The answers of every documented handler are among its annotation's.\<close>

definition documented :: "doc_path \<Rightarrow> (nat \<times> string option) set" where
  "documented d = insert (500, Some ''ErrorEnvelope'') (set (dp_responses d))"

lemma handler_answer:
  assumes "(f, d) \<in> set ApiDoc" "operation ep = Some f"
  shows "answer_of (fst (handle lib config env ep rq w)) \<in> documented d"
  by (insert doc_entry [OF assms], cases ep rule: operation.cases; simp add: ApiDoc_def del: handle.simps; hypsubst?;
      rule handler_answers [THEN rev_subsetD]; simp add: documented_def doc_defs)

section \<open>Answers of the layers\<close>

text \<open>What the layers of a router answer in place of a handler, in the envelope of errors.\<close>

definition layer_statuses :: "router \<Rightarrow> nat set" where
  "layer_statuses rt = insert 500 (case rt of RestRouter \<Rightarrow> {401, 429, 503} | GraphqlRouter \<Rightarrow> {401, 429, 503} | AdminRouter \<Rightarrow> {401} | _ \<Rightarrow> {})"

lemma limiter_answer:
  "answer_of (fst (rate_limit_for config env surface next_run rq w)) \<in> (\<lambda>n. (n, Some ''ErrorEnvelope'')) ` {429, 500, 503} \<or>
   (\<exists>v. answer_of (fst (rate_limit_for config env surface next_run rq w)) = answer_of (fst (next_run rq v)))"
proof -
  have hdr: "answer_of (attach_rate_limit_headers dec rs) = answer_of rs" "answer_of (header_insert k v rs) = answer_of rs" for dec k v rs
    by (simp_all add: answer_of_def attach_rate_limit_headers_def header_insert_def)
  show ?thesis
    by (auto simp: rate_limit_for_def Let_def hdr answer_error case_prod_unfold split: option.splits sum.splits)
qed

lemma auth_answer:
  "answer_of (fst (auth_middleware klib aenv next_run rq w)) \<in> (\<lambda>n. (n, Some ''ErrorEnvelope'')) ` {401, 500} \<or>
   (\<exists>rq' v. answer_of (fst (auth_middleware klib aenv next_run rq w)) = answer_of (fst (next_run rq' v)))"
proof (cases "extract_bearer rq")
  case (Inl e)
  then have "ApiError_status e = 401"
    by (auto simp: extract_bearer_def and_then_def ok_or_def split: sum.splits option.splits if_splits)
  then show ?thesis using Inl by (simp add: auth_middleware_def answer_error)
next
  case (Inr bearer)
  obtain r u where res: "auth_resolve klib aenv bearer w = (r, u)" by fastforce
  have "ApiError_status e \<in> {401, 500}" if "r = Inl e" for e using res that by (auto elim: auth_resolve_cases)
  then show ?thesis using Inr res
    by (cases r) (auto simp: auth_middleware_def answer_error Let_def case_prod_unfold, auto simp: answer_of_def)
qed

lemma session_answer:
  "answer_of (fst (session_middleware dlib senv next_run rq w)) \<in> (\<lambda>n. (n, Some ''ErrorEnvelope'')) ` {401, 500} \<or>
   (\<exists>rq' v. answer_of (fst (session_middleware dlib senv next_run rq w)) = answer_of (fst (next_run rq' v)))"
  by (auto simp: session_middleware_def answer_error Let_def dest: session_resolve_Inl split: option.splits sum.splits)

lemma routed_answer:
  "answer_of (fst (routed lib config env ep rq w)) \<in> (\<lambda>n. (n, Some ''ErrorEnvelope'')) ` layer_statuses (router_of ep) \<or>
   (\<exists>rq' (v :: 'a app_world_scheme). answer_of (fst (routed lib config env ep rq w)) = answer_of (fst (handle lib config env ep rq' v)))"
  for w :: "'a app_world_scheme"
proof -
  have limited: "answer_of (fst (auth_middleware klib aenv (rate_limit_for config lenv s (handle lib config env ep)) rq w))
        \<in> (\<lambda>n. (n, Some ''ErrorEnvelope'')) ` {401, 429, 500, 503} \<or>
      (\<exists>rq' (v :: 'a app_world_scheme). answer_of (fst (auth_middleware klib aenv (rate_limit_for config lenv s (handle lib config env ep)) rq w)) =
         answer_of (fst (handle lib config env ep rq' v)))" for klib aenv lenv s
    using auth_answer [of klib aenv "rate_limit_for config lenv s (handle lib config env ep)" rq w]
  proof (elim disjE exE)
    fix rq' and v :: "'a app_world_scheme"
    assume eq: "answer_of (fst (auth_middleware klib aenv (rate_limit_for config lenv s (handle lib config env ep)) rq w)) =
      answer_of (fst (rate_limit_for config lenv s (handle lib config env ep) rq' v))"
    show ?thesis unfolding eq using limiter_answer [of config lenv s "handle lib config env ep" rq' v] by (auto simp del: handle.simps)
  qed blast
  show ?thesis
  proof (cases "router_of ep")
    case RestRouter
    then show ?thesis using limited [of "dl_keys (li_dash lib)" "ap_auth env" "ap_limiter env"]
      by (auto simp: routed_def layer_statuses_def simp del: handle.simps)
  next
    case GraphqlRouter
    then show ?thesis using limited [of "dl_keys (li_dash lib)" "ap_auth env" "ap_limiter env"]
      by (auto simp: routed_def layer_statuses_def simp del: handle.simps)
  next
    case AdminRouter
    then show ?thesis using session_answer [of "li_dash lib" "ap_session env" "handle lib config env ep" rq w]
      by (simp add: routed_def layer_statuses_def del: handle.simps) blast
  qed (auto simp: routed_def simp del: handle.simps)
qed

lemma rest_documents:
  assumes "(f, d) \<in> set ApiDoc" "operation ep = Some f" "router_of ep = RestRouter"
  shows "fst ` set (dp_responses d) \<inter> {401, 429} = {}"
  using doc_entry [OF assms(1,2)] assms(3) by (cases ep) (auto simp: ApiDoc_def doc_defs)


end
