(* ===== verification/DashboardSamples.thy ===== *)
theory DashboardSamples
  imports Dashboard
begin

text \<open>
  Two users, one session, one key and one pending sign-in: concrete runs of the dashboard that
  instantiate its theorems.
\<close>

section \<open>A sample dashboard\<close>

definition demo_lib :: dash_lib where
  "demo_lib = \<lparr>dl_sha256 = ascii_bytes, dl_hex_encode = hex_lower, dl_base64 = hex_lower,
     dl_uuid_parse = (\<lambda>s. map_option nat (u64_from_str s)), dl_uuid_str = nat_dec, dl_keys = ref_key_lib\<rparr>"

definition demo_config :: Config where
  "demo_config = (default_config ''postgres://db'' ''http://node'')\<lparr>dashboard_oauth_github_client_id := Some ''id'',
     dashboard_oauth_github_client_secret := Some ''secret'', dashboard_oauth_github_redirect_url := Some ''https://app/cb''\<rparr>"

definition demo_world :: api_world where
  "demo_world = \<lparr>aw_cache = Map.empty,
     aw_accounts = \<lparr>ac_users = [alice, bob],
       ac_sessions = [\<lparr>se_token_hash = hash_token demo_lib ''aa'', se_user_id = 1, se_created_at = 0, se_expires_at = 100,
                       se_last_seen_at = 0, se_user_agent = None\<rparr>],
       ac_keys = [sample_row\<lparr>ak_user_id := 2\<rparr>], ac_webhooks = []\<rparr>,
     aw_pending = [], pw_seen = [],
     pw_redis = Some (no_buckets\<lparr>rd_oauth := [oauth_state_key ''0b'' \<mapsto> 600000]\<rparr>)\<rparr>"

definition demo_request :: "string \<Rightarrow> http_request" where
  "demo_request cookie = \<lparr>rq_method = ''POST'', rq_path = ''/admin'', rq_headers = [(''cookie'', cookie)], rq_key = None, rq_session = None\<rparr>"

definition demo_env :: admin_env where
  "demo_env = \<lparr>ad_now = 10, ad_fault = False, ad_fresh_id = 9, ad_prefix_bytes = [5, 6, 7, 8], ad_secret_bytes = replicate 16 9,
     ad_salt = [], ad_net = sample_net\<rparr>"

definition demo_call :: "string \<Rightarrow> admin_request \<Rightarrow> admin_call" where
  "demo_call cookie action = \<lparr>al_request = demo_request cookie, al_session_env = \<lparr>sn_now = 10, sn_fault_session = False, sn_fault_user = False\<rparr>,
     al_env = demo_env, al_action = action\<rparr>"

lemma demo_ok: "account_ok (aw_accounts demo_world)" by code_simp

lemma demo_cookie: "cookie_value (demo_request ''cellora_session=aa'') COOKIE_NAME = Some ''aa''" by code_simp

lemma demo_none: "none_as demo_lib demo_config 2 [demo_call ''cellora_session=aa'' (RevokeKey ''7''), demo_call ''cellora_session=aa'' ListKeys] demo_world"
  by code_simp

theorem dashboard_isolation_witness:
  "account_of 2 (aw_accounts (run_calls demo_lib demo_config
      [demo_call ''cellora_session=aa'' (RevokeKey ''7''), demo_call ''cellora_session=aa'' ListKeys] demo_world)) =
   account_of 2 (aw_accounts demo_world)"
  using dashboard_isolation [OF demo_ok demo_none] by simp

lemma demo_step_status:
  "rs_status (fst (admin_step demo_lib demo_config (demo_call ''cellora_session=aa'' ListKeys) demo_world)) = 200"
  "rs_status (fst (admin_step demo_lib demo_config (demo_call ''cellora_session=aa'' SignOut) demo_world)) = 204"
  by code_simp+

theorem key_listing_is_own_witness:
  "\<exists>rows. rs_body (fst (admin_step demo_lib demo_config (demo_call ''cellora_session=aa'' ListKeys) demo_world)) =
     Payload (KeysBody (map key_view rows))"
  using key_listing_is_own [OF surjective_pairing _ demo_step_status(1)] by (auto simp: demo_call_def)

lemma demo_caller:
  "map_option (\<lambda>auth. us_id (as_user auth)) (caller demo_lib (demo_call ''cellora_session=aa'' (RevokeKey ''7'')) demo_world) = Some 1"
  by code_simp

theorem foreign_key_ids_look_unknown_witness:
  "fst (admin_step demo_lib demo_config (demo_call ''cellora_session=aa'' (RevokeKey ''7'')) demo_world) =
     error_response (NotFound ''api key not found'')"
proof -
  obtain auth where auth: "caller demo_lib (demo_call ''cellora_session=aa'' (RevokeKey ''7'')) demo_world = Some auth" "us_id (as_user auth) = 1"
    using demo_caller by auto
  have "al_env (demo_call ''cellora_session=aa'' (RevokeKey ''7'')) = demo_env" by (simp add: demo_call_def)
  moreover obtain issued where "generate (dl_keys demo_lib) (ad_prefix_bytes demo_env) (ad_secret_bytes demo_env) (ad_salt demo_env) = Inr issued"
    by (simp add: generate_def demo_lib_def ref_key_lib_def Let_def and_then_def map_err_def)
  ultimately show ?thesis
    using foreign_key_ids_look_unknown [OF surjective_pairing auth(1), of "''7''" issued] auth(2)
    by (simp add: demo_call_def demo_env_def demo_world_def sample_row_def)
qed

definition demo_oauth_env :: oauth_env where
  "demo_oauth_env = \<lparr>oe_now = 50, oe_cookie_now = 50, oe_redis_now = 0, oe_state_bytes = [11], oe_token_bytes = [12], oe_fresh_id = 3,
     oe_redis_fault = False, oe_redis_del_fault = False, oe_upsert_fault = False, oe_session_fault = False,
     oe_github = \<lparr>gh_send = (\<lambda>r. Some (if gr_url r = ''https://api.github.com/user/emails'' then 403 else 200, [])),
                  gh_token_json = (\<lambda>b. Some ''t''), gh_profile_json = (\<lambda>b. Some \<lparr>gp_id = 44, gp_login = ''carol'', gp_avatar_url = None\<rparr>),
                  gh_emails_json = (\<lambda>b. Some [])\<rparr>\<rparr>"

definition demo_query :: GithubCallback where
  "demo_query = \<lparr>gq_code = Some ''c'', gq_state = Some ''0b'', gq_error = None\<rparr>"

lemma demo_checks:
  "callback_checks demo_config demo_query (demo_request ''cellora_oauth_state=0b'') (pw_redis demo_world) =
     Inr (''c'', ''0b'', ''id'', ''secret'', ''https://app/cb'', no_buckets\<lparr>rd_oauth := [oauth_state_key ''0b'' \<mapsto> 600000]\<rparr>)"
proof -
  have "read_cookie (demo_request ''cellora_oauth_state=0b'') OAUTH_STATE_COOKIE = Some ''0b''" by code_simp
  then show ?thesis
    by (simp add: callback_checks_def demo_query_def demo_config_def demo_world_def default_config_def and_then_def ok_or_def map_ok_def)
qed

lemma demo_signed_in:
  obtains reply w' where
    "github_callback demo_lib demo_config demo_oauth_env demo_query (demo_request ''cellora_oauth_state=0b'') demo_world = (Inr reply, w')"
proof -
  have fresh: "hash_token demo_lib (hex_lower [12]) \<noteq> hash_token demo_lib ''aa''" by code_simp
  have "\<exists>reply w'. github_callback demo_lib demo_config demo_oauth_env demo_query (demo_request ''cellora_oauth_state=0b'') demo_world = (Inr reply, w')"
    unfolding github_callback_def demo_checks using fresh
    by (simp add: demo_oauth_env_def oauth_pending_def github_identity_def exchange_github_code_def fetch_github_profile_def send_ok_def github_get_def upsert_from_github_def demo_world_def alice_def bob_def
        user_ids_def sessions_insert_def generate_token_def and_then_def ok_or_def Let_def, simp add: demo_lib_def)
  then show thesis using that by blast
qed

theorem oauth_state_bound_and_single_use_witness:
  "\<exists>reply w' err. github_callback demo_lib demo_config demo_oauth_env demo_query (demo_request ''cellora_oauth_state=0b'') demo_world = (Inr reply, w') \<and>
     github_callback demo_lib demo_config demo_oauth_env demo_query (demo_request ''cellora_oauth_state=0b'') w' = (Inl err, w')"
proof -
  obtain reply w' where cb: "github_callback demo_lib demo_config demo_oauth_env demo_query (demo_request ''cellora_oauth_state=0b'') demo_world = (Inr reply, w')"
    by (rule demo_signed_in)
  from oauth_state_bound_and_single_use [OF this refl] cb show ?thesis by blast
qed

theorem sign_in_round_trip_witness:
  "\<exists>reply w' auth. github_callback demo_lib demo_config demo_oauth_env demo_query (demo_request ''cellora_oauth_state=0b'') demo_world = (Inr reply, w') \<and>
     caller demo_lib (demo_call (echoed_cookie (hd (ar_cookies reply))) Me) w' = Some auth"
proof -
  obtain reply w' where cb: "github_callback demo_lib demo_config demo_oauth_env demo_query (demo_request ''cellora_oauth_state=0b'') demo_world = (Inr reply, w')"
    by (rule demo_signed_in)
  have "cookie_token (dl_base64 demo_lib (oe_token_bytes demo_oauth_env))" by code_simp
  then show ?thesis
    using sign_in_round_trip [OF demo_ok cb _, of "demo_call (echoed_cookie (hd (ar_cookies reply))) Me"] cb
    by (fastforce simp: demo_call_def demo_request_def header_get_def demo_oauth_env_def demo_config_def default_config_def)
qed

theorem sign_out_ends_session_witness:
  "caller demo_lib (demo_call ''cellora_session=aa'' Me) (snd (admin_step demo_lib demo_config (demo_call ''cellora_session=aa'' SignOut) demo_world)) = None"
  using sign_out_ends_session [OF surjective_pairing _ demo_step_status(2)] by (simp add: demo_call_def)

end
