(* ===== verification/GraphQL.thy ===== *)
theory GraphQL
  imports CellsRoute BlocksRoute
begin

text \<open>
  \<^verbatim>\<open>crates/api/src/graphql.rs\<close>: the query resolvers of the GraphQL surface (the subscriptions are in
  \<open>ApiEvents\<close>).  An
  \<^verbatim>\<open>async_graphql::Error\<close> is its message; the \<^verbatim>\<open>Display\<close> of a database error, the rendering of nonces and
  RFC 3339 timestamps are arguments.
\<close>

type_synonym gql_error = string

record gql_lib =
  gl_cursor :: cursor_lib
  gl_db_display :: "DbError \<Rightarrow> string"
  gl_nonce_str :: "int \<Rightarrow> string"
  gl_rfc3339 :: "timestamp \<Rightarrow> string"

record GBlock =
  gb_number :: i64
  gb_hash :: string
  gb_parent_hash :: string
  gb_timestamp_ms :: i64
  gb_epoch :: i64
  gb_transactions_count :: i32
  gb_proposals_count :: i32
  gb_uncles_count :: i32
  gb_nonce :: string
  gb_dao :: string
  gb_indexed_at :: string

record CellsInput =
  in_lock_hash :: "string option"
  in_type_hash :: "string option"
  in_is_live :: "bool option"
  in_limit :: "u32 option"
  in_cursor :: "string option"
  in_include_data :: "bool option"

record GScript =
  gs_code_hash :: string
  gs_hash_type :: string
  gs_args :: string

record ConsumedBy =
  gc_by_tx_hash :: string
  gc_by_input_index :: i32
  gc_by_block_number :: i64

record GraphCell =
  gc_tx_hash :: string
  gc_output_index :: i32
  gc_block_number :: i64
  gc_block_hash :: string
  gc_capacity_shannons :: i64
  gc_lock :: GScript
  gc_lock_hash :: string
  gc_lock_kind :: "string option"
  gc_type_script :: "GScript option"
  gc_type_hash :: "string option"
  gc_type_kind :: "string option"
  gc_data :: "string option"
  gc_is_live :: bool
  gc_consumed_by :: "ConsumedBy option"

record Meta =
  me_indexer_tip :: "i64 option"
  me_node_tip :: "i64 option"

record CellsConnection =
  cc_data :: "GraphCell list"
  cc_next_cursor :: "string option"
  cc_meta :: Meta

record GStats =
  gt_indexer_tip :: "i64 option"
  gt_node_tip :: "i64 option"
  gt_lag_blocks :: "i64 option"
  gt_snapshot_age_seconds :: i64
  gt_is_stale :: bool

section \<open>Helpers\<close>

definition hex_prefixed :: "bytes \<Rightarrow> string" where
  "hex_prefixed bytes = push_bytes ''0x'' bytes"

definition map_db_err :: "gql_lib \<Rightarrow> DbError \<Rightarrow> gql_error" where
  "map_db_err lib err = ''database error: '' @ gl_db_display lib err"

definition api_to_gql :: "ApiError \<Rightarrow> gql_error" where
  "api_to_gql err = ApiError_display err"

definition gql_hash_type_label :: "i16 \<Rightarrow> gql_error + string" where
  "gql_hash_type_label raw =
     (if raw = 0 then Inr ''data''
      else if raw = 1 then Inr ''type''
      else if raw = 2 then Inr ''data1''
      else if raw = 3 then Inr ''data2''
      else Inl (''unknown hash_type value in database: '' @ int_dec raw))"

definition gql_parse_script_hash :: "gql_lib \<Rightarrow> string \<Rightarrow> string \<Rightarrow> gql_error + bytes" where
  "gql_parse_script_hash lib field raw =
     and_then (ok_or (decode_prefixed (crate_hex_decode (gl_cursor lib)) raw)
                 (quoted field @ '' must be 0x-prefixed hex''))
       (\<lambda>bytes.
     if length bytes \<noteq> 32
     then Inl (quoted field @ '' must be exactly 32 bytes (got '' @ nat_dec (length bytes) @ '')'')
     else Inr bytes)"

definition gql_parse_filter :: "gql_lib \<Rightarrow> CellsInput \<Rightarrow> gql_error + ScriptFilter" where
  "gql_parse_filter lib input =
     (case (in_lock_hash input, in_type_hash input) of
        (Some _, Some _) \<Rightarrow>
          Inl (''specify exactly one of '' @ quoted ''lockHash'' @ '' or '' @ quoted ''typeHash'')
      | (None, None) \<Rightarrow>
          Inl (''one of '' @ quoted ''lockHash'' @ '' or '' @ quoted ''typeHash'' @ '' is required'')
      | (Some raw, None) \<Rightarrow> map_ok LockFilter (gql_parse_script_hash lib ''lockHash'' raw)
      | (None, Some raw) \<Rightarrow> map_ok TypeFilter (gql_parse_script_hash lib ''typeHash'' raw))"

definition gql_parse_limit :: "u32 option \<Rightarrow> Config \<Rightarrow> gql_error + u32" where
  "gql_parse_limit raw config =
     (case raw of
        None \<Rightarrow> Inr (api_default_page_size config)
      | Some n \<Rightarrow>
          if n = 0 then Inl (quoted ''limit'' @ '' must be at least 1'')
          else if n > api_max_page_size config
          then Inl (quoted ''limit'' @ '' must not exceed '' @ int_dec (api_max_page_size config))
          else Inr n)"

definition gql_render_script :: "bytes \<Rightarrow> i16 \<Rightarrow> bytes \<Rightarrow> gql_error + GScript" where
  "gql_render_script code_hash hash_type args =
     and_then (gql_hash_type_label hash_type) (\<lambda>ht.
       Inr \<lparr>gs_code_hash = hex_prefixed code_hash, gs_hash_type = ht, gs_args = hex_prefixed args\<rparr>)"

definition gql_consumed :: "Cell \<Rightarrow> ConsumedBy option" where
  "gql_consumed row =
     (case (c_consumed_by_tx_hash row, c_consumed_by_input_index row,
            c_consumed_at_block_number row) of
        (Some tx, Some input_index, Some block_number) \<Rightarrow>
          Some \<lparr>gc_by_tx_hash = hex_prefixed tx, gc_by_input_index = input_index,
                gc_by_block_number = block_number\<rparr>
      | _ \<Rightarrow> None)"

definition gql_render_cell :: "bool \<Rightarrow> Network \<Rightarrow> Cell \<Rightarrow> gql_error + GraphCell" where
  "gql_render_cell include_data net row =
     (let lock_kind = script_lookup net (c_lock_code_hash row) (c_lock_hash_type row) LockSlot;
          type_kind = (case (c_type_code_hash row, c_type_hash_type row) of
                         (Some code_hash, Some hash_type) \<Rightarrow>
                           script_lookup net code_hash hash_type TypeSlot
                       | _ \<Rightarrow> None);
          consumed_by = gql_consumed row
      in and_then (gql_render_script (c_lock_code_hash row) (c_lock_hash_type row) (c_lock_args row))
           (\<lambda>lock.
         and_then (case (c_type_code_hash row, c_type_hash_type row, c_type_args row,
                         c_type_hash row) of
                     (Some code_hash, Some hash_type, Some args, Some _) \<Rightarrow>
                       map_ok Some (gql_render_script code_hash hash_type args)
                   | _ \<Rightarrow> Inr None)
           (\<lambda>type_script.
           Inr \<lparr>gc_tx_hash = hex_prefixed (c_tx_hash row), gc_output_index = c_output_index row,
                gc_block_number = c_block_number row,
                gc_block_hash = hex_prefixed (cell_block_hash row),
                gc_capacity_shannons = c_capacity_shannons row, gc_lock = lock,
                gc_lock_hash = hex_prefixed (c_lock_hash row), gc_lock_kind = lock_kind,
                gc_type_script = type_script,
                gc_type_hash = map_option hex_prefixed (c_type_hash row),
                gc_type_kind = type_kind,
                gc_data = (if include_data then Some (hex_prefixed (c_data row)) else None),
                gc_is_live = (consumed_by = None), gc_consumed_by = consumed_by\<rparr>)))"

definition gql_build_page ::
  "gql_lib \<Rightarrow> Cell list \<Rightarrow> u32 \<Rightarrow> bool \<Rightarrow> Network \<Rightarrow> gql_error + (GraphCell list \<times> string option)" where
  "gql_build_page lib rows limit include_data net =
     (let has_more = length rows > nat limit;
          rows' = (if has_more then take (nat limit) rows else rows);
          next_cursor = (if has_more
                         then (if rows' = [] then None
                               else Some (encode_cells_cursor (gl_cursor lib) (cursor_of (last rows'))))
                         else None)
      in map_ok (\<lambda>data. (data, next_cursor))
           (collect_results (gql_render_cell include_data net) rows'))"

section \<open>Queries\<close>

definition gblock_from :: "gql_lib \<Rightarrow> Block \<Rightarrow> GBlock" where
  "gblock_from lib b =
     \<lparr>gb_number = br_number b, gb_hash = hex_prefixed (br_hash b),
      gb_parent_hash = hex_prefixed (br_parent_hash b), gb_timestamp_ms = br_timestamp_ms b,
      gb_epoch = br_epoch b, gb_transactions_count = br_transactions_count b,
      gb_proposals_count = br_proposals_count b, gb_uncles_count = br_uncles_count b,
      gb_nonce = gl_nonce_str lib (br_nonce b), gb_dao = hex_prefixed (br_dao b),
      gb_indexed_at = gl_rfc3339 lib (blk_indexed_at b)\<rparr>"

definition gql_blocks_latest :: "gql_lib \<Rightarrow> bool \<Rightarrow> chain_db \<Rightarrow> gql_error + GBlock option" where
  "gql_blocks_latest lib fault d =
     map_ok (map_option (gblock_from lib)) (map_err (map_db_err lib) (blocks_latest fault d))"

definition gql_block :: "gql_lib \<Rightarrow> bool \<Rightarrow> chain_db \<Rightarrow> i64 \<Rightarrow> gql_error + GBlock option" where
  "gql_block lib fault d number =
     (if number < 0 then Inl ''block number must be non-negative''
      else map_ok (map_option (gblock_from lib))
             (map_err (map_db_err lib) (blocks_get_by_number fault number d)))"

definition gql_cells ::
  "gql_lib \<Rightarrow> Config \<Rightarrow> TipSnapshot \<Rightarrow> bool \<Rightarrow> chain_db \<Rightarrow> CellsInput \<Rightarrow> gql_error + CellsConnection" where
  "gql_cells lib config snap fault d input =
     and_then (gql_parse_filter lib input) (\<lambda>fil.
     let liveness = (case in_is_live input of
                       Some True \<Rightarrow> OnlyLive | Some False \<Rightarrow> OnlyConsumed | None \<Rightarrow> Any)
     in and_then (gql_parse_limit (in_limit input) config) (\<lambda>limit.
        and_then (case in_cursor input of
                    Some raw \<Rightarrow> map_ok Some (map_err api_to_gql (decode_cells_cursor (gl_cursor lib) raw))
                  | None \<Rightarrow> Inr None) (\<lambda>cursor.
        let fetch_limit = limit + 1
        in and_then (map_err (map_db_err lib)
             (case fil of
                LockFilter hash \<Rightarrow> query_by_lock_hash fault hash liveness cursor fetch_limit d
              | TypeFilter hash \<Rightarrow> query_by_type_hash fault hash liveness cursor fetch_limit d))
             (\<lambda>rows.
           and_then (gql_build_page lib rows limit (unwrap_or (in_include_data input) False)
                       (network config))
             (\<lambda>(data, next_cursor).
           Inr \<lparr>cc_data = data, cc_next_cursor = next_cursor,
                cc_meta = \<lparr>me_indexer_tip = ts_indexer_tip snap,
                           me_node_tip = map_option as_i64 (ts_node_tip snap)\<rparr>\<rparr>)))))"

definition gql_stats :: "int \<Rightarrow> TipSnapshot \<Rightarrow> GStats" where
  "gql_stats now snap =
     \<lparr>gt_indexer_tip = ts_indexer_tip snap, gt_node_tip = map_option as_i64 (ts_node_tip snap),
      gt_lag_blocks = lag_blocks snap,
      gt_snapshot_age_seconds = as_i64 (elapsed now (ts_observed_monotonic snap) div nanos_per_sec),
      gt_is_stale = is_stale now snap\<rparr>"

section \<open>The two surfaces agree\<close>

text \<open>How a REST response reads on the GraphQL surface.\<close>

definition gscript_of :: "ScriptResponse \<Rightarrow> GScript" where
  "gscript_of s = \<lparr>gs_code_hash = Hex32_serialize (sp_code_hash s), gs_hash_type = sp_hash_type s,
     gs_args = Hex_serialize (sp_args s)\<rparr>"

definition gconsumed_of :: "ConsumedByResponse \<Rightarrow> ConsumedBy" where
  "gconsumed_of c = \<lparr>gc_by_tx_hash = Hex32_serialize (cb_tx_hash c), gc_by_input_index = cb_input_index c,
     gc_by_block_number = cb_block_number c\<rparr>"

definition gcell_of :: "CellResponse \<Rightarrow> GraphCell" where
  "gcell_of r = \<lparr>gc_tx_hash = Hex32_serialize (rc_tx_hash r), gc_output_index = rc_output_index r,
     gc_block_number = rc_block_number r, gc_block_hash = Hex32_serialize (rc_block_hash r),
     gc_capacity_shannons = rc_capacity_shannons r, gc_lock = gscript_of (rc_lock r),
     gc_lock_hash = Hex32_serialize (rc_lock_hash r), gc_lock_kind = rc_lock_kind r,
     gc_type_script = map_option gscript_of (rc_type_script r),
     gc_type_hash = map_option Hex32_serialize (rc_type_hash r), gc_type_kind = rc_type_kind r,
     gc_data = map_option Hex_serialize (rc_data r), gc_is_live = rc_is_live r,
     gc_consumed_by = map_option gconsumed_of (rc_consumed_by r)\<rparr>"

definition connection_of :: "CellsPage \<Rightarrow> CellsConnection" where
  "connection_of p = \<lparr>cc_data = map gcell_of (pg_data p), cc_next_cursor = pg_next_cursor p,
     cc_meta = \<lparr>me_indexer_tip = pm_indexer_tip (pg_meta p),
                me_node_tip = map_option as_i64 (pm_node_tip (pg_meta p))\<rparr>\<rparr>"

definition input_of :: "CellsQuery \<Rightarrow> CellsInput" where
  "input_of q = \<lparr>in_lock_hash = cq_lock_hash q, in_type_hash = cq_type_hash q, in_is_live = cq_is_live q,
     in_limit = cq_limit q, in_cursor = cq_cursor q, in_include_data = Some (cq_include_data q)\<rparr>"

lemma hex_serialize [simp]:
  "Hex32_serialize (Hex32 b) = hex_prefixed b" "Hex_serialize (Hex b) = hex_prefixed b"
  by (simp_all add: Hex32_serialize_def Hex_serialize_def encode_prefixed_def hex_prefixed_def)

lemma gql_hash_type_label_eq: "hash_type_label raw = Inr l \<Longrightarrow> gql_hash_type_label raw = Inr l"
  by (auto simp: hash_type_label_def gql_hash_type_label_def split: if_splits)

lemma gql_render_script_eq:
  "render_script ch ht args = Inr s \<Longrightarrow> gql_render_script ch ht args = Inr (gscript_of s)"
  by (auto simp: render_script_def gql_render_script_def gscript_of_def res_simps
      dest: gql_hash_type_label_eq)

lemma gql_consumed_eq:
  "render_consumed row = Inr c \<Longrightarrow> gql_consumed row = map_option gconsumed_of c"
  by (auto simp: render_consumed_def gql_consumed_def gconsumed_of_def res_simps split: option.splits)

lemma gql_type_script_eq:
  assumes "(case (ch, ht, args, th) of
      (Some code_hash, Some hash_type, Some a, Some (_ :: bytes)) \<Rightarrow> map_ok Some (render_script code_hash hash_type a)
    | _ \<Rightarrow> Inr None) = Inr t"
  shows "(case (ch, ht, args, th) of
      (Some code_hash, Some hash_type, Some a, Some _) \<Rightarrow> map_ok Some (gql_render_script code_hash hash_type a)
    | _ \<Rightarrow> Inr None) = Inr (map_option gscript_of t)"
  using assms by (auto simp: res_simps dest: gql_render_script_eq split: option.splits)

lemma gql_render_cell_eq:
  assumes "render_cell inc net row = Inr r"
  shows "gql_render_cell inc net row = Inr (gcell_of r)"
  using assms
  by (auto simp: render_cell_def gql_render_cell_def Let_def res_simps gcell_of_def
      dest!: gql_render_script_eq gql_type_script_eq [unfolded prod.case] gql_consumed_eq transpose_slice
      simp: option.map_comp comp_def)

lemma gql_collect_eq:
  "collect_results (render_cell inc net) rows = Inr rs \<Longrightarrow>
     collect_results (gql_render_cell inc net) rows = Inr (map gcell_of rs)"
  by (induction rows arbitrary: rs) (auto simp: res_simps dest: gql_render_cell_eq)

lemma gql_parse_filter_eq:
  "parse_filter (gl_cursor lib) q = Inr fil \<Longrightarrow> gql_parse_filter lib (input_of q) = Inr fil"
  by (auto simp: parse_filter_def gql_parse_filter_def input_of_def parse_script_hash_def
      gql_parse_script_hash_def res_simps split: option.splits if_splits)

lemma gql_parse_limit_eq: "parse_limit raw config = Inr n \<Longrightarrow> gql_parse_limit raw config = Inr n"
  by (auto simp: parse_limit_def gql_parse_limit_def split: option.splits if_splits)

lemma gql_build_page_eq:
  "build_page (gl_cursor lib) rows limit inc net = Inr (data, c) \<Longrightarrow>
     gql_build_page lib rows limit inc net = Inr (map gcell_of data, c)"
  by (auto simp: build_page_def gql_build_page_def Let_def res_simps dest!: gql_collect_eq)

text \<open>C19: whenever \<^verbatim>\<open>GET /v1/cells\<close> answers with a page, the GraphQL \<^verbatim>\<open>cells\<close> query with the same arguments
  answers with the same cells, the same cursor and the same tips.\<close>

theorem graphql_cells_mirror_rest:
  assumes "cells_list (gl_cursor lib) config snap fault d q = Inr page"
  shows "gql_cells lib config snap fault d (input_of q) = Inr (connection_of page)"
proof -
  obtain fil limit cursor cells data c where
    fil: "parse_filter (gl_cursor lib) q = Inr fil" and limit: "parse_limit (cq_limit q) config = Inr limit"
    and cursor: "transpose_opt (map_option (decode_cells_cursor (gl_cursor lib)) (cq_cursor q)) = Inr cursor"
    and cells: "(case fil of
             LockFilter hash \<Rightarrow> query_by_lock_hash fault hash (parse_liveness (cq_is_live q)) cursor (limit + 1) d
           | TypeFilter hash \<Rightarrow> query_by_type_hash fault hash (parse_liveness (cq_is_live q)) cursor (limit + 1) d) = Inr cells"
    and build: "build_page (gl_cursor lib) cells limit (cq_include_data q) (network config) = Inr (data, c)"
    and page: "page = \<lparr>pg_data = data, pg_next_cursor = c,
             pg_meta = \<lparr>pm_indexer_tip = ts_indexer_tip snap, pm_node_tip = ts_node_tip snap\<rparr>\<rparr>"
    using assms by (auto simp: cells_list_def Let_def res_simps)
  have "(case in_cursor (input_of q) of
      Some raw \<Rightarrow> map_ok Some (map_err api_to_gql (decode_cells_cursor (gl_cursor lib) raw))
    | None \<Rightarrow> Inr None) = Inr cursor"
    using cursor by (auto simp: input_of_def res_simps split: option.splits)
  moreover have "(case in_is_live (input_of q) of
      Some True \<Rightarrow> OnlyLive | Some False \<Rightarrow> OnlyConsumed | None \<Rightarrow> Any) = parse_liveness (cq_is_live q)"
    by (simp add: input_of_def parse_liveness_def)
  ultimately show ?thesis
    using gql_parse_filter_eq [OF fil] gql_parse_limit_eq [OF limit] cells gql_build_page_eq [OF build]
    by (simp add: gql_cells_def Let_def page connection_of_def) (simp add: input_of_def)
qed

end
