(* ===== verification/ApiSamples.thy ===== *)
theory ApiSamples
  imports GraphQL
begin

text \<open>
  A small index (two blocks, three cells, two of them under one lock) and the reads of it that
  instantiate the theorems on the query surface.
\<close>

abbreviation bytes32 :: "byte \<Rightarrow> bytes" where
  "bytes32 b \<equiv> replicate 32 b"

definition sample_block :: "i64 \<Rightarrow> byte \<Rightarrow> Block" where
  "sample_block n b = \<lparr>br_number = n, br_hash = bytes32 b, br_parent_hash = bytes32 0, br_timestamp_ms = 0, br_epoch = 0,
     br_transactions_count = 1, br_proposals_count = 0, br_uncles_count = 0, br_nonce = 0, br_dao = bytes32 0, blk_indexed_at = 0\<rparr>"

definition sample_cell :: "i64 \<Rightarrow> byte \<Rightarrow> byte \<Rightarrow> CellStored" where
  "sample_cell n tx lock = \<lparr>c_tx_hash = bytes32 tx, c_output_index = 0, c_block_number = n, c_capacity_shannons = 100,
     c_lock_code_hash = bytes32 1, c_lock_hash_type = 1, c_lock_args = [], c_lock_hash = bytes32 lock, c_type_code_hash = None,
     c_type_hash_type = None, c_type_args = None, c_type_hash = None, c_data = [], c_consumed_by_tx_hash = None,
     c_consumed_by_input_index = None, c_consumed_at_block_number = None\<rparr>"

definition sample_index :: chain_db where
  "sample_index = \<lparr>db_blocks = [sample_block 0 10, sample_block 1 11], db_transactions = [],
     db_cells = [sample_cell 0 20 5, sample_cell 1 21 5, sample_cell 1 22 6], db_indexer_state = None, db_reorg_log = []\<rparr>"

definition sample_query :: CellsQuery where
  "sample_query = \<lparr>cq_lock_hash = Some (encode_prefixed (bytes32 5)), cq_type_hash = None, cq_is_live = None, cq_cursor = None,
     cq_limit = Some 1, cq_include_data = False\<rparr>"

definition sample_config :: Config where
  "sample_config = default_config ''postgres://db'' ''http://node''"

definition sample_snapshot :: TipSnapshot where
  "sample_snapshot = \<lparr>ts_indexer_tip = Some 1, ts_node_tip = Some 1, ts_observed_at = 0, ts_observed_monotonic = 0\<rparr>"

lemma sample_index_ok: "schema_ok sample_index"
  by (simp add: schema_ok_def sample_index_def sample_block_def sample_cell_def cell_key_def consumed_columns_agree_def)

lemma sample_filter: "parse_filter ref_cursor_lib sample_query = Inr (LockFilter (bytes32 5))"
  using decode_encode_prefixed [OF ref_hex_decodes, of "bytes32 5"]
  by (simp add: parse_filter_def sample_query_def parse_script_hash_def ref_cursor_lib_def and_then_def ok_or_def map_ok_def)

lemma sample_limit: "parse_limit (cq_limit sample_query) sample_config = Inr 1"
  by (simp add: parse_limit_def sample_query_def sample_config_def default_config_def)

lemma sample_rows_renderable: "\<forall>r \<in> set (query_rows fil live sample_index). renderable r"
  by (auto simp: query_rows_def matching_cells_set join_block_def sample_index_def sample_block_def sample_cell_def renderable_def
      opt_all_def CellStored.defs Cell.defs split: if_splits)

theorem cells_paging_complete_witness:
  "distinct (query_rows (LockFilter (bytes32 5)) None sample_index) \<and>
   follow_cells 4 ref_cursor_lib sample_config sample_snapshot sample_index sample_query =
     Some (collect_results (render_cell False (network sample_config)) (query_rows (LockFilter (bytes32 5)) None sample_index))"
  using cells_paging_complete [OF sample_index_ok ref_cursor_lib_ok sample_filter sample_limit _ _ sample_rows_renderable, of 4 sample_snapshot]
  by (simp add: sample_query_def sample_index_def)

theorem blocks_routes_serve_stored_witness:
  "\<exists>r. blocks_route_latest int_dec False sample_index = Inr r \<and> rb_number r = 1"
  using blocks_routes_serve_stored [OF sample_index_ok, of 1 int_dec]
  by (simp add: sample_index_def sample_block_def block_renderable_def)

definition sample_gql_lib :: gql_lib where
  "sample_gql_lib = \<lparr>gl_cursor = ref_cursor_lib, gl_db_display = (\<lambda>e. ''db''), gl_nonce_str = int_dec, gl_rfc3339 = int_dec\<rparr>"

theorem graphql_cells_mirror_rest_witness:
  "\<exists>page. cells_list ref_cursor_lib sample_config sample_snapshot False sample_index sample_query = Inr page \<and>
     gql_cells sample_gql_lib sample_config sample_snapshot False sample_index (input_of sample_query) = Inr (connection_of page)"
proof -
  obtain page where "cells_list (gl_cursor sample_gql_lib) sample_config sample_snapshot False sample_index sample_query = Inr page"
    using cells_list_page [OF sample_index_ok ref_cursor_lib_ok sample_filter sample_limit _ refl sample_rows_renderable, of 0 sample_snapshot]
    by (auto simp: sample_gql_lib_def sample_query_def cursor_at_def)
  from graphql_cells_mirror_rest [OF this] this show ?thesis by (auto simp: sample_gql_lib_def)
qed

end
