(* ===== verification/AdminCli.thy ===== *)
theory AdminCli
  imports Auth
begin

text \<open>
  \<^verbatim>\<open>api/src/admin.rs\<close>: the operator's commands on API keys.  A command ends with an error under a
  context, or prints lines and exits.  Pretty-printing of JSON values is an argument.
\<close>

datatype TierArg = ArgFree | ArgStarter | ArgPro

fun tier_arg :: "TierArg \<Rightarrow> ApiKeyTier" where
  "tier_arg ArgFree = Free"
| "tier_arg ArgStarter = Starter"
| "tier_arg ArgPro = Pro"

datatype AdminAction =
    CliCreateKey (aa_github_login: string) (aa_tier: TierArg) (aa_label: "string option") (aa_json: bool)
  | CliListKeys (aa_json: bool)
  | CliRevokeKey (aa_prefix: string)

record cli_env =
  ce_now :: timestamp
  ce_fault_lookup :: bool
  ce_fault_write :: bool
  ce_prefix_bytes :: bytes
  ce_secret_bytes :: bytes
  ce_salt :: string
  ce_fresh_id :: uuid
  ce_keys :: key_lib
  ce_pretty :: "json \<Rightarrow> string option"
  ce_time_json :: "timestamp \<Rightarrow> json"

datatype cli_result = CliError string | Printed "string list" | PrintedExit nat "string list"

definition opt_json :: "('a \<Rightarrow> json) \<Rightarrow> 'a option \<Rightarrow> json" where
  "opt_json f x = (case x of None \<Rightarrow> JNull | Some v \<Rightarrow> f v)"

definition print_json :: "cli_env \<Rightarrow> json \<Rightarrow> cli_result" where
  "print_json env payload = (case ce_pretty env payload of None \<Rightarrow> CliError ''json'' | Some s \<Rightarrow> Printed [s])"

text \<open>\<^verbatim>\<open>{:<n}\<close>: left aligned, at least \<open>n\<close> characters.\<close>

definition pad :: "nat \<Rightarrow> string \<Rightarrow> string" where
  "pad n s = s @ replicate (n - length s) (CHR '' '')"

definition table_line :: "string \<Rightarrow> string \<Rightarrow> string \<Rightarrow> string \<Rightarrow> string" where
  "table_line p t s l = pad 24 p @ '' '' @ pad 8 t @ '' '' @ pad 10 s @ '' '' @ l"

text \<open>The dash of the messages, in UTF-8.\<close>

definition em_dash :: string where "em_dash = [CHR 0xE2, CHR 0x80, CHR 0x94]"

definition created_output :: "cli_env \<Rightarrow> bool \<Rightarrow> IssuedKey \<Rightarrow> ApiKey \<Rightarrow> cli_result" where
  "created_output env as_json issued row =
     (if as_json then
        print_json env (JObj [(''prefix'', JStr (ak_prefix row)), (''secret'', JStr (ik_secret issued)),
          (''full_key'', JStr (ik_full issued)), (''tier'', JStr (ApiKeyTier_as_str (ak_tier row))),
          (''label'', opt_json JStr (ak_label row))])
      else Printed ([''API key created'', [], ''  prefix : '' @ ak_prefix row, ''  tier   : '' @ ApiKeyTier_as_str (ak_tier row)]
        @ (case ak_label row of None \<Rightarrow> [] | Some label \<Rightarrow> [''  label  : '' @ label])
        @ [''  full   : '' @ ik_full issued, [], ''Record the full key now '' @ em_dash @ '' it will not be shown again.'']))"

definition listed_output :: "cli_env \<Rightarrow> bool \<Rightarrow> ApiKey list \<Rightarrow> cli_result" where
  "listed_output env as_json rows =
     (if as_json then
        print_json env (JArr (map (\<lambda>r. JObj [(''prefix'', JStr (ak_prefix r)), (''tier'', JStr (ApiKeyTier_as_str (ak_tier r))),
          (''label'', opt_json JStr (ak_label r)), (''created_at'', ce_time_json env (ak_created_at r)),
          (''revoked_at'', opt_json (ce_time_json env) (ak_revoked_at r)),
          (''last_used_at'', opt_json (ce_time_json env) (ak_last_used_at r))]) rows))
      else if rows = [] then Printed [''No API keys.'']
      else Printed (table_line ''PREFIX'' ''TIER'' ''STATE'' ''LABEL'' #
        map (\<lambda>row. table_line (ak_prefix row) (ApiKeyTier_as_str (ak_tier row))
          (if ApiKey_is_revoked row then ''revoked'' else ''active'') (unwrap_or (ak_label row) [])) rows))"

fun cli_run :: "cli_env \<Rightarrow> AdminAction \<Rightarrow> account_db \<Rightarrow> cli_result \<times> account_db" where
  "cli_run env (CliCreateKey github_login tier label as_json) a =
     (case find_by_github_login (ce_fault_lookup env) github_login a of
        Inl _ \<Rightarrow> (CliError ''lookup user'', a)
      | Inr None \<Rightarrow> (CliError (''no user with github login '' @ quoted github_login @ '' '' @ em_dash @ '' sign in via the dashboard first''), a)
      | Inr (Some user) \<Rightarrow>
          (case generate (ce_keys env) (ce_prefix_bytes env) (ce_secret_bytes env) (ce_salt env) of
             Inl _ \<Rightarrow> (CliError ''generate api key'', a)
           | Inr issued \<Rightarrow>
               (case api_keys_insert (ce_fault_write env) (ce_now env) (ce_fresh_id env) (us_id user) (ik_prefix issued)
                       (ik_secret_hash issued) (tier_arg tier) label a of
                  Inl _ \<Rightarrow> (CliError ''persist api key'', a)
                | Inr (row, a') \<Rightarrow> (created_output env as_json issued row, a'))))"
| "cli_run env (CliListKeys as_json) a =
     (case list_all_keys (ce_fault_lookup env) a of
        Inl _ \<Rightarrow> (CliError ''list api keys'', a)
      | Inr rows \<Rightarrow> (listed_output env as_json rows, a))"
| "cli_run env (CliRevokeKey prefix) a =
     (case revoke (ce_fault_write env) (ce_now env) prefix a of
        Inl _ \<Rightarrow> (CliError ''revoke api key'', a)
      | Inr (revoked, a') \<Rightarrow>
          (if revoked then Printed [''Revoked '' @ prefix]
           else PrintedExit 1 [''No active key with prefix '' @ quoted prefix @ '' (already revoked or unknown).''], a'))"

section \<open>What the commands do\<close>

lemma cli_create_cases:
  obtains (failed) e where "cli_run env (CliCreateKey login tier label as_json) a = (CliError e, a)"
  | (created) user issued row a' where
      "find_by_github_login (ce_fault_lookup env) login a = Inr (Some user)"
      "generate (ce_keys env) (ce_prefix_bytes env) (ce_secret_bytes env) (ce_salt env) = Inr issued"
      "api_keys_insert (ce_fault_write env) (ce_now env) (ce_fresh_id env) (us_id user) (ik_prefix issued)
         (ik_secret_hash issued) (tier_arg tier) label a = Inr (row, a')"
      "cli_run env (CliCreateKey login tier label as_json) a = (created_output env as_json issued row, a')"
proof (cases "find_by_github_login (ce_fault_lookup env) login a")
  case (Inr found)
  show thesis
  proof (cases found)
    case (Some user)
    show thesis
    proof (cases "generate (ce_keys env) (ce_prefix_bytes env) (ce_secret_bytes env) (ce_salt env)")
      case (Inr issued)
      show thesis
        using \<open>find_by_github_login _ _ _ = Inr found\<close> Some Inr that
        by (cases "api_keys_insert (ce_fault_write env) (ce_now env) (ce_fresh_id env) (us_id user) (ik_prefix issued)
              (ik_secret_hash issued) (tier_arg tier) label a") auto
    qed (use \<open>find_by_github_login _ _ _ = Inr found\<close> Some that(1) in simp)
  qed (use Inr that(1) in simp)
qed (use that(1) in simp)

text \<open>Every command keeps the schema.\<close>

lemma cli_run_ok:
  assumes "account_ok a"
  shows "account_ok (snd (cli_run env action a))"
proof (cases action)
  case (CliCreateKey login tier label as_json)
  show ?thesis unfolding CliCreateKey
    by (cases rule: cli_create_cases [of env login tier label as_json a]) (use assms key_statements_ok(1) in auto)
next
  case (CliListKeys as_json)
  then show ?thesis using assms by (simp split: sum.splits)
next
  case (CliRevokeKey prefix)
  then show ?thesis using assms key_statements_ok(2)
    by (cases "revoke (ce_fault_write env) (ce_now env) prefix a") auto
qed

text \<open>A revocation that is reported leaves no active key of the prefix.\<close>

lemma revoked_prefix:
  assumes "cli_run env (CliRevokeKey prefix) a = (Printed ls, a')"
  shows "\<forall>k \<in> set (ac_keys a'). ak_prefix k = prefix \<longrightarrow> ak_revoked_at k \<noteq> None"
proof (cases "revoke (ce_fault_write env) (ce_now env) prefix a")
  case (Inr r)
  have "r = (list_ex (\<lambda>k. ak_prefix k = prefix \<and> ak_revoked_at k = None) (ac_keys a),
      update_keys (\<lambda>k. ak_prefix k = prefix \<and> ak_revoked_at k = None) (\<lambda>k. k\<lparr>ak_revoked_at := Some (ce_now env)\<rparr>) a)"
    using Inr unfolding revoke_def Let_def by (simp only: sum.inject sum.distinct split: if_splits)
  moreover have "a' = snd r" using assms Inr by (cases r) simp
  ultimately have "ac_keys a' = map (\<lambda>k. if ak_prefix k = prefix \<and> ak_revoked_at k = None then k\<lparr>ak_revoked_at := Some (ce_now env)\<rparr> else k) (ac_keys a)"
    by (simp add: update_keys_def)
  moreover have "ak_prefix (if ak_prefix k = prefix \<and> ak_revoked_at k = None then k\<lparr>ak_revoked_at := Some t\<rparr> else k) = prefix \<longrightarrow>
      ak_revoked_at (if ak_prefix k = prefix \<and> ak_revoked_at k = None then k\<lparr>ak_revoked_at := Some t\<rparr> else k) \<noteq> None" for k t
    by simp
  ultimately show ?thesis by (simp only: set_map ball_simps) blast
qed (use assms in simp)


end
