(* ===== verification/ServerSamples.thy ===== *)
theory ServerSamples
  imports Reach Documented DashboardSamples ApiSamples AdminCli
begin

text \<open>
  A small server (two users, one key, two blocks, Redis attached) and concrete requests, log tasks,
  worker ticks and operator commands that instantiate the theorems on the server.
\<close>

section \<open>A sample server\<close>

definition demo_codec :: log_codec where
  "demo_codec = \<lparr>lc_to_string = (\<lambda>p. Some (nat_dec (lp_api_key_id p))),
     lc_from_str = (\<lambda>s. map_option (\<lambda>n. \<lparr>lp_api_key_id = nat n, lp_method = ''GET'', lp_path = ''/v1/cells'', lp_status_code = 200,
        lp_latency_ms = 3\<rparr>) (u64_from_str s))\<rparr>"

definition demo_app_lib :: app_lib where
  "demo_app_lib = \<lparr>li_dash = demo_lib, li_cursor = ref_cursor_lib, li_nonce_str = int_dec, li_hex_decode = ref_hex_decode,
     li_version = ''0.1.0'', li_openapi = ''{}'', li_render = (\<lambda>_. []), li_execute = (\<lambda>_ _ _. JNull), li_upgrade = (\<lambda>_. 101),
     li_logs = demo_codec\<rparr>"

definition demo_app_env :: app_env where
  "demo_app_env = \<lparr>ap_auth = sample_auth_env 0, ap_limiter = \<lparr>le_now_ms = 1000, le_redis_now = 1000, le_fault = Delivered\<rparr>,
     ap_session = \<lparr>sn_now = 10, sn_fault_session = False, sn_fault_user = False\<rparr>, ap_admin = demo_env, ap_oauth = demo_oauth_env,
     ap_fault = False, ap_now = 0, ap_system_now = 0, ap_elapsed = 5000000, ap_request_id = ''r1'',
     ap_probes = \<lparr>pb_db = InTime (Inr 1), pb_redis = None, pb_ckb = None\<rparr>, ap_node = None, ap_scrape = \<lparr>sc_size = 1, sc_num_idle = 1\<rparr>\<rparr>"

definition demo_app_world :: app_world where
  "demo_app_world = \<lparr>aw_cache = Map.empty, aw_accounts = sample_accounts\<lparr>ac_keys := [sample_row]\<rparr>, aw_pending = [], pw_seen = [],
     pw_redis = Some no_buckets, sv_metrics = api_metrics_new, sv_tip = sample_snapshot, sv_log_tasks = [], sv_request_logs = [],
     sv_next_log_id = 1, pp_index = sample_index\<rparr>"

definition demo_app_call :: "endpoint \<Rightarrow> app_call" where
  "demo_app_call ep = \<lparr>cl_request = sample_request, cl_endpoint = ep, cl_env = demo_app_env\<rparr>"

lemma demo_fields [simp]:
  "dl_keys (li_dash demo_app_lib) = ref_key_lib" "ap_auth demo_app_env = sample_auth_env 0" "le_fault (ap_limiter demo_app_env) = Delivered"
  "cl_env (demo_app_call ep) = demo_app_env" "cl_endpoint (demo_app_call ep) = ep" "cl_request (demo_app_call ep) = sample_request"
  "pw_redis demo_app_world = Some no_buckets" "pp_index demo_app_world = sample_index"
  by (simp_all add: demo_app_lib_def demo_lib_def demo_app_env_def demo_app_call_def demo_app_world_def)

lemma demo_app_run: "app_run demo_app_lib config ttl [] demo_app_world"
  by (rule app_run.boot) (simp add: demo_app_world_def)

definition demo_key :: AuthenticatedKey where
  "demo_key = \<lparr>au_id = 7, au_prefix = ik_prefix sample_issued, au_tier = Pro\<rparr>"

lemma demo_bearer: "extract_bearer (inner_request (demo_app_call ep)) = Inr (ik_full sample_issued)"
proof -
  have "extract_bearer (inner_request c) = extract_bearer (cl_request c)" for c
    by (simp only: extract_bearer_def inner_request_simps)
  moreover have "extract_bearer sample_request = Inr (ik_full sample_issued)" by code_simp
  ultimately show ?thesis by (simp add: demo_app_call_def)
qed

lemma demo_resolved: "fst (auth_resolve ref_key_lib (sample_auth_env 0) (ik_full sample_issued) demo_app_world) = Inr demo_key"
  by code_simp

text \<open>The same server with either policy of the limiter.\<close>

definition policy :: "bool \<Rightarrow> Config" where
  "policy fails_open = demo_config\<lparr>api_rate_limit_fail_open := fails_open\<rparr>"

lemma policy_demo: "policy True = demo_config"
  by (simp add: policy_def demo_config_def default_config_def)

lemma demo_tokens: "1 \<le> tokens_for (policy p) (ap_limiter demo_app_env) Rest demo_key no_buckets"
  by (simp add: tokens_for_def demo_key_def policy_def demo_config_def default_config_def demo_app_env_def no_buckets_def live_bucket_def refilled_simps Let_def)

lemma demo_block: "\<exists>b. blocks_route_latest int_dec False sample_index = Inr b"
  by (simp add: blocks_route_latest_def blocks_latest_def sample_index_def block_response_def try_from_slice_def sample_block_def)

lemma demo_handled:
  "rs_status (result_response (map_ok BlockBody (blocks_route_latest (li_nonce_str demo_app_lib) (ap_fault demo_app_env) sample_index))) = 200"
  using demo_block by (auto simp: demo_app_lib_def demo_app_env_def result_response_def plain_response_def)

lemma demo_limited:
  assumes "pw_redis v = Some no_buckets" "pp_index v = sample_index"
  shows "rs_status (fst (rate_limit_for (policy p) (ap_limiter demo_app_env) Rest
    (handle demo_app_lib (policy p) demo_app_env BlocksLatest) (rq\<lparr>rq_key := Some demo_key\<rparr>) v)) = 200"
proof -
  obtain rs w' where lim: "rate_limit_for (policy p) (ap_limiter demo_app_env) Rest
      (handle demo_app_lib (policy p) demo_app_env BlocksLatest) (rq\<lparr>rq_key := Some demo_key\<rparr>) v = (rs, w')" by fastforce
  have idx: "pp_index (count_outcome s k out u) = pp_index u" for s k out and u :: "'a app_world_scheme"
    by (simp add: count_outcome_def)
  have "rs_status rs = 200"
    by (rule rate_limit_cases [OF lim]) (use assms demo_tokens [of p] in \<open>auto simp: demo_handled idx\<close>)
  then show ?thesis using lim by simp
qed

lemma demo_answer:
  assumes "router_of ep = RestRouter"
  obtains v :: app_world where "pw_redis v = Some no_buckets" "pp_index v = sample_index"
    "rs_key (fst (build_app demo_app_lib config (demo_app_call ep) demo_app_world)) = Some demo_key"
    "rs_status (fst (build_app demo_app_lib config (demo_app_call ep) demo_app_world)) =
       rs_status (fst (rate_limit_for config (ap_limiter demo_app_env) Rest (handle demo_app_lib config demo_app_env ep)
         ((inner_request (demo_app_call ep))\<lparr>rq_key := Some demo_key\<rparr>) v))"
proof -
  let ?c = "demo_app_call ep"
  obtain v where res: "auth_resolve ref_key_lib (sample_auth_env 0) (ik_full sample_issued) demo_app_world = (Inr demo_key, v)"
    using demo_resolved by (metis fst_conv surj_pair)
  have v: "pw_redis v = Some no_buckets" "pp_index v = sample_index"
    using auth_resolve_redis [OF res] auth_resolve_undisturbed [OF res] by (simp_all add: undisturbed_def)
  have "fst (routed demo_app_lib config demo_app_env ep (inner_request ?c) demo_app_world) =
      (fst (rate_limit_for config (ap_limiter demo_app_env) Rest (handle demo_app_lib config demo_app_env ep)
         ((inner_request ?c)\<lparr>rq_key := Some demo_key\<rparr>) v))\<lparr>rs_key := Some demo_key\<rparr>"
    using assms res by (simp add: routed_def auth_middleware_def demo_bearer Let_def case_prod_unfold)
  then show thesis
    using build_app_inner(1,2) [of demo_app_lib config ?c demo_app_world, OF surjective_pairing] by (intro that [OF v]) simp_all
qed

lemma demo_served: "rs_status (fst (build_app demo_app_lib (policy p) (demo_app_call BlocksLatest) demo_app_world)) = 200"
  by (rule demo_answer [of BlocksLatest "policy p"]) (simp_all add: demo_limited)

text \<open>Extractors that take every segment as it is and reject the rest.\<close>

definition demo_extractors :: extractors where
  "demo_extractors = \<lparr>ex_path = Inr, ex_cells = (\<lambda>_. Inl 400), ex_callback = (\<lambda>_. Inl 400), ex_status = (\<lambda>_. Inl 400),
     ex_graphql = (\<lambda>_ _. Inl 415), ex_create_key = (\<lambda>_ _. Inl 415), ex_create_webhook = (\<lambda>_ _. Inl 415)\<rparr>"

definition demo_raw :: raw_request where
  "demo_raw = \<lparr>rr_request = sample_request, rr_query = [], rr_body = []\<rparr>"

lemma demo_latest:
  assumes "rq_path (rr_request r) = ''/v1/blocks/latest''" "http_request.rq_method (rr_request r) = ''GET''"
  shows "dispatch ref_match demo_extractors r = BlocksLatest"
  by (rule first_match.dispatch_static [of "''/v1/blocks/latest''" RestRouter "[(''GET'', plain BlocksLatest)]" _ "plain BlocksLatest"])
    (simp_all add: app_routes_def route_defs assms method_handler_def plain_def)

lemma demo_dispatch: "call_of ref_match demo_extractors demo_app_env demo_raw = demo_app_call BlocksLatest"
  using demo_latest [of demo_raw] by (simp add: call_of_def demo_app_call_def demo_raw_def sample_request_def)

text \<open>The same request without credentials.\<close>

definition demo_anonymous :: raw_request where
  "demo_anonymous = demo_raw\<lparr>rr_request := sample_request\<lparr>rq_headers := []\<rparr>\<rparr>"



definition demo_delete :: raw_request where
  "demo_delete = demo_raw\<lparr>rr_request := http_request.rq_method_update (\<lambda>_. ''DELETE'') (sample_request\<lparr>rq_path := ''/admin/keys/7''\<rparr>)\<rparr>"

theorem documented_revocation_is_unrouted_witness:
  "dispatch ref_match demo_extractors demo_delete = UnknownRoute \<and>
   aw_accounts (snd (app_service ref_match demo_extractors demo_app_lib demo_config demo_app_env demo_delete demo_app_world)) = aw_accounts demo_app_world"
  using documented_revocation_is_unrouted [OF first_match.path_router_axioms, of demo_delete "''7''" demo_extractors demo_app_lib demo_config demo_app_env demo_app_world] by (simp add: demo_delete_def)

text \<open>One request that is answered and one that is cut off.\<close>

definition demo_events :: "app_event list" where
  "demo_events = [Served (demo_app_call BlocksLatest), Interrupted (demo_app_call HealthLive) Timeout 0]"

lemma demo_limiter_calls:
  "limiter_calls demo_app_lib (policy False) demo_events demo_app_world = [limiter_call_of (policy False) (demo_app_call BlocksLatest) demo_key]"
proof -
  have "rs_key (fst (build_app demo_app_lib (policy False) (demo_app_call BlocksLatest) demo_app_world)) = Some demo_key"
    by (rule demo_answer [of BlocksLatest "policy False"]) simp_all
  moreover have "\<not> fst (cut_at demo_app_lib (policy False) (demo_app_call HealthLive) 0 v)" for v :: app_world
    by (simp add: cut_at_def call_cuts_def routed_cuts_def handler_cuts_def)
  ultimately show ?thesis by (simp add: demo_events_def)
qed



theorem rate_limit_layer_outcomes_witness:
  "rs_status (fst (rate_limit_for demo_config \<lparr>le_now_ms = 0, le_redis_now = 0, le_fault = NotDelivered\<rparr> Rest ok_service
     (sample_request\<lparr>rq_key := Some demo_key\<rparr>) demo_app_world)) = 200"
proof -
  obtain rs w' where run: "rate_limit_for demo_config \<lparr>le_now_ms = 0, le_redis_now = 0, le_fault = NotDelivered\<rparr> Rest ok_service
     (sample_request\<lparr>rq_key := Some demo_key\<rparr>) demo_app_world = (rs, w')" by fastforce
  have "api_rate_limit_fail_open demo_config" by (simp add: demo_config_def default_config_def)
  then have "rs_status rs = 200"
    using rate_limit_layer_outcomes [OF run, of demo_key] by (auto simp: Let_def ok_service_def)
  then show ?thesis using run by simp
qed

theorem stray_paths_multiply_counters_witness:
  "card (dom (requests_total (sv_metrics (serve demo_app_lib demo_config
     (map (stray (demo_app_call BlocksLatest)) [''/a'', ''/b'']) demo_app_world)))) = 2"
  using stray_paths_multiply_counters [of demo_app_world "[''/a'', ''/b'']" "[]" demo_app_lib demo_config "demo_app_call BlocksLatest"]
  by (simp add: demo_app_world_def api_metrics_new_def)

section \<open>A log entry on its way\<close>

definition demo_pushed :: app_world where
  "demo_pushed = log_task_step 0 False (demo_app_world\<lparr>sv_log_tasks := [PushThenTrim ''7'']\<rparr>)"

lemma demo_pushed_logs: "logs_of demo_pushed = [''7'']" "sv_log_tasks demo_pushed = [TrimOnly]" "sv_request_logs demo_pushed = []"
  by (simp_all add: demo_pushed_def log_task_step_def logs_of_def set_logs_def LPUSH_def no_buckets_def Let_def)
    (simp add: demo_app_world_def)

lemma demo_log_run: "log_run demo_codec [''7''] [] [] 0 demo_pushed"
proof -
  have "log_run demo_codec [] [] [] 0 demo_app_world"
    by (rule log_run.start) (simp_all add: logs_of_def no_buckets_def, simp add: demo_app_world_def)
  then have spawned: "log_run demo_codec [] [] [] 0 (demo_app_world\<lparr>sv_log_tasks := [PushThenTrim ''7'']\<rparr>)"
    by (rule log_run.spawned) (simp_all add: logs_of_def, simp add: demo_app_world_def)
  show ?thesis using log_run.task [OF spawned, of 0 False]
    by (simp add: demo_pushed_def entered_def trimmed_def trim_failed_def)
qed

theorem log_queue_fifo_and_bounded_witness:
  "(\<exists>gone \<in> shuffles [] []. [''7''] = gone @ rev (logs_of demo_pushed)) \<and> length (logs_of demo_pushed) \<le> MAX_BUFFERED_LOGS + 1"
  using log_queue_fifo_and_bounded [OF demo_log_run] by (simp add: demo_pushed_logs trims_def)

definition demo_batch :: batch_env where
  "demo_batch = \<lparr>be_rpop = Delivered, be_insert_fault = (\<lambda>_. False), be_now = (\<lambda>_. 0)\<rparr>"

lemma demo_row: "row_of demo_codec (aw_accounts demo_pushed) ''7'' = Some (7, ''GET'', ''/v1/cells'', 200, 3)"
  by code_simp

theorem worker_tick_moves_oldest_witness:
  "map row_content (sv_request_logs (worker_tick demo_codec (\<lambda>_. demo_batch) demo_pushed)) = [(7, ''GET'', ''/v1/cells'', 200, 3)] \<and>
   logs_of (worker_tick demo_codec (\<lambda>_. demo_batch) demo_pushed) = []"
  using worker_tick_moves_oldest [of "\<lambda>_. demo_batch" demo_codec demo_pushed]
  by (simp add: demo_batch_def demo_pushed_logs demo_row map_filter_simps)

section \<open>Charts\<close>

definition demo_log :: "uuid \<Rightarrow> RequestLogRow" where
  "demo_log kid = \<lparr>lg_id = 1, lg_timestamp = 5, lg_api_key_id = kid, lg_method = ''GET'', lg_path = ''/v1/cells'', lg_status_code = 200,
     lg_latency_ms = 3\<rparr>"


theorem dashboard_metrics_consistent_witness:
  "\<exists>points s. usage False 10 1 (demo_app_world\<lparr>sv_request_logs := [demo_log 7]\<rparr>) = Inr points \<and>
     summary False 10 1 (demo_app_world\<lparr>sv_request_logs := [demo_log 7]\<rparr>) = Inr s \<and>
     sum_list (map (\<lambda>p. ud_rest p + ud_graphql p) points) = 1"
proof -
  let ?w = "demo_app_world\<lparr>sv_request_logs := [demo_log 7]\<rparr>"
  obtain points s where "usage False 10 1 ?w = Inr points" "summary False 10 1 ?w = Inr s"
    by (simp add: usage_def summary_def query_def Let_def)
  from this dashboard_metrics_consistent [OF this] show ?thesis
    by (auto simp: owned_logs_def user_key_ids_def demo_log_def demo_app_world_def sample_row_def count_if_def)
qed

section \<open>An operator's key\<close>

definition demo_cli_env :: cli_env where
  "demo_cli_env = \<lparr>ce_now = 5, ce_fault_lookup = False, ce_fault_write = False, ce_prefix_bytes = [1, 2, 3, 4],
     ce_secret_bytes = replicate 16 7, ce_salt = [], ce_fresh_id = 7, ce_keys = ref_key_lib, ce_pretty = (\<lambda>_. None),
     ce_time_json = (\<lambda>t. JNum t)\<rparr>"


section \<open>A proof from the node\<close>

definition demo_node :: proof_client where
  "demo_node = \<lparr>px_http = (\<lambda>rq. Inr \<lparr>rs_result = Some (if JsonRpcRequest.rq_method rq = ''get_transaction_proof''
       then JObj [(''block_hash'', JStr (encode_prefixed (bytes32 1))), (''lemmas'', JArr [])] else JObj [(''number'', JStr ''0x1'')]),
     rs_error = None\<rparr>), px_next_id = 0\<rparr>"

lemma demo_proof: "\<exists>r. passthrough ref_hex_decode (Some demo_node) (encode_prefixed (bytes32 2)) = Inr r"
  using decode_encode_prefixed [OF ref_hex_decodes, of "bytes32 2"] decode_encode_prefixed [OF ref_hex_decodes, of "bytes32 1"]
  by (simp add: passthrough_def parse_tx_hash_def raw_call_def ckb_call_def demo_node_def json_get_def json_as_str_def try_from_slice_def
      Let_def)

theorem proof_passthrough_faithful_witness:
  "\<exists>r. passthrough ref_hex_decode (Some demo_node) (encode_prefixed (bytes32 2)) = Inr r \<and>
     json_get ''block_hash'' (pr_proof r) = None \<and> length (Hex32_as_bytes (pr_tx_hash r)) = 32"
proof -
  obtain r where r: "passthrough ref_hex_decode (Some demo_node) (encode_prefixed (bytes32 2)) = Inr r" using demo_proof by blast
  from proof_passthrough_faithful [OF this] r show ?thesis by auto
qed

end
