(* ===== verification/ChainReplay.thy ===== *)
theory ChainReplay
  imports PollerInv
begin

text \<open>
  The abstract specification of the index: a chain is a list of parsed blocks, indexing appends to
  it and a reorganisation cuts it back.  The tables represent a chain when they are what writing its
  blocks one after the other leaves; the steps of the poller refine the abstract operations, and
  the cells reported live are the unspent outputs of the chain.
\<close>

section \<open>Well-formed parses\<close>

definition ref_key :: "ConsumedCellRef \<Rightarrow> bytes \<times> i32" where
  "ref_key r = (cc_tx_hash r, cc_output_index r)"

definition pb_wf :: "ParsedBlock \<Rightarrow> bool" where
  "pb_wf p \<longleftrightarrow>
     (\<forall>t\<in>set (pb_transactions p). tr_block_number t = br_number (pb_block p)) \<and>
     (\<forall>c\<in>set (pb_cells p). cr_block_number c = br_number (pb_block p)) \<and>
     (\<forall>r\<in>set (pb_consumed p). cc_consumed_at_block_number r = br_number (pb_block p))"

lemma parse_block_tx:
  assumes "collect_results (parse_tx lib n) (enumerate 0 txs) = Inr ps" and "(row, cells, refs) \<in> set ps"
  shows "\<exists>i tx. parse_tx lib n (i, tx) = Inr (row, cells, refs)"
proof -
  from assms(1) have "map (parse_tx lib n) (enumerate 0 txs) = map Inr ps"
    by (simp add: collect_results_Inr)
  then have "Inr (row, cells, refs) \<in> parse_tx lib n ` set (enumerate 0 txs)"
    using assms(2) by (metis image_eqI list.set_map)
  then show ?thesis by fastforce
qed

lemma parse_block_wf: "parse_block lib view = Inr p \<Longrightarrow> pb_wf p"
proof (erule parse_block_Inr)
  fix ps
  assume ps: "collect_results (parse_tx lib (bv_number view)) (enumerate 0 (bv_transactions view)) = Inr ps"
    and parts: "pb_transactions p = map fst ps" "pb_cells p = concat (map (fst \<circ> snd) ps)"
      "pb_consumed p = concat (map (snd \<circ> snd) ps)" "br_number (pb_block p) = bv_number view"
  have "tr_block_number row = bv_number view \<and> (\<forall>c\<in>set cells. cr_block_number c = bv_number view)
      \<and> (\<forall>r\<in>set refs. cc_consumed_at_block_number r = bv_number view)"
    if "(row, cells, refs) \<in> set ps" for row cells refs
  proof -
    from parse_block_tx [OF ps that] obtain i tx
      where "parse_tx lib (bv_number view) (i, tx) = Inr (row, cells, refs)" by blast
    from parse_tx_rows [OF this] show ?thesis
      by (auto simp: consumed_refs_def consumed_ref_def dest: created_cells_block_number)
  qed
  then show "pb_wf p" unfolding pb_wf_def parts by fastforce
qed

section \<open>The chain as a list of parsed blocks\<close>

text \<open>The abstract state of the index is the list of blocks that make up the chain, each with the
  time it was written; its concrete state is what writing them one after the other leaves.\<close>

type_synonym history = "(timestamp \<times> ParsedBlock) list"

definition replay :: "history \<Rightarrow> chain_db" where
  "replay es = fold (\<lambda>(t, p). indexed_db t p) es empty_chain_db"

definition represents :: "history \<Rightarrow> chain_db \<Rightarrow> bool" where
  "represents es d \<longleftrightarrow> d = (replay es)\<lparr>db_reorg_log := db_reorg_log d\<rparr>"

definition history_refs :: "history \<Rightarrow> ConsumedCellRef list" where
  "history_refs es = concat (map (pb_consumed \<circ> snd) es)"

text \<open>No cell is spent twice: what consensus guarantees of the chain the node serves.\<close>

definition no_double_spend :: "history \<Rightarrow> bool" where
  "no_double_spend es \<longleftrightarrow> distinct (map ref_key (history_refs es))"

lemma replay_Nil [simp]: "replay [] = empty_chain_db"
  by (simp add: replay_def)

lemma replay_snoc [simp]: "replay (es @ [(t, p)]) = indexed_db t p (replay es)"
  by (simp add: replay_def)

lemma history_refs_simps [simp]:
  "history_refs [] = []" "history_refs (es @ fs) = history_refs es @ history_refs fs"
  "history_refs [(t, p)] = pb_consumed p"
  by (simp_all add: history_refs_def)

lemma replay_blocks: "db_blocks (replay es) = map (\<lambda>(t, p). mk_block t (pb_block p)) es"
  by (induction es rule: rev_induct) (auto simp: indexed_db_def empty_chain_db_def)

lemma replay_transactions: "db_transactions (replay es) = concat (map (pb_transactions \<circ> snd) es)"
  by (induction es rule: rev_induct) (auto simp: indexed_db_def empty_chain_db_def)

lemma replay_log: "db_reorg_log (replay es) = []"
  by (induction es rule: rev_induct) (auto simp: indexed_db_def empty_chain_db_def)

lemma replay_state:
  "db_indexer_state (replay es) = (if es = [] then None else
     Some \<lparr>cp_last_indexed_block = br_number (pb_block (snd (last es))),
           cp_last_indexed_hash = br_hash (pb_block (snd (last es)))\<rparr>)"
  by (induction es rule: rev_induct) (auto simp: indexed_db_def empty_chain_db_def)

lemma agree_consume_all [simp]:
  "consumed_columns_agree c \<Longrightarrow> consumed_columns_agree (consume_all refs c)"
  by (induction refs arbitrary: c) simp_all

lemma replay_snoc_cellE:
  assumes "c \<in> set (db_cells (replay (es @ [(t, p)])))"
  obtains c0 where "c = consume_all (pb_consumed p) c0"
    "c0 \<in> set (db_cells (replay es)) \<or> (\<exists>row\<in>set (pb_cells p). c0 = stored_of_row row)"
  using assms by (auto simp: indexed_db_def)

lemma replay_agree: "c \<in> set (db_cells (replay es)) \<Longrightarrow> consumed_columns_agree c"
  by (induction es arbitrary: c rule: rev_induct) (auto simp: indexed_db_def empty_chain_db_def)

lemma replay_cell_block:
  assumes "\<forall>(t, p)\<in>set es. pb_wf p" and "c \<in> set (db_cells (replay es))"
  shows "\<exists>(t, p)\<in>set es. c_block_number c = br_number (pb_block p)"
  using assms
proof (induction es arbitrary: c rule: rev_induct)
  case (snoc x es)
  obtain t p where x: "x = (t, p)" by fastforce
  from snoc.prems(2) [unfolded x] obtain c0 where c: "c = consume_all (pb_consumed p) c0"
    and c0: "c0 \<in> set (db_cells (replay es)) \<or> (\<exists>row\<in>set (pb_cells p). c0 = stored_of_row row)"
    by (rule replay_snoc_cellE)
  from c0 show ?case
  proof
    assume "c0 \<in> set (db_cells (replay es))"
    then show ?thesis using snoc c by fastforce
  next
    assume "\<exists>row\<in>set (pb_cells p). c0 = stored_of_row row"
    then show ?thesis using snoc.prems(1) by (auto simp: x c pb_wf_def stored_of_row_def)
  qed
qed (simp add: empty_chain_db_def)

lemma consume_all_marked:
  "c_consumed_at_block_number (consume_all refs c) \<noteq> c_consumed_at_block_number c \<Longrightarrow>
     cell_key c \<in> ref_key ` set refs"
  using consume_all_untouched [of refs c] by (force simp: ref_key_def)

lemma replay_consumed_key:
  "c \<in> set (db_cells (replay es)) \<Longrightarrow> c_consumed_at_block_number c \<noteq> None \<Longrightarrow>
     cell_key c \<in> ref_key ` set (history_refs es)"
proof (induction es arbitrary: c rule: rev_induct)
  case (snoc x es)
  obtain t p where x: "x = (t, p)" by fastforce
  from snoc.prems(1) [unfolded x] obtain c0 where c: "c = consume_all (pb_consumed p) c0"
    and c0: "c0 \<in> set (db_cells (replay es)) \<or> (\<exists>row\<in>set (pb_cells p). c0 = stored_of_row row)"
    by (rule replay_snoc_cellE)
  show ?case
  proof (cases "c_consumed_at_block_number c0 = None")
    case True
    with snoc.prems(2) c have "cell_key c0 \<in> ref_key ` set (pb_consumed p)"
      by (intro consume_all_marked) simp
    then show ?thesis by (auto simp: x c)
  next
    case False
    then have "c0 \<in> set (db_cells (replay es))" using c0 by (auto simp: stored_of_row_def)
    with False snoc.IH show ?thesis by (auto simp: x c)
  qed
qed (simp add: empty_chain_db_def)

lemma replay_consumed_at:
  assumes "\<forall>(t, p)\<in>set es. pb_wf p" and "c \<in> set (db_cells (replay es))"
    and "c_consumed_at_block_number c = Some n"
  shows "\<exists>(t, p)\<in>set es. n = br_number (pb_block p)"
  using assms
proof (induction es arbitrary: c rule: rev_induct)
  case (snoc x es)
  obtain t p where x: "x = (t, p)" by fastforce
  from snoc.prems(2) [unfolded x] obtain c0 where c: "c = consume_all (pb_consumed p) c0"
    and c0: "c0 \<in> set (db_cells (replay es)) \<or> (\<exists>row\<in>set (pb_cells p). c0 = stored_of_row row)"
    by (rule replay_snoc_cellE)
  from consume_all_consumed_at [OF snoc.prems(3) [unfolded c]] show ?case
  proof
    assume at: "c_consumed_at_block_number c0 = Some n"
    then have "c0 \<in> set (db_cells (replay es))" using c0 by (auto simp: stored_of_row_def)
    from snoc.IH [OF _ this at] snoc.prems(1) show ?thesis by auto
  next
    assume "\<exists>r\<in>set (pb_consumed p). cc_consumed_at_block_number r = n"
    then show ?thesis using snoc.prems(1) by (auto simp: x pb_wf_def)
  qed
qed (simp add: empty_chain_db_def)

section \<open>Rolling back undoes indexing\<close>

lemma restore_consume_all:
  assumes "\<forall>r\<in>set refs. cc_consumed_at_block_number r > A"
    and "consumed_columns_agree c" and "c_consumed_at_block_number c \<noteq> None \<Longrightarrow> cell_key c \<notin> ref_key ` set refs"
  shows "restore A (consume_all refs c) = restore A c"
proof (cases "cell_key c \<in> ref_key ` set refs")
  case False
  then have "consume_all refs c = c" by (intro consume_all_untouched) (force simp: ref_key_def)
  then show ?thesis by simp
next
  case True
  then have none: "c_consumed_at_block_number c = None" using assms(3) by blast
  have "restore A (consume_all refs c') = c'\<lparr>c_consumed_by_tx_hash := None,
      c_consumed_by_input_index := None, c_consumed_at_block_number := None\<rparr>"
    if "c_consumed_at_block_number c' = None \<and> consumed_columns_agree c'
        \<or> (\<exists>n. c_consumed_at_block_number c' = Some n \<and> n > A)" for c'
    using that assms(1)
  proof (induction refs arbitrary: c')
    case Nil
    then show ?case by (auto simp: restore_def consumed_columns_agree_def)
  next
    case (Cons r refs)
    have "c_consumed_at_block_number (consume r c') = None \<and> consumed_columns_agree (consume r c')
        \<or> (\<exists>n. c_consumed_at_block_number (consume r c') = Some n \<and> n > A)"
      using Cons.prems by (auto simp: consume_def)
    from Cons.IH [OF this] Cons.prems show ?case by (simp add: consume_def)
  qed
  from this [of c] none assms(2) show ?thesis
    by (auto simp: restore_def consumed_columns_agree_def)
qed

lemma restored_cells:
  assumes "\<forall>(t, p)\<in>set (es @ qs). pb_wf p" and "no_double_spend (es @ qs)"
    and "\<forall>(t, p)\<in>set es. br_number (pb_block p) \<le> A" and "\<forall>(t, p)\<in>set qs. br_number (pb_block p) > A"
  shows "filter (\<lambda>c. c_block_number c \<le> A) (map (restore A) (db_cells (replay (es @ qs))))
    = db_cells (replay es)"
  using assms
proof (induction qs rule: rev_induct)
  case Nil
  have "restore A c = c" if c: "c \<in> set (db_cells (replay es))" for c
  proof (rule ccontr)
    assume neq: "restore A c \<noteq> c"
    then obtain n where n: "c_consumed_at_block_number c = Some n" "n > A"
      by (auto simp: restore_def split: option.splits if_splits)
    have "\<exists>(t, p)\<in>set es. n = br_number (pb_block p)"
      using Nil.prems(1) by (intro replay_consumed_at [OF _ c n(1)]) simp
    with n(2) Nil.prems(3) show False by fastforce
  qed
  moreover have "c_block_number c \<le> A" if "c \<in> set (db_cells (replay es))" for c
    using replay_cell_block [OF _ that] Nil.prems(1,3) by fastforce
  ultimately show ?case by (simp add: filter_True_iff map_idI_on)
next
  case (snoc x qs)
  obtain t p where x: "x = (t, p)" by fastforce
  let ?C = "db_cells (replay (es @ qs))"
  have wf: "pb_wf p" and big: "br_number (pb_block p) > A" using snoc.prems by (auto simp: x)
  have fresh: "cell_key c \<notin> ref_key ` set (pb_consumed p)"
    if "c \<in> set ?C" "c_consumed_at_block_number c \<noteq> None" for c
    using replay_consumed_key [OF that] snoc.prems(2)
    by (auto simp: no_double_spend_def x)
  have "map (restore A) (map (consume_all (pb_consumed p)) ?C) = map (restore A) ?C"
    using wf big fresh replay_agree
    by (auto simp: pb_wf_def intro!: restore_consume_all)
  moreover have "filter (\<lambda>c. c_block_number c \<le> A) (map (restore A)
      (map (consume_all (pb_consumed p)) (map stored_of_row (pb_cells p)))) = []"
    using wf big by (auto simp: filter_empty_conv pb_wf_def stored_of_row_def)
  moreover have "db_cells (replay (es @ qs @ [x])) =
      map (consume_all (pb_consumed p)) (?C @ map stored_of_row (pb_cells p))"
    using replay_snoc [of "es @ qs" t p] by (simp add: x indexed_db_def)
  moreover have "filter (\<lambda>c. c_block_number c \<le> A) (map (restore A) ?C) = db_cells (replay es)"
    using snoc.prems by (intro snoc.IH) (simp_all add: no_double_spend_def Int_Un_distrib)
  ultimately show ?case by (simp only: map_append filter_append append_Nil2)
qed

text \<open>Cutting the history back to a prefix that ends at the ancestor is what the rollback computes.\<close>

lemma rolled_back_replay:
  assumes wf: "\<forall>(t, p)\<in>set (es @ qs). pb_wf p" and nds: "no_double_spend (es @ qs)"
    and lo: "\<forall>(t, p)\<in>set es. br_number (pb_block p) \<le> A" and hi: "\<forall>(t, p)\<in>set qs. br_number (pb_block p) > A"
    and last: "es \<noteq> []" "br_number (pb_block (snd (last es))) = A" "br_hash (pb_block (snd (last es))) = h"
  shows "rolled_back A h ((replay (es @ qs))\<lparr>db_reorg_log := entries\<rparr>) = (replay es)\<lparr>db_reorg_log := entries\<rparr>"
proof -
  let ?d = "replay (es @ qs)"
  let ?keys = "br_number ` set (filter (\<lambda>b. br_number b > A) (db_blocks ?d))"
  have keys: "?keys = (\<lambda>(t, p). br_number (pb_block p)) ` set qs"
  proof -
    have "filter (\<lambda>b. br_number b > A) (db_blocks ?d) = map (\<lambda>(t, p). mk_block t (pb_block p)) qs"
      unfolding replay_blocks map_append by (rule filter_append_right) (use lo hi in auto)
    then show ?thesis by (simp add: image_image split_def)
  qed
  have "filter (\<lambda>b. \<not> br_number b > A) (db_blocks ?d) = db_blocks (replay es)"
    unfolding replay_blocks map_append by (rule filter_append_left) (use lo hi in auto)
  moreover have "filter (\<lambda>t. tr_block_number t \<notin> ?keys) (db_transactions ?d) = db_transactions (replay es)"
  proof -
    have "filter (\<lambda>t. tr_block_number t \<notin> ?keys) (db_transactions (replay es)) = db_transactions (replay es)"
      using wf lo hi unfolding keys filter_True_iff
      by (fastforce simp: replay_transactions pb_wf_def)
    moreover have "filter (\<lambda>t. tr_block_number t \<notin> ?keys) (concat (map (pb_transactions \<circ> snd) qs)) = []"
      using wf unfolding keys filter_empty_conv by (fastforce simp: pb_wf_def)
    ultimately show ?thesis by (simp add: replay_transactions)
  qed
  moreover have "filter (\<lambda>c. c_block_number c \<notin> ?keys) (map (restore A) (db_cells ?d)) = db_cells (replay es)"
  proof -
    have "c_block_number c \<notin> ?keys \<longleftrightarrow> c_block_number c \<le> A" if "c \<in> set (db_cells ?d)" for c
      using replay_cell_block [OF wf that] lo hi unfolding keys by fastforce
    then have "filter (\<lambda>c. c_block_number c \<notin> ?keys) (map (restore A) (db_cells ?d))
        = filter (\<lambda>c. c_block_number c \<le> A) (map (restore A) (db_cells ?d))"
      by (intro filter_cong) auto
    then show ?thesis using restored_cells [OF wf nds lo hi] by simp
  qed
  moreover have "Some \<lparr>cp_last_indexed_block = A, cp_last_indexed_hash = h\<rparr> = db_indexer_state (replay es)"
    using last by (simp add: replay_state)
  ultimately show ?thesis unfolding rolled_back_def Let_def by simp
qed

section \<open>The refinement\<close>

lemma represents_iff: "represents es d \<longleftrightarrow> (\<exists>entries. d = (replay es)\<lparr>db_reorg_log := entries\<rparr>)"
  by (auto simp: represents_def)

lemma indexed_db_log:
  "indexed_db t p (d\<lparr>db_reorg_log := entries\<rparr>) = (indexed_db t p d)\<lparr>db_reorg_log := entries\<rparr>"
  by (simp add: indexed_db_def)

lemma index_body_represents:
  assumes "represents es d" and "index_body pg p d = Inr (u, d')"
  shows "represents (es @ [(pg_now pg, p)]) d'"
  using assms index_body_Inr [OF assms(2)] unfolding represents_iff
  by (auto simp: indexed_db_log)

lemma represents_blocks:
  "represents es d \<Longrightarrow> db_blocks d = map (\<lambda>(t, p). mk_block t (pb_block p)) es"
  by (auto simp: represents_iff replay_blocks)

lemma rollback_body_represents:
  assumes rep: "represents es d" and ok: "chain_ok d"
    and wf: "\<forall>(t, p)\<in>set es. pb_wf p" and nds: "no_double_spend es"
    and rb: "rollback_body pg a prev ih d = Inr (out, d')"
    and b: "b \<in> set (db_blocks d)" "br_number b = an_block_number a" "br_hash b = an_node_hash a"
  shows "\<exists>k<length es. br_number (pb_block (snd (es ! k))) = an_block_number a \<and> represents (take (Suc k) es) d'"
proof -
  let ?A = "an_block_number a"
  have linked: "chain_linked (db_blocks d)" using ok by (simp add: chain_ok_def)
  obtain k where k: "k < length (db_blocks d)" "b = db_blocks d ! k" using b(1) by (auto simp: in_set_conv_nth)
  have blocks: "db_blocks d = map (\<lambda>(t, p). mk_block t (pb_block p)) es" using rep by (rule represents_blocks)
  have num: "br_number (pb_block (snd (es ! j))) = ?A + int j - int k" if "j < length es" for j
    using chain_linked_numbers [OF linked, of j] chain_linked_numbers [OF linked k(1)] that k b(2)
    by (simp add: blocks split_def)
  have kl: "k < length es" using k(1) by (simp add: blocks)
  have hash: "br_hash (pb_block (snd (es ! k))) = an_node_hash a" using k b(3) by (simp add: blocks split_def)
  have lo: "\<forall>(t, p)\<in>set (take (Suc k) es). br_number (pb_block p) \<le> ?A"
    by (auto simp: in_set_conv_nth dest!: num)
  have hi: "\<forall>(t, p)\<in>set (drop (Suc k) es). br_number (pb_block p) > ?A"
  proof -
    have "br_number (pb_block (snd (es ! Suc (k + i)))) > ?A" if "i < length es - Suc k" for i
      using num [of "Suc (k + i)"] that by simp
    then show ?thesis by (fastforce simp: in_set_conv_nth)
  qed
  have last: "last (take (Suc k) es) = es ! k" using kl by (simp add: take_Suc_conv_app_nth)
  obtain entries where d: "d = (replay es)\<lparr>db_reorg_log := entries\<rparr>" using rep by (auto simp: represents_iff)
  have "rolled_back ?A (an_node_hash a) ((replay (take (Suc k) es @ drop (Suc k) es))\<lparr>db_reorg_log := entries\<rparr>)
      = (replay (take (Suc k) es))\<lparr>db_reorg_log := entries\<rparr>"
  proof (rule rolled_back_replay)
    show "take (Suc k) es \<noteq> []" using kl by auto
  qed (use wf nds lo hi last num [OF kl] hash in simp_all)
  then have "rolled_back ?A (an_node_hash a) d = (replay (take (Suc k) es))\<lparr>db_reorg_log := entries\<rparr>"
    by (simp add: d)
  with rollback_body_Inr(1) [OF rb] have "represents (take (Suc k) es) d'"
    by (auto simp: represents_iff)
  with kl num [OF kl] show ?thesis by auto
qed


definition sample_fork_history :: history where
  "sample_fork_history = [(50, parsed_genesis), (50, parsed_fork_one)]"

lemma sample_fork_history_facts:
  "represents sample_fork_history sample_fork_db"
  "\<forall>(t, p)\<in>set sample_fork_history. pb_wf p" "no_double_spend sample_fork_history"
  by (simp_all add: sample_fork_history_def represents_def replay_def sample_fork_db_def indexed_db_def
      empty_chain_db_def parsed_defs pb_wf_def no_double_spend_def history_refs_def)

lemma sample_fork_next: "next_height config sample_fork_db = 2"
  by (simp add: next_height_def sample_fork_db_def indexed_db_def parsed_defs)


section \<open>The live cell set\<close>

text \<open>The set of unspent outputs a chain defines: each block first adds the outputs it creates, then
  removes the ones it spends.\<close>

definition utxo :: "history \<Rightarrow> (bytes \<times> i32) set" where
  "utxo es = fold (\<lambda>(t, p) live.
     (live \<union> (\<lambda>c. (cr_tx_hash c, cr_output_index c)) ` set (pb_cells p)) - ref_key ` set (pb_consumed p))
     es {}"

definition live_keys :: "chain_db \<Rightarrow> (bytes \<times> i32) set" where
  "live_keys d = cell_key ` {c \<in> set (db_cells d). c_consumed_by_tx_hash c = None}"

lemma consume_all_live:
  "c_consumed_by_tx_hash (consume_all refs c) = None \<longleftrightarrow>
     c_consumed_by_tx_hash c = None \<and> cell_key c \<notin> ref_key ` set refs"
proof (induction refs arbitrary: c)
  case (Cons r refs)
  then show ?case by (auto simp: consume_def ref_key_def cell_key_def split: if_splits)
qed simp

lemma live_consume_image:
  "cell_key ` {c \<in> consume_all refs ` S. c_consumed_by_tx_hash c = None} =
     cell_key ` {c \<in> S. c_consumed_by_tx_hash c = None} - ref_key ` set refs"
proof -
  have "{c \<in> consume_all refs ` S. c_consumed_by_tx_hash c = None} =
      consume_all refs ` {c \<in> S. c_consumed_by_tx_hash c = None \<and> cell_key c \<notin> ref_key ` set refs}"
    by (auto simp: consume_all_live)
  moreover have "f ` {c \<in> S. P c \<and> f c \<notin> K} = f ` {c \<in> S. P c} - K" for f :: "CellStored \<Rightarrow> bytes \<times> i32" and P K
    by blast
  ultimately show ?thesis by (simp add: image_image)
qed

lemma live_keys_indexed:
  "live_keys (indexed_db t p d) =
     (live_keys d \<union> (\<lambda>c. (cr_tx_hash c, cr_output_index c)) ` set (pb_cells p)) - ref_key ` set (pb_consumed p)"
proof -
  have "{c \<in> stored_of_row ` set (pb_cells p). c_consumed_by_tx_hash c = None} = stored_of_row ` set (pb_cells p)"
    by (auto simp: stored_of_row_def)
  then have "cell_key ` {c \<in> set (db_cells d) \<union> stored_of_row ` set (pb_cells p). c_consumed_by_tx_hash c = None}
      = live_keys d \<union> (\<lambda>c. (cr_tx_hash c, cr_output_index c)) ` set (pb_cells p)"
    by (simp add: live_keys_def Collect_disj_eq conj_disj_distribR image_Un image_image)
      (simp add: cell_key_def stored_of_row_def)
  then show ?thesis
    using live_consume_image [of "pb_consumed p" "set (db_cells d) \<union> stored_of_row ` set (pb_cells p)"]
    by (simp add: live_keys_def indexed_db_def image_Un image_image)
qed

lemma utxo_snoc: "utxo (es @ [(t, p)]) =
  (utxo es \<union> (\<lambda>c. (cr_tx_hash c, cr_output_index c)) ` set (pb_cells p)) - ref_key ` set (pb_consumed p)"
  by (simp add: utxo_def)

lemma live_keys_replay: "live_keys (replay es) = utxo es"
proof (induction es rule: rev_induct)
  case (snoc x es)
  then show ?case by (cases x) (simp add: live_keys_indexed utxo_snoc)
qed (simp add: live_keys_def utxo_def empty_chain_db_def)

lemma represents_live_keys:
  assumes "represents es d"
  shows "live_keys d = utxo es"
proof -
  from assms obtain entries where "d = (replay es)\<lparr>db_reorg_log := entries\<rparr>"
    by (auto simp: represents_iff)
  then show ?thesis using live_keys_replay [of es] by (simp add: live_keys_def)
qed

end
