(* ===== verification/Convergence.thy ===== *)
theory Convergence
  imports ChainReplay
begin

text \<open>
  Liveness of the poller: without faults every iteration against a node with a settled chain makes
  progress, so the index reaches that chain from any fork of it.
\<close>

section \<open>Fault-free transactions succeed\<close>

definition quiet_pg :: "pg_env \<Rightarrow> bool" where
  "quiet_pg pg \<longleftrightarrow> \<not> pg_hash_at pg \<and> (\<forall>h. \<not> pg_walk_hash_at pg h) \<and> \<not> pg_begin pg \<and> \<not> pg_block_insert pg \<and>
     (\<forall>r. \<not> pg_tx_insert pg r) \<and> (\<forall>r. \<not> pg_cell_insert pg r) \<and> (\<forall>r. \<not> pg_mark_consumed pg r) \<and>
     \<not> pg_checkpoint pg \<and> \<not> pg_reorg_insert pg \<and> \<not> pg_restore pg \<and> \<not> pg_delete pg \<and>
     \<not> pg_reorg_complete pg \<and> pg_commit pg = CommitOk"

lemma transactions_insert_batch_succeeds:
  assumes "\<And>r. \<not> fault r" and "distinct (map tr_hash (db_transactions d @ rows))"
    and "\<forall>r\<in>set rows. tr_block_number r \<in> br_number ` set (db_blocks d)"
  shows "transactions_insert_batch fault rows d = Inr (d\<lparr>db_transactions := db_transactions d @ rows\<rparr>)"
  using assms(2,3) unfolding transactions_insert_batch_def
proof (induction rows arbitrary: d)
  case (Cons r rows)
  then have "transactions_insert (fault r) r d = Inr (d\<lparr>db_transactions := db_transactions d @ [r]\<rparr>)"
    using assms(1) by (simp add: transactions_insert_def)
  with Cons.IH [of "d\<lparr>db_transactions := db_transactions d @ [r]\<rparr>"] Cons.prems show ?case by simp
qed simp

lemma cells_insert_batch_succeeds:
  assumes "\<And>r. \<not> fault r" and "distinct (map cell_key (db_cells d @ map stored_of_row rows))"
    and "\<forall>r\<in>set rows. cr_block_number r \<in> br_number ` set (db_blocks d)"
  shows "cells_insert_batch fault rows d = Inr (d\<lparr>db_cells := db_cells d @ map stored_of_row rows\<rparr>)"
  using assms(2,3) unfolding cells_insert_batch_def
proof (induction rows arbitrary: d)
  case (Cons r rows)
  then have "cells_insert (fault r) r d = Inr (d\<lparr>db_cells := db_cells d @ [stored_of_row r]\<rparr>)"
    using assms(1) by (simp add: cells_insert_def)
  with Cons.IH [of "d\<lparr>db_cells := db_cells d @ [stored_of_row r]\<rparr>"] Cons.prems show ?case by simp
qed simp

lemma index_body_succeeds:
  assumes "quiet_pg pg" and "pb_wf p"
    and "br_number (pb_block p) \<notin> br_number ` set (db_blocks d)"
    and "br_hash (pb_block p) \<notin> br_hash ` set (db_blocks d)"
    and "distinct (map tr_hash (db_transactions d @ pb_transactions p))"
    and "distinct (map cell_key (db_cells d @ map stored_of_row (pb_cells p)))"
  shows "index_body pg p d = Inr ((), indexed_db (pg_now pg) p d)"
proof -
  let ?d1 = "d\<lparr>db_blocks := db_blocks d @ [mk_block (pg_now pg) (pb_block p)]\<rparr>"
  let ?d2 = "?d1\<lparr>db_transactions := db_transactions d @ pb_transactions p\<rparr>"
  let ?d3 = "?d2\<lparr>db_cells := db_cells d @ map stored_of_row (pb_cells p)\<rparr>"
  have "blocks_insert (pg_block_insert pg) (pg_now pg) (pb_block p) d = Inr ?d1"
    using assms by (simp add: blocks_insert_def quiet_pg_def)
  moreover have "transactions_insert_batch (pg_tx_insert pg) (pb_transactions p) ?d1 = Inr ?d2"
    using assms transactions_insert_batch_succeeds [of "pg_tx_insert pg" ?d1 "pb_transactions p"]
    by (simp add: quiet_pg_def pb_wf_def)
  moreover have "cells_insert_batch (pg_cell_insert pg) (pb_cells p) ?d2 = Inr ?d3"
    using assms cells_insert_batch_succeeds [of "pg_cell_insert pg" ?d2 "pb_cells p"]
    by (simp add: quiet_pg_def pb_wf_def)
  ultimately show ?thesis
    using assms(1) cells_mark_consumed_succeeds [of "pg_mark_consumed pg" "pb_consumed p" ?d3]
    by (simp add: index_body_def checkpoint_upsert_def quiet_pg_def indexed_db_def)
qed

lemma rollback_body_succeeds:
  assumes "quiet_pg pg" and "pg_serial pg \<notin> rl_id ` set (db_reorg_log d)"
  shows "\<exists>out d'. rollback_body pg a prev ih d = Inr (out, d')"
  using assms by (simp add: rollback_body_def Let_def db_defs quiet_pg_def)

section \<open>Following a node\<close>

text \<open>The node serves the chain \<open>bs\<close>, whose blocks parse to \<open>ps\<close>; hashes are unique along it.\<close>

definition serves :: "node \<Rightarrow> BlockView list \<Rightarrow> bool" where
  "serves ckb bs \<longleftrightarrow>
     (\<forall>n. ckb n = Inr (if 0 \<le> n \<and> n < int (length bs) then Some (bs ! nat n) else None))"

definition canonical :: "parse_lib \<Rightarrow> BlockView list \<Rightarrow> ParsedBlock list \<Rightarrow> bool" where
  "canonical lib bs ps \<longleftrightarrow>
     map (parse_block lib) bs = map Inr ps \<and>
     (\<forall>i<length bs. bv_number (bs ! i) = int i) \<and>
     (\<forall>i. Suc i < length bs \<longrightarrow> bv_parent_hash (bs ! Suc i) = bv_hash (bs ! i)) \<and>
     distinct (map bv_hash bs) \<and>
     distinct (map tr_hash (concat (map pb_transactions ps))) \<and>
     distinct (map (\<lambda>c. (cr_tx_hash c, cr_output_index c)) (concat (map pb_cells ps))) \<and>
     int (length bs) < i64_MAX"

lemma canonical_length: "canonical lib bs ps \<Longrightarrow> length ps = length bs"
  by (auto simp: canonical_def dest!: arg_cong [where f = length])

lemma canonical_nth:
  assumes "canonical lib bs ps" and "i < length bs"
  shows "parse_block lib (bs ! i) = Inr (ps ! i)" "br_number (pb_block (ps ! i)) = int i"
    "br_hash (pb_block (ps ! i)) = bv_hash (bs ! i)"
    "br_parent_hash (pb_block (ps ! i)) = bv_parent_hash (bs ! i)" "pb_wf (ps ! i)"
proof -
  have "map (parse_block lib) bs ! i = map Inr ps ! i" using assms by (simp add: canonical_def)
  then show p: "parse_block lib (bs ! i) = Inr (ps ! i)"
    using assms canonical_length by simp
  show "br_number (pb_block (ps ! i)) = int i"
    using p assms by (auto simp: canonical_def elim!: parse_block_Inr)
  show "br_hash (pb_block (ps ! i)) = bv_hash (bs ! i)"
    "br_parent_hash (pb_block (ps ! i)) = bv_parent_hash (bs ! i)"
    using p by (auto elim!: parse_block_Inr)
  show "pb_wf (ps ! i)" using p by (rule parse_block_wf)
qed

lemma serves_numbered: "serves ckb bs \<Longrightarrow> canonical lib bs ps \<Longrightarrow> node_numbered ckb"
  by (auto simp: serves_def canonical_def node_numbered_def split: if_splits)

lemma serves_nth: "serves ckb bs \<Longrightarrow> i < length bs \<Longrightarrow> ckb (int i) = Inr (Some (bs ! i))"
  by (simp add: serves_def)

text \<open>The index holds the first \<open>k\<close> blocks of the node's chain and the loop asks for the next.\<close>

definition synced :: "Poller \<Rightarrow> ParsedBlock list \<Rightarrow> nat \<Rightarrow> loop_state \<Rightarrow> bool" where
  "synced self ps k s \<longleftrightarrow> poller_ok self s \<and> k \<le> length ps \<and>
     (\<exists>es. represents es (w_db (ls_world s)) \<and> map snd es = take k ps) \<and> ls_next_block s = int k"

lemma replay_cell_keys:
  "map cell_key (db_cells (replay es)) =
     map (\<lambda>c. (cr_tx_hash c, cr_output_index c)) (concat (map (pb_cells \<circ> snd) es))"
proof (induction es rule: rev_induct)
  case (snoc x es)
  have "cell_key (stored_of_row r) = (cr_tx_hash r, cr_output_index r)" for r
    by (simp add: cell_key_def stored_of_row_def)
  then show ?case using snoc
    by (cases x) (simp add: indexed_db_def comp_def)
qed (simp add: empty_chain_db_def)

lemma prefix_insertable:
  assumes can: "canonical lib bs ps" and k: "k < length ps"
    and rep: "represents es d" and es: "map snd es = take k ps" and quiet: "quiet_pg pg"
  shows "index_body pg (ps ! k) d = Inr ((), indexed_db (pg_now pg) (ps ! k) d)"
proof (rule index_body_succeeds [OF quiet])
  note len = canonical_length [OF can]
  have kb: "k < length bs" using k len by simp
  show "pb_wf (ps ! k)" using can kb by (rule canonical_nth)
  have numbers: "map br_number (db_blocks d) = map (\<lambda>p. br_number (pb_block p)) (take k ps)"
    and hashes: "map br_hash (db_blocks d) = map (\<lambda>p. br_hash (pb_block p)) (take k ps)"
    using represents_blocks [OF rep] es by (simp_all add: es [symmetric] split_def)
  show "br_number (pb_block (ps ! k)) \<notin> br_number ` set (db_blocks d)"
  proof -
    have "br_number ` set (db_blocks d) = (\<lambda>p. br_number (pb_block p)) ` set (take k ps)"
      using numbers by (metis list.set_map)
    then show ?thesis using canonical_nth(2) [OF can] kb k len
      by (auto simp: in_set_conv_nth)
  qed
  show "br_hash (pb_block (ps ! k)) \<notin> br_hash ` set (db_blocks d)"
  proof -
    have "br_hash ` set (db_blocks d) = (\<lambda>p. br_hash (pb_block p)) ` set (take k ps)"
      using hashes by (metis list.set_map)
    moreover have "br_hash (pb_block (ps ! i)) \<noteq> br_hash (pb_block (ps ! k))" if "i < k" for i
    proof -
      have "bv_hash (bs ! i) \<noteq> bv_hash (bs ! k)"
        using can that kb by (auto simp: canonical_def distinct_conv_nth)
      then show ?thesis using canonical_nth(3) [OF can] kb that by simp
    qed
    ultimately show ?thesis using k by (auto simp: in_set_conv_nth) blast
  qed
  have split: "ps = take k ps @ ps ! k # drop (Suc k) ps" using k by (simp add: id_take_nth_drop)
  obtain entries where d: "d = (replay es)\<lparr>db_reorg_log := entries\<rparr>" using rep by (auto simp: represents_iff)
  have "concat (map (pb_transactions \<circ> snd) es) = concat (map pb_transactions (take k ps))"
    by (simp add: es [symmetric])
  moreover have "distinct (map tr_hash (concat (map pb_transactions (take k ps @ ps ! k # drop (Suc k) ps))))"
    using can split by (simp add: canonical_def)
  ultimately show "distinct (map tr_hash (db_transactions d @ pb_transactions (ps ! k)))"
    by (simp add: d replay_transactions Int_Un_distrib)
  let ?key = "\<lambda>c. (cr_tx_hash c, cr_output_index c)"
  have "concat (map (pb_cells \<circ> snd) es) = concat (map pb_cells (take k ps))"
    by (simp add: es [symmetric])
  then have "map cell_key (db_cells d @ map stored_of_row (pb_cells (ps ! k)))
      = map ?key (concat (map pb_cells (take k ps)) @ pb_cells (ps ! k))"
    by (simp add: d replay_cell_keys) (simp add: cell_key_def stored_of_row_def)
  moreover have "distinct (map ?key (concat (map pb_cells (take k ps @ ps ! k # drop (Suc k) ps))))"
    using can split by (simp add: canonical_def)
  ultimately show "distinct (map cell_key (db_cells d @ map stored_of_row (pb_cells (ps ! k))))"
    by (simp only:) (simp add: Int_Un_distrib)
qed

definition quiet_env :: "node \<Rightarrow> poll_env \<Rightarrow> bool" where
  "quiet_env ckb env \<longleftrightarrow> \<not> pe_cancelled env \<and> pe_node env = ckb \<and> quiet_pg (pe_pg env)"

lemma quiet_env_ok: "quiet_env ckb env \<Longrightarrow> node_numbered ckb \<Longrightarrow> env_ok env"
  by (simp add: quiet_env_def env_ok_def quiet_pg_def)

lemma synced_last:
  assumes "canonical lib bs ps" and "represents es d" and "map snd es = take k ps" and "k \<le> length ps" "k > 0"
  shows "db_blocks d \<noteq> []" "br_hash (last (db_blocks d)) = bv_hash (bs ! (k - 1))"
    "br_number (last (db_blocks d)) = int k - 1"
proof -
  have len: "length es = k" using assms(3,4) by (metis length_map length_take min.absorb2)
  then have ne: "es \<noteq> []" using assms(5) by auto
  have "snd (es ! (k - 1)) = ps ! (k - 1)"
    using arg_cong [OF assms(3), of "\<lambda>xs. xs ! (k - 1)"] len assms(4,5) by simp
  then have "snd (last es) = ps ! (k - 1)" using ne len by (simp add: last_conv_nth)
  moreover have "k - 1 < length bs" using canonical_length [OF assms(1)] assms(4,5) by simp
  ultimately show "br_hash (last (db_blocks d)) = bv_hash (bs ! (k - 1))"
      "br_number (last (db_blocks d)) = int k - 1"
    using represents_blocks [OF assms(2)] ne canonical_nth(2,3) [OF assms(1)] assms(5)
    by (simp_all add: last_map split_def of_nat_diff)
  show "db_blocks d \<noteq> []" using represents_blocks [OF assms(2)] ne by simp
qed

lemma synced_step:
  assumes syn: "synced self ps k s" and can: "canonical (po_parse self) bs ps" and k: "k < length bs"
    and srv: "serves ckb bs" and quiet: "quiet_env ckb env"
  shows "synced self ps (Suc k) (loop_iteration self env s)"
proof -
  note len = canonical_length [OF can]
  obtain es where rep: "represents es (w_db (ls_world s))" and es: "map snd es = take k ps"
    and ok: "poller_ok self s" and nxt: "ls_next_block s = int k"
    using syn by (auto simp: synced_def)
  let ?w = "ls_world s" and ?block = "bs ! k"
  have pg: "quiet_pg (pe_pg env)" and node: "pe_node env = ckb" using quiet by (auto simp: quiet_env_def)
  have body: "index_body (pe_pg env) (ps ! k) (w_db ?w) = Inr ((), indexed_db (pg_now (pe_pg env)) (ps ! k) (w_db ?w))"
    using k len by (intro prefix_insertable [OF can _ rep es pg]) simp
  have par: "parse_block (po_parse self) ?block = Inr (ps ! k)" using can k by (rule canonical_nth)
  obtain w1 where ib: "index_block self env (int k) ?block ?w = (Inr Indexed, w1)"
    and w1: "w_db w1 = indexed_db (pg_now (pe_pg env)) (ps ! k) (w_db ?w)"
    using par body pg by (simp add: index_block_def in_transaction_def quiet_pg_def)
  have "step self env (int k) ?w = (Inr Indexed, w1)"
  proof (cases "k = 0")
    case True
    with ib serves_nth [OF srv k] node show ?thesis by (simp add: step_def)
  next
    case False
    then have "bv_parent_hash ?block = bv_hash (bs ! (k - 1))" using can k
      by (auto simp: canonical_def dest: spec [of _ "k - 1"])
    moreover have "blocks_hash_at False (int k - 1) (w_db ?w) = Inr (Some (bv_hash (bs ! (k - 1))))"
      using blocks_hash_at_last [of "w_db ?w" False] ok synced_last [OF can rep es] k len False
      by (simp add: poller_ok_def)
    moreover have "unwrap_or (i64_try_from (int k)) i64_MAX = int k"
      using can k by (simp add: canonical_def i64_try_from_def)
    ultimately show ?thesis using ib serves_nth [OF srv k] node pg False
      by (simp add: step_def Let_def quiet_pg_def)
  qed
  then have it: "ls_world (loop_iteration self env s) = w1"
    "ls_next_block (loop_iteration self env s) = int k + 1"
    using nxt can k by (auto simp: loop_iteration_def next_delay_def u64_saturating_add_def saturate_def canonical_def)
  have "represents (es @ [(pg_now (pe_pg env), ps ! k)]) (w_db w1)"
    using index_body_represents [OF rep body] w1 by simp
  moreover have "map snd (es @ [(pg_now (pe_pg env), ps ! k)]) = take (Suc k) ps"
    using es k len by (simp add: take_Suc_conv_app_nth)
  moreover have "poller_ok self (loop_iteration self env s)"
    using ok quiet_env_ok [OF quiet serves_numbered [OF srv can]] by (rule loop_iteration_ok)
  ultimately show ?thesis using it k len unfolding synced_def by (auto intro!: exI)
qed

lemma synced_stays:
  assumes "synced self ps (length bs) s" and "canonical (po_parse self) bs ps"
    and "serves ckb bs" and "quiet_env ckb env"
  shows "synced self ps (length bs) (loop_iteration self env s)"
  using assms by (auto simp: synced_def poller_ok_def loop_iteration_def step_def serves_def quiet_env_def next_delay_def)

lemma synced_run:
  assumes "synced self ps k s" and "canonical (po_parse self) bs ps" and "serves ckb bs"
    and "\<forall>env\<in>set envs. quiet_env ckb env" and "length bs \<le> k + length envs"
  shows "synced self ps (length bs) (snd (run_loop self envs s))"
  using assms
proof (induction envs arbitrary: k s)
  case Nil
  then have "k = length bs" using canonical_length [OF Nil.prems(2)] by (auto simp: synced_def)
  with Nil show ?case by simp
next
  case (Cons env envs)
  have live: "\<not> pe_cancelled env" and quiet: "quiet_env ckb env" using Cons.prems(4) by (auto simp: quiet_env_def)
  show ?case
  proof (cases "k < length bs")
    case True
    from Cons.IH [OF synced_step [OF Cons.prems(1,2) True Cons.prems(3) quiet]] Cons.prems live
    show ?thesis by simp
  next
    case False
    then have "k = length bs" using canonical_length [OF Cons.prems(2)] Cons.prems(1) by (auto simp: synced_def)
    with Cons.IH [OF synced_stays [OF _ Cons.prems(2,3) quiet]] Cons.prems live show ?thesis by simp
  qed
qed

section \<open>Leaving a fork\<close>

text \<open>Blocks with equal hashes are equal: the collision freedom of the block hash, for the stored
  chain against the node's.\<close>

definition same_hash_same_block :: "history \<Rightarrow> ParsedBlock list \<Rightarrow> bool" where
  "same_hash_same_block es ps \<longleftrightarrow> (\<forall>k<min (length es) (length ps).
     br_hash (pb_block (snd (es ! k))) = br_hash (pb_block (ps ! k)) \<longrightarrow> snd (es ! k) = ps ! k)"

lemma agreement_is_prefix:
  assumes "chain_linked (map (\<lambda>(t, p). mk_block t (pb_block p)) es)" and "canonical lib bs ps"
    and "same_hash_same_block es ps" and "k < length es" "k < length ps"
    and "br_hash (pb_block (snd (es ! k))) = bv_hash (bs ! k)"
  shows "map snd (take (Suc k) es) = take (Suc k) ps"
  using assms(4-6)
proof (induction k)
  case 0
  then have "snd (es ! 0) = ps ! 0"
    using assms(3) canonical_nth(3) [OF assms(2)] canonical_length [OF assms(2)]
    by (auto simp: same_hash_same_block_def)
  with 0 show ?case by (simp add: take_Suc_conv_app_nth)
next
  case (Suc k)
  note len = canonical_length [OF assms(2)]
  have eq: "snd (es ! Suc k) = ps ! Suc k"
    using Suc.prems assms(3) canonical_nth(3) [OF assms(2)] len by (auto simp: same_hash_same_block_def)
  have "br_parent_hash (pb_block (snd (es ! Suc k))) = br_hash (pb_block (snd (es ! k)))"
    using assms(1) Suc.prems by (auto simp: chain_linked_def successively_conv_nth split_def)
  moreover have "br_parent_hash (pb_block (ps ! Suc k)) = bv_hash (bs ! k)"
    using canonical_nth(4) [OF assms(2)] assms(2) Suc.prems len by (simp add: canonical_def)
  ultimately have "map snd (take (Suc k) es) = take (Suc k) ps"
    using Suc eq by simp
  with eq Suc.prems show ?case by (simp add: take_Suc_conv_app_nth [of "Suc k"])
qed

lemma represents_hash_at:
  assumes "chain_ok d" and "represents es d" and "k < length es"
    and "br_number (pb_block (snd (es ! 0))) = 0"
  shows "blocks_hash_at False (int k) d = Inr (Some (br_hash (pb_block (snd (es ! k)))))"
proof -
  note blocks = represents_blocks [OF assms(2)]
  have k: "k < length (db_blocks d)" "db_blocks d \<noteq> []" using assms(3) by (auto simp: blocks)
  have "br_number (db_blocks d ! k) = int k"
    using chain_linked_numbers [of "db_blocks d" k] assms(1,3,4) k
    by (simp add: chain_ok_def hd_conv_nth) (simp add: blocks split_def)
  moreover have "find (\<lambda>b. br_number b = br_number (db_blocks d ! k)) (db_blocks d) = Some (db_blocks d ! k)"
    using assms(1) k by (intro find_Some_iff_unique) (simp_all add: chain_ok_def schema_ok_def)
  ultimately show ?thesis using assms(3) by (simp add: blocks_hash_at_def) (simp add: blocks split_def)
qed

text \<open>Stored and served chain share the genesis block and then part: the walk finds the last block
  they share.\<close>

lemma fork_ancestor:
  assumes cok: "chain_ok d" and rep: "represents es d" and can: "canonical lib bs ps" and srv: "serves ckb bs"
    and pg: "quiet_pg pg" and hashes: "same_hash_same_block es ps"
    and es: "es \<noteq> []" "length es < length bs" "br_number (pb_block (snd (es ! 0))) = 0"
      "br_hash (pb_block (snd (es ! 0))) = bv_hash (bs ! 0)"
    and fork: "map snd es \<noteq> take (length es) ps"
  shows "\<exists>a k. find_common_ancestor ckb (\<lambda>h. blocks_hash_at (pg_walk_hash_at pg h) h d) (int (length es) - 1) = Inr a
      \<and> an_block_number a = int k \<and> Suc k < length es \<and> br_hash (pb_block (snd (es ! k))) = bv_hash (bs ! k)"
    and "br_hash (pb_block (snd (es ! (length es - 1)))) \<noteq> bv_hash (bs ! (length es - 1))"
proof -
  let ?m = "length es - 1" and ?idx = "\<lambda>h. blocks_hash_at (pg_walk_hash_at pg h) h d"
  note len = canonical_length [OF can]
  have linked: "chain_linked (map (\<lambda>(t, p). mk_block t (pb_block p)) es)"
    using cok represents_blocks [OF rep] by (simp add: chain_ok_def)
  have idx: "?idx (int k) = Inr (Some (br_hash (pb_block (snd (es ! k)))))" if "k < length es" for k
    using represents_hash_at [OF cok rep that es(3)] pg by (simp add: quiet_pg_def)
  have m: "?m < length es" "Suc ?m = length es" "int ?m = int (length es) - 1" using es(1) by (cases es; simp)+
  have "int (length bs) < i64_MAX" using can by (simp add: canonical_def)
  then have small: "int (length es) - 1 \<le> i64_MAX" using es(2) by linarith
  show differ: "br_hash (pb_block (snd (es ! ?m))) \<noteq> bv_hash (bs ! ?m)"
  proof
    assume "br_hash (pb_block (snd (es ! ?m))) = bv_hash (bs ! ?m)"
    from agreement_is_prefix [OF linked can hashes m(1) _ this] fork m(2) es(2) len show False by simp
  qed
  have "\<exists>a. find_common_ancestor ckb ?idx (int (length es) - 1) = Inr a \<and> 0 \<le> an_block_number a"
  proof (rule find_common_ancestor_finds [where g = 0])
    fix h :: int assume h: "0 \<le> h" "h \<le> int (length es) - 1"
    then show "\<exists>b. ckb h = Inr (Some b)" using srv es(2) by (simp add: serves_def)
    show "\<exists>x. ?idx h = Inr x" using idx [of "nat h"] h m by auto
  next
    have "ckb 0 = Inr (Some (bs ! 0))" using serves_nth [OF srv, of 0] es(2) by fastforce
    then show "agrees_at ckb ?idx 0" using idx [of 0] es by (simp add: agrees_at_def)
  qed (use small m es(1) in auto)
  then obtain a where anc: "find_common_ancestor ckb ?idx (int (length es) - 1) = Inr a" by blast
  note a = find_common_ancestor_Inr [OF anc small]
  then obtain k where k: "an_block_number a = int k" by (metis zero_le_imp_eq_int)
  then have ke: "k < length es" using a m by simp
  have "br_hash (pb_block (snd (es ! k))) = bv_hash (bs ! k)"
    using a k(1) idx [OF ke] serves_nth [OF srv, of k] ke es(2) by (auto simp: agrees_at_def)
  moreover then have "k \<noteq> ?m" using differ by blast
  ultimately show "\<exists>a k. find_common_ancestor ckb ?idx (int (length es) - 1) = Inr a
      \<and> an_block_number a = int k \<and> Suc k < length es \<and> br_hash (pb_block (snd (es ! k))) = bv_hash (bs ! k)"
    using anc k ke by force
qed

lemma fork_step:
  assumes ok: "poller_ok self s" and rep: "represents es (w_db (ls_world s))"
    and wf: "\<forall>(t, p)\<in>set es. pb_wf p" and nds: "no_double_spend es"
    and can: "canonical (po_parse self) bs ps" and srv: "serves ckb bs" and quiet: "quiet_env ckb env"
    and hashes: "same_hash_same_block es ps"
    and es: "es \<noteq> []" "length es < length bs" "br_number (pb_block (snd (es ! 0))) = 0"
      "br_hash (pb_block (snd (es ! 0))) = bv_hash (bs ! 0)"
    and serial: "pg_serial (pe_pg env) \<notin> rl_id ` set (db_reorg_log (w_db (ls_world s)))"
    and fork: "map snd es \<noteq> take (length es) ps"
  shows "\<exists>k. synced self ps (Suc k) (loop_iteration self env s)"
proof -
  let ?w = "ls_world s" let ?d = "w_db ?w" and ?n = "int (length es)" and ?m = "length es - 1"
  let ?ih = "br_hash (pb_block (snd (es ! ?m)))"
  note blocks = represents_blocks [OF rep]
  have cok: "chain_ok ?d" using ok by (simp add: poller_ok_def)
  then have linked: "chain_linked (map (\<lambda>(t, p). mk_block t (pb_block p)) es)"
    by (simp add: chain_ok_def blocks)
  have pg: "quiet_pg (pe_pg env)" and node: "pe_node env = ckb" using quiet by (auto simp: quiet_env_def)
  have m: "?m < length es" "Suc ?m = length es" "int ?m = ?n - 1" using es(1) by (cases es; simp)+
  have nxt: "ls_next_block s = ?n"
    using ok es m chain_linked_last [OF linked]
    by (simp add: poller_ok_def next_height_def blocks hd_map hd_conv_nth split_def)
  obtain a k where anc: "find_common_ancestor ckb (\<lambda>h. blocks_hash_at (pg_walk_hash_at (pe_pg env) h) h ?d) (?n - 1) = Inr a"
    and k: "an_block_number a = int k" "Suc k < length es" "br_hash (pb_block (snd (es ! k))) = bv_hash (bs ! k)"
    using fork_ancestor(1) [OF cok rep can srv pg hashes es fork] by blast
  have big: "int (length bs) < i64_MAX" using can by (simp add: canonical_def)
  then have small: "?n - 1 \<le> i64_MAX" using es(2) by linarith
  obtain out d' where rb: "rollback_body (pe_pg env) a (?n - 1) ?ih ?d = Inr (out, d')"
    using rollback_body_succeeds [OF pg serial] by blast
  obtain w' where hr: "handle_reorg self env (?n - 1) ?ih ?w = (Inr (ReorgHandled (int k)), w')" and w': "w_db w' = d'"
    using anc node k rb pg rollback_body_Inr(2) [OF rb]
    by (simp add: handle_reorg_def Let_def is_inconsistent_node_def rollback_to_def in_transaction_def quiet_pg_def)
  have "bv_parent_hash (bs ! length es) = bv_hash (bs ! ?m)"
    using can es(2) m(2) by (auto simp: canonical_def dest: spec [of _ ?m])
  then have "step self env ?n ?w = (Inr (ReorgHandled (int k)), w')"
    using hr represents_hash_at [OF cok rep m(1) es(3)] m(3) serves_nth [OF srv es(2)] pg node es big
      fork_ancestor(2) [OF cok rep can srv pg hashes es fork]
    by (simp add: step_def Let_def quiet_pg_def i64_try_from_def)
  then have it: "ls_world (loop_iteration self env s) = w'" "ls_next_block (loop_iteration self env s) = int (Suc k)"
    using nxt k small
    by (auto simp: loop_iteration_def next_delay_def u64_saturating_add_def saturate_def u64_try_from_def)
  obtain b where b: "b \<in> set (db_blocks ?d)" "br_number b = an_block_number a" "br_hash b = an_node_hash a"
    using find_common_ancestor_Inr [OF anc small] blocks_hash_at_Some by blast
  obtain j where j: "j < length es" "br_number (pb_block (snd (es ! j))) = int k" "represents (take (Suc j) es) d'"
    using rollback_body_represents [OF rep cok wf nds rb b] k(1) by auto
  then have "represents (take (Suc k) es) d'"
    using chain_linked_numbers [OF linked, of j] es by (simp add: hd_map hd_conv_nth split_def)
  moreover have "map snd (take (Suc k) es) = take (Suc k) ps"
    using k canonical_length [OF can] es(2) by (intro agreement_is_prefix [OF linked can hashes]) auto
  moreover have "poller_ok self (loop_iteration self env s)"
    using ok quiet_env_ok [OF quiet serves_numbered [OF srv can]] by (rule loop_iteration_ok)
  ultimately show ?thesis using it w' k canonical_length [OF can] es(2) unfolding synced_def by (auto intro!: exI)
qed

text \<open>From any stored fork of the settled chain the poller gets in step with the node.\<close>

lemma run_loop_synced:
  assumes ok: "poller_ok self s" and rep: "represents es (w_db (ls_world s))"
    and wf: "\<forall>(t, p)\<in>set es. pb_wf p" and nds: "no_double_spend es"
    and can: "canonical (po_parse self) bs ps" and srv: "serves ckb bs"
    and quiet: "\<forall>env\<in>set envs. quiet_env ckb env" and enough: "length envs > length bs"
    and hashes: "same_hash_same_block es ps"
    and start: "indexer_start_block (po_config self) = 0"
    and longer: "length es < length bs"
    and genesis: "es \<noteq> [] \<longrightarrow> br_number (pb_block (snd (es ! 0))) = 0 \<and> br_hash (pb_block (snd (es ! 0))) = bv_hash (bs ! 0)"
    and serial: "\<forall>env\<in>set envs. pg_serial (pe_pg env) \<notin> rl_id ` set (db_reorg_log (w_db (ls_world s)))"
  shows "synced self ps (length bs) (snd (run_loop self envs s))"
proof -
  have len: "length ps = length bs" using can by (rule canonical_length)
  show ?thesis
  proof (cases "map snd es = take (length es) ps")
    case True
    have "br_number (last (db_blocks (w_db (ls_world s)))) = int (length es) - 1" if "es \<noteq> []"
      using synced_last(3) [OF can rep True] longer len that by simp
    then have "ls_next_block s = int (length es)"
      using ok start represents_blocks [OF rep] by (auto simp: poller_ok_def next_height_def)
    then have "synced self ps (length es) s" using ok rep True longer len by (auto simp: synced_def)
    then show ?thesis using enough by (intro synced_run [OF _ can srv quiet]) auto
  next
    case False
    then have ne: "es \<noteq> []" by auto
    obtain env rest where envs: "envs = env # rest" using enough by (cases envs) auto
    then have q: "quiet_env ckb env" using quiet by simp
    obtain k where "synced self ps (Suc k) (loop_iteration self env s)"
      using fork_step [OF ok rep wf nds can srv q hashes ne longer _ _ _ False] genesis ne serial envs by auto
    then have "synced self ps (length bs) (snd (run_loop self rest (loop_iteration self env s)))"
      using quiet enough envs by (intro synced_run [OF _ can srv]) auto
    then show ?thesis using q envs by (simp add: quiet_env_def)
  qed
qed

text \<open>C3: once the node settles on a chain longer than the stored one and faults cease, the poller
  reaches it: whatever fork of that chain is stored, after one iteration per block and one more
  the tables hold exactly the node's chain, and the live cells are its unspent outputs.\<close>

theorem poller_converges:
  assumes ok: "poller_ok self s" and rep: "represents es (w_db (ls_world s))"
    and wf: "\<forall>(t, p)\<in>set es. pb_wf p" and nds: "no_double_spend es"
    and can: "canonical (po_parse self) bs ps" and srv: "serves ckb bs"
    and quiet: "\<forall>env\<in>set envs. quiet_env ckb env" and enough: "length envs > length bs"
    and hashes: "same_hash_same_block es ps"
    and start: "indexer_start_block (po_config self) = 0"
    and longer: "length es < length bs"
    and genesis: "es \<noteq> [] \<longrightarrow> br_number (pb_block (snd (es ! 0))) = 0 \<and> br_hash (pb_block (snd (es ! 0))) = bv_hash (bs ! 0)"
    and serial: "\<forall>env\<in>set envs. pg_serial (pe_pg env) \<notin> rl_id ` set (db_reorg_log (w_db (ls_world s)))"
  shows "\<exists>es'. map snd es' = ps \<and> represents es' (w_db (ls_world (snd (run_loop self envs s))))
    \<and> live_keys (w_db (ls_world (snd (run_loop self envs s)))) = utxo es'"
proof -
  have "synced self ps (length bs) (snd (run_loop self envs s))"
    by (rule run_loop_synced [OF assms])
  then obtain es' where "map snd es' = ps" "represents es' (w_db (ls_world (snd (run_loop self envs s))))"
    using canonical_length [OF can] by (auto simp: synced_def)
  then show ?thesis using represents_live_keys by blast
qed

lemma sample_canonical:
  "canonical sample_parse_lib [genesis, main_one, main_two] [parsed_genesis, parsed_main_one, parsed_main_two]"
  by (simp add: canonical_def sample_parses less_Suc_eq all_conj_distrib sample_views)
    (simp add: parsed_defs)

lemma sample_serves: "serves (sample_node bs) bs" by (simp add: serves_def sample_node_def)

lemma sample_quiet: "quiet_env (sample_node bs) (sample_env bs)"
  by (simp add: quiet_env_def quiet_pg_def sample_env_def sample_pg_def)

theorem poller_converges_witness:
  "\<exists>es'. map snd es' = [parsed_genesis, parsed_main_one, parsed_main_two] \<and> represents es'
     (w_db (ls_world (snd (run_loop sample_poller
       (replicate 4 (sample_env [genesis, main_one, main_two])) sample_fork_state))))
     \<and> live_keys (w_db (ls_world (snd (run_loop sample_poller
       (replicate 4 (sample_env [genesis, main_one, main_two])) sample_fork_state)))) = utxo es'"
proof -
  let ?s = sample_fork_state and ?bs = "[genesis, main_one, main_two]"
    and ?ps = "[parsed_genesis, parsed_main_one, parsed_main_two]"
  have ok: "poller_ok sample_poller ?s"
    by (simp add: poller_ok_def sample_fork_state_def sample_fork_world_def sample_fork_ok sample_fork_next)
  have rep: "represents sample_fork_history (w_db (ls_world ?s))"
    using sample_fork_history_facts(1) by (simp add: sample_fork_state_def sample_fork_world_def)
  have can: "canonical (po_parse sample_poller) ?bs ?ps" using sample_canonical by (simp add: sample_poller_def)
  have hashes: "same_hash_same_block sample_fork_history ?ps"
    by (simp add: same_hash_same_block_def sample_fork_history_def less_Suc_eq parsed_defs)
  have start: "indexer_start_block (po_config sample_poller) = 0"
    by (simp add: sample_poller_def default_config_def)
  have ids: "rl_id ` set (db_reorg_log (w_db (ls_world ?s))) = {}"
    by (simp add: sample_fork_state_def sample_fork_world_def sample_fork_db_def indexed_db_def empty_chain_db_def)
  have gen: "br_number (pb_block (snd (sample_fork_history ! 0))) = 0"
      "br_hash (pb_block (snd (sample_fork_history ! 0))) = bv_hash (?bs ! 0)"
    by (simp_all add: sample_fork_history_def parsed_defs sample_views)
  have longer: "length sample_fork_history < length ?bs" by (simp add: sample_fork_history_def)
  show ?thesis
    by (rule poller_converges [OF ok rep sample_fork_history_facts(2,3) can sample_serves _ _ hashes start longer])
      (use sample_quiet gen ids in auto)
qed

end
