(* ===== verification/Serving.thy ===== *)
theory Serving
  imports Convergence ApiSamples
begin

text \<open>
  The index between its writer and its readers: what the routes serve from tables that represent a
  chain of the node.  The hashes of a block as the node reports it are \<^verbatim>\<open>H256\<close> values, so 32 bytes
  long, and so is a script hash; from this every stored row can be rendered.
\<close>

section \<open>Blocks with hashes of full width\<close>

definition script_wide :: "Script \<Rightarrow> bool" where
  "script_wide s \<longleftrightarrow> length (sc_code_hash s) = 32"

definition output_wide :: "CellOutput \<Rightarrow> bool" where
  "output_wide out \<longleftrightarrow> script_wide (co_lock out) \<and> opt_all script_wide (co_type out)"

definition view_wide :: "BlockView \<Rightarrow> bool" where
  "view_wide b \<longleftrightarrow> length (bv_hash b) = 32 \<and> length (bv_parent_hash b) = 32 \<and> length (bv_dao b) = 32 \<and>
     list_all (\<lambda>tx. length (tv_hash tx) = 32 \<and> list_all output_wide (tv_outputs tx)) (bv_transactions b)"

definition script_hash_wide :: "parse_lib \<Rightarrow> bool" where
  "script_hash_wide lib \<longleftrightarrow> (\<forall>s. length (calc_script_hash lib s) = 32)"

definition row_wide :: "CellRow \<Rightarrow> bool" where
  "row_wide c \<longleftrightarrow> length (cr_tx_hash c) = 32 \<and> length (cr_lock_hash c) = 32 \<and> length (cr_lock_code_hash c) = 32 \<and>
     opt_all (\<lambda>x. length x = 32) (cr_type_hash c) \<and> opt_all (\<lambda>x. length x = 32) (cr_type_code_hash c)"

lemma parse_output_wide:
  assumes "parse_output lib tx bn i out data = Inr row" and "length tx = 32" "output_wide out" "script_hash_wide lib"
  shows "row_wide row"
  using assms
  by (auto simp: parse_output_def parse_type_script_def row_wide_def output_wide_def script_wide_def script_hash_wide_def
      opt_all_def res_simps split: option.splits)

lemma parse_block_wide:
  assumes p: "parse_block lib view = Inr p" and wide: "view_wide view" and lib: "script_hash_wide lib"
  shows "length (br_hash (pb_block p)) = 32" "length (br_parent_hash (pb_block p)) = 32"
    "length (br_dao (pb_block p)) = 32" "list_all row_wide (pb_cells p)"
proof -
  show "length (br_hash (pb_block p)) = 32" "length (br_parent_hash (pb_block p)) = 32" "length (br_dao (pb_block p)) = 32"
    using p wide by (auto simp: parse_block_def view_wide_def res_simps)
  from p obtain ps where ps: "collect_results (parse_tx lib (bv_number view)) (enumerate 0 (bv_transactions view)) = Inr ps"
    and cells: "pb_cells p = concat (map (fst \<circ> snd) ps)" by (rule parse_block_Inr)
  have "list_all row_wide (fst (snd x))" if mem: "x \<in> set ps" for x
  proof -
    obtain i where i: "i < length ps" "x = ps ! i" using mem by (auto simp: in_set_conv_nth)
    let ?tx = "bv_transactions view ! i"
    have il: "i < length (bv_transactions view)" using i collect_results_nth(1) [OF ps] by simp
    then have "parse_tx lib (bv_number view) (i, ?tx) = Inr (fst x, fst (snd x), snd (snd x))"
      using collect_results_nth(2) [OF ps, of i] i by (simp add: nth_enumerate_eq)
    then have cr: "created_cells lib (bv_number view) ?tx = Inr (fst (snd x))" by (rule parse_tx_rows)
    have tx: "length (tv_hash ?tx) = 32" "list_all output_wide (tv_outputs ?tx)"
      using wide il by (auto simp: view_wide_def list_all_length)
    show ?thesis
      using created_cells_nth [OF cr] created_cells_length [OF cr] tx lib
      by (auto simp: list_all_length intro!: parse_output_wide)
  qed
  then show "list_all row_wide (pb_cells p)" by (auto simp: cells list_all_iff)
qed

section \<open>The stored rows of a represented chain\<close>

text \<open>The columns an insertion fills; consuming a cell leaves them alone.\<close>

definition created :: "CellStored \<Rightarrow> CellStored" where
  "created c = c\<lparr>c_consumed_by_tx_hash := None, c_consumed_by_input_index := None, c_consumed_at_block_number := None\<rparr>"

lemma created_consume_all [simp]: "created (consume_all refs c) = created c"
  by (induction refs arbitrary: c) (auto simp: created_def consume_def)

lemma created_stored [simp]: "created (stored_of_row r) = stored_of_row r"
  by (simp add: created_def stored_of_row_def)

lemma created_fields:
  "cell_key (created c) = cell_key c" "filter_matches fil (created c) = filter_matches fil c"
  by (cases fil; simp add: created_def cell_key_def)+

lemma replay_created:
  "map created (db_cells (replay es)) = map stored_of_row (concat (map (pb_cells \<circ> snd) es))"
proof (induction es rule: rev_induct)
  case (snoc x es)
  obtain t p where "x = (t, p)" by (cases x)
  with snoc show ?case by (simp add: indexed_db_def o_def)
qed (simp add: empty_chain_db_def)

lemma represents_created:
  "represents es d \<Longrightarrow> map created (db_cells d) = map stored_of_row (concat (map (pb_cells \<circ> snd) es))"
  using replay_created [of es] by (auto simp: represents_iff)

lemma created_live: "c_consumed_by_tx_hash c = None \<Longrightarrow> consumed_columns_agree c \<Longrightarrow> created c = c"
  by (simp add: created_def consumed_columns_agree_def)

text \<open>The unspent outputs of a chain do not depend on when its blocks were indexed.\<close>

definition chain_utxo :: "ParsedBlock list \<Rightarrow> (bytes \<times> i32) set" where
  "chain_utxo ps = utxo (map (Pair 0) ps)"

lemma utxo_chain: "utxo es = chain_utxo (map snd es)"
  by (simp add: chain_utxo_def utxo_def fold_map comp_def case_prod_unfold)

definition row_key_of :: "CellRow \<Rightarrow> bytes \<times> i32" where
  "row_key_of r = (cr_tx_hash r, cr_output_index r)"

lemma stored_key: "cell_key (stored_of_row r) = row_key_of r"
  by (simp add: cell_key_def stored_of_row_def row_key_of_def)

text \<open>The live cells a filter selects are the unspent outputs of the chain it selects.\<close>

lemma live_selection:
  assumes ok: "schema_ok d" and rep: "represents es d"
  shows "cell_key ` {c \<in> set (db_cells d). filter_matches fil c \<and> c_consumed_by_tx_hash c = None} =
    {row_key_of r | r. r \<in> set (concat (map (pb_cells \<circ> snd) es)) \<and> filter_matches fil (stored_of_row r)
       \<and> row_key_of r \<in> chain_utxo (map snd es)}" (is "?L = ?R")
proof -
  let ?rows = "concat (map (pb_cells \<circ> snd) es)"
  have img: "created ` set (db_cells d) = stored_of_row ` set ?rows"
    using arg_cong [OF represents_created [OF rep], of set] by simp
  have live: "chain_utxo (map snd es) = cell_key ` {c \<in> set (db_cells d). c_consumed_by_tx_hash c = None}"
    using represents_live_keys [OF rep] by (simp add: utxo_chain live_keys_def)
  have inj: "inj_on cell_key (set (db_cells d))" using ok by (simp add: schema_ok_def distinct_map)
  show ?thesis
  proof (intro set_eqI iffI)
    fix k assume "k \<in> ?L"
    then obtain c where c: "c \<in> set (db_cells d)" "filter_matches fil c" "c_consumed_by_tx_hash c = None" "k = cell_key c" by auto
    from c(1) img obtain r where r: "r \<in> set ?rows" "created c = stored_of_row r" by (metis imageE imageI)
    have "row_key_of r = k" "filter_matches fil (stored_of_row r)"
      using c(2,4) r(2) created_fields [where c = c] by (metis stored_key, metis)
    moreover have "k \<in> chain_utxo (map snd es)" using c unfolding live by blast
    ultimately show "k \<in> ?R" using r(1) by blast
  next
    fix k assume "k \<in> ?R"
    then obtain r where r: "r \<in> set ?rows" "filter_matches fil (stored_of_row r)" "k = row_key_of r"
      "row_key_of r \<in> chain_utxo (map snd es)" by blast
    from r(1) img obtain c where c: "c \<in> set (db_cells d)" "created c = stored_of_row r" by (metis imageE imageI)
    from r(4) obtain c' where c': "c' \<in> set (db_cells d)" "c_consumed_by_tx_hash c' = None" "row_key_of r = cell_key c'"
      unfolding live by auto
    have "cell_key c = cell_key c'" using c(2) c'(3) created_fields(1) [of c] by (simp add: stored_key)
    then have "c = c'" using inj c(1) c'(1) by (simp add: inj_on_def)
    moreover have "filter_matches fil c" using c(2) r(2) created_fields(2) [of fil c] by simp
    ultimately show "k \<in> ?L" using c'(2,3) c(1) r(3) by blast
  qed
qed


section \<open>What the routes serve\<close>

text \<open>Blocks that were parsed from blocks of full width can be rendered, and so can their live cells.\<close>

definition wide_chain :: "ParsedBlock list \<Rightarrow> bool" where
  "wide_chain ps \<longleftrightarrow> list_all (\<lambda>p. length (br_hash (pb_block p)) = 32 \<and> length (br_parent_hash (pb_block p)) = 32 \<and>
     length (br_dao (pb_block p)) = 32 \<and> list_all row_wide (pb_cells p)) ps"

lemma canonical_wide:
  assumes "canonical lib bs ps" and "list_all view_wide bs" and "script_hash_wide lib"
  shows "wide_chain ps"
proof -
  have "parse_block lib (bs ! i) = Inr (ps ! i) \<and> view_wide (bs ! i)" if "i < length bs" for i
    using that canonical_nth(1) [OF assms(1)] assms(2) by (simp add: list_all_length)
  then show ?thesis
    using canonical_length [OF assms(1)] parse_block_wide [of lib "bs ! i" "ps ! i" for i, OF _ _ assms(3)]
    by (simp add: wide_chain_def list_all_length [of _ ps])
qed

lemma represented_block_renderable:
  assumes "represents es d" and "wide_chain (map snd es)" and "b \<in> set (db_blocks d)"
  shows "block_renderable b"
  using assms represents_blocks [OF assms(1)]
  by (auto simp: wide_chain_def list_all_iff block_renderable_def mk_block_def BlockRow.defs Block.defs)

lemma hash_type_small: "HashType_as_i16 t \<in> {0, 1, 2, 3}"
  by (cases t) simp_all

lemma stored_row_renderable:
  assumes "row_wide r" and "length bh = 32"
  shows "renderable (CellStored.extend (stored_of_row r) (Cell.fields bh))"
  using assms hash_type_small
  by (auto simp: renderable_def row_wide_def stored_of_row_def opt_all_def CellStored.defs Cell.defs split: option.splits)

lemma live_rows_renderable:
  assumes ok: "schema_ok d" and rep: "represents es d" and wide: "wide_chain (map snd es)"
    and row: "x \<in> set (query_rows fil (Some True) d)"
  shows "renderable x"
proof -
  obtain c where c: "c \<in> set (db_cells d)" "join_block d c = Some x" "c_consumed_by_tx_hash c = None"
    using row by (auto simp: query_rows_def matching_cells_set live_matches_def parse_liveness_def)
  then obtain b where b: "b \<in> set (db_blocks d)" "x = CellStored.extend c (Cell.fields (br_hash b))"
    by (auto simp: join_block_def dest!: find_SomeD)
  have "created c = c" using c ok by (intro created_live) (auto simp: schema_ok_def)
  moreover have "created c \<in> stored_of_row ` set (concat (map (pb_cells \<circ> snd) es))"
    using c(1) arg_cong [OF represents_created [OF rep], of set] by (metis image_eqI list.set_map)
  ultimately obtain r where r: "r \<in> set (concat (map (pb_cells \<circ> snd) es))" "c = stored_of_row r" by auto
  then have "row_wide r" using wide by (auto simp: wide_chain_def list_all_iff)
  then show ?thesis
    using b(2) r(2) represented_block_renderable [OF rep wide b(1)] by (simp add: stored_row_renderable block_renderable_def)
qed

lemma served_live_cells:
  assumes ok: "schema_ok d" and rep: "represents es d" and wide: "wide_chain (map snd es)"
    and q: "cursor_lib_ok lib" "parse_filter lib q = Inr fil" "parse_limit (cq_limit q) config = Inr limit" "0 < limit"
      "cq_cursor q = None" "cq_is_live q = Some True" and fuel: "length (db_cells d) < fuel"
  shows "\<exists>data. follow_cells fuel lib config snap d q = Some (Inr data) \<and>
    (\<lambda>r. (rc_tx_hash r, rc_output_index r)) ` set data =
      {(Hex32 (cr_tx_hash r), cr_output_index r) | r. r \<in> set (concat (map (pb_cells \<circ> snd) es)) \<and>
         filter_matches fil (stored_of_row r) \<and> row_key_of r \<in> chain_utxo (map snd es)}"
proof -
  let ?rows = "query_rows fil (Some True) d" and ?render = "render_cell (cq_include_data q) (network config)"
  have ren: "\<forall>r\<in>set ?rows. renderable r" using live_rows_renderable [OF ok rep wide] by blast
  then have "list_all (\<lambda>x. \<exists>y. ?render x = Inr y) ?rows" using render_cell_ok by (simp add: list_all_iff)
  then obtain data where data: "collect_results ?render ?rows = Inr data"
    using collect_results_succeeds [of ?render ?rows] by blast
  have "follow_cells fuel lib config snap d q = Some (Inr data)"
    using follow_cells_all [OF ok q(1-5) _ fuel] q(6) ren data by simp
  moreover have "(\<lambda>r. (rc_tx_hash r, rc_output_index r)) ` set data = (\<lambda>k. (Hex32 (fst k), snd k)) ` cell_key ` CellStored.truncate ` set ?rows"
  proof -
    have "map (\<lambda>r. (rc_tx_hash r, rc_output_index r)) data = map (\<lambda>c. (Hex32 (c_tx_hash c), c_output_index c)) ?rows"
      using collect_results_nth [OF data] by (auto simp: list_eq_iff_nth_eq dest: render_cell_key)
    from arg_cong [OF this, of set] show ?thesis
      by (simp add: image_image cell_key_def CellStored.defs)
  qed
  moreover have "cell_key ` CellStored.truncate ` set ?rows = row_key_of ` {r. r \<in> set (concat (map (pb_cells \<circ> snd) es)) \<and>
         filter_matches fil (stored_of_row r) \<and> row_key_of r \<in> chain_utxo (map snd es)}"
    using query_rows_set [OF ok, of fil "Some True"] live_selection [OF ok rep, of fil] by (simp add: setcompr_eq_image)
  ultimately show ?thesis by (simp only: setcompr_eq_image) (simp add: image_image row_key_of_def)
qed


lemma represented_nth:
  assumes can: "canonical lib bs ps" and rep: "represents es d" and es: "map snd es = ps" and i: "i < length bs"
  shows "br_number (db_blocks d ! i) = int i" "br_hash (db_blocks d ! i) = bv_hash (bs ! i)" "i < length (db_blocks d)"
proof -
  have len: "length es = length bs" using es canonical_length [OF can] by auto
  then have "snd (es ! i) = ps ! i" using es i by auto
  then show "br_number (db_blocks d ! i) = int i" "br_hash (db_blocks d ! i) = bv_hash (bs ! i)" "i < length (db_blocks d)"
    using canonical_nth(2,3) [OF can i] i len represents_blocks [OF rep]
    by (simp_all add: split_def mk_block_def BlockRow.defs Block.defs)
qed

lemma served_blocks:
  assumes ok: "schema_ok d" and can: "canonical lib bs ps" and rep: "represents es d" and es: "map snd es = ps"
    and wide: "wide_chain ps" and n: "0 \<le> n" "n \<le> i64_MAX"
  shows "if n < int (length bs)
    then \<exists>r. blocks_route_by_number nonce_str False d (int_dec n) = Inr r \<and> rb_number r = n \<and> rb_hash r = Hex32 (bv_hash (bs ! nat n))
    else blocks_route_by_number nonce_str False d (int_dec n) = Inl (NotFound ''block not indexed'')"
proof -
  note nth = represented_nth [OF can rep es]
  have len: "length (db_blocks d) = length bs"
    using es canonical_length [OF can] represents_blocks [OF rep] by auto
  have "find (\<lambda>b. br_number b = n) (db_blocks d) = (if n < int (length bs) then Some (db_blocks d ! nat n) else None)"
  proof (cases "n < int (length bs)")
    case True
    then have i: "nat n < length bs" using n(1) by simp
    have "br_number (db_blocks d ! j) \<noteq> n" if "j < nat n" for j using nth(1) [of j] i that by simp
    then have "find (\<lambda>b. br_number b = n) (db_blocks d) = Some (db_blocks d ! nat n)"
      using n(1) i len nth(1) [OF i] by (auto simp: find_Some_iff intro!: exI [of _ "nat n"])
    with True show ?thesis by simp
  next
    case False
    then show ?thesis using nth(1) len by (auto simp: find_None_iff in_set_conv_nth)
  qed
  moreover have "block_renderable (db_blocks d ! nat n)" if "n < int (length bs)"
    using that n(1) len represented_block_renderable [OF rep] wide es by (simp add: nat_less_iff)
  ultimately show ?thesis
    using parse_block_number_dec [OF n] nth [of "nat n"] n(1) block_response_ok [of "db_blocks d ! nat n" nonce_str]
    by (auto simp: blocks_route_by_number_def blocks_get_by_number_def nat_less_iff)
qed

lemma served_latest:
  assumes ok: "schema_ok d" and can: "canonical lib bs ps" and rep: "represents es d" and es: "map snd es = ps"
    and wide: "wide_chain ps" and ne: "bs \<noteq> []"
  shows "\<exists>r. blocks_route_latest nonce_str False d = Inr r \<and> rb_hash r = Hex32 (bv_hash (last bs))"
proof -
  note nth = represented_nth [OF can rep es]
  have len: "length (db_blocks d) = length bs"
    using es canonical_length [OF can] represents_blocks [OF rep] by auto
  obtain b where b: "blocks_latest False d = Inr (Some b)" "b \<in> set (db_blocks d)"
    "\<forall>x\<in>set (db_blocks d). br_number x \<le> br_number b"
    using blocks_latest_max [of d] ok ne len unfolding schema_ok_def by (metis length_0_conv)
  obtain i where i: "i < length bs" "b = db_blocks d ! i" using b(2) len by (auto simp: in_set_conv_nth)
  have "db_blocks d ! (length bs - 1) \<in> set (db_blocks d)" using ne len by simp
  then have "int (length bs - 1) \<le> int i" using b(3) i nth(1) ne by (metis diff_less length_greater_0_conv zero_less_one)
  then have "i = length bs - 1" using i(1) by simp
  then have "br_hash b = bv_hash (last bs)" using i ne nth(2) by (simp add: last_conv_nth)
  then show ?thesis
    using b(1) block_response_ok [OF represented_block_renderable [OF rep _ b(2)]] wide es
    by (auto simp: blocks_route_latest_def)
qed

section \<open>From an empty index\<close>

lemma empty_synced:
  assumes "indexer_start_block (po_config self) = 0" and "w_db w = empty_chain_db"
  shows "synced self ps 0 \<lparr>ls_world = w, ls_next_block = 0, ls_backoff = Backoff_new, ls_sleeps_ms = []\<rparr>"
  using assms by (auto simp: synced_def poller_ok_def next_height_def chain_ok_def represents_def
      empty_chain_db_def schema_ok_def chain_linked_def heights_ok_def consumed_known_def checkpoint_of_def intro!: exI [of _ "[]"])

lemma run_loop_continues: "\<forall>env\<in>set envs. \<not> pe_cancelled env \<Longrightarrow> fst (run_loop self envs s) = False"
  by (induction envs arbitrary: s) auto

text \<open>A first run against a settled node, with one iteration per block.\<close>

lemma first_run_synced:
  assumes can: "canonical (po_parse self) bs ps" and srv: "serves ckb bs"
    and quiet: "\<forall>env\<in>set envs. quiet_env ckb env" and enough: "length bs \<le> length envs"
    and start: "indexer_start_block (po_config self) = 0" and empty: "w_db w = empty_chain_db"
  obtains s es where "run self False envs w = Inr (False, s)" "schema_ok (w_db (ls_world s))"
    "represents es (w_db (ls_world s))" "map snd es = ps"
proof -
  let ?start = "\<lparr>ls_world = w, ls_next_block = 0, ls_backoff = Backoff_new, ls_sleeps_ms = []\<rparr>"
  let ?s = "snd (run_loop self envs ?start)"
  have "synced self ps (length bs) ?s"
    by (rule synced_run [OF empty_synced [OF start empty] can srv quiet]) (use enough in simp)
  then obtain es where es: "represents es (w_db (ls_world ?s))" "map snd es = ps" "schema_ok (w_db (ls_world ?s))"
    using canonical_length [OF can] by (auto simp: synced_def poller_ok_def chain_ok_def)
  have "fst (run_loop self envs ?start) = False" using quiet by (intro run_loop_continues) (auto simp: quiet_env_def)
  then have "run_loop self envs ?start = (False, ?s)" by (simp only: prod_eq_iff fst_conv snd_conv)
  moreover have "checkpoint_read False (w_db w) = Inr None" by (simp add: checkpoint_read_def empty empty_chain_db_def)
  ultimately have "run self False envs w = Inr (False, ?s)" using start by (simp add: run_def start_block_def)
  with es that show thesis by blast
qed

section \<open>A chain with hashes of full width\<close>

definition wide_lib :: parse_lib where
  "wide_lib = \<lparr>calc_script_hash = (\<lambda>s. take 32 (sc_args s @ bytes32 0)), to_value = (\<lambda>s. Inr (JStr s)), bigdecimal_from_str = (\<lambda>s. Some 0)\<rparr>"

definition wide_tx :: "byte \<Rightarrow> byte \<Rightarrow> TransactionView" where
  "wide_tx tx spends = \<lparr>tv_hash = bytes32 tx, tv_version = 0, tv_cell_deps = [], tv_header_deps = [], tv_witnesses = [],
     tv_inputs = [\<lparr>ci_previous_tx_hash = bytes32 spends, ci_previous_index = 0\<rparr>],
     tv_outputs = [\<lparr>co_capacity = 100, co_lock = \<lparr>sc_code_hash = bytes32 1, sc_hash_type = ''type'', sc_args = bytes32 5\<rparr>, co_type = None\<rparr>],
     tv_outputs_data = [[]]\<rparr>"

definition wide_view :: "u64 \<Rightarrow> byte \<Rightarrow> byte \<Rightarrow> TransactionView \<Rightarrow> BlockView" where
  "wide_view n b parent tx = \<lparr>bv_number = n, bv_hash = bytes32 b, bv_parent_hash = bytes32 parent, bv_timestamp = 0, bv_epoch = 0,
     bv_nonce = 0, bv_dao = bytes32 0, bv_transactions = [tx], bv_proposals = [], bv_uncles = []\<rparr>"

definition wide_views :: "BlockView list" where
  "wide_views = [wide_view 0 10 0 (wide_tx 20 0), wide_view 1 11 10 (wide_tx 21 20)]"

definition wide_row :: "i64 \<Rightarrow> byte \<Rightarrow> CellRow" where
  "wide_row n tx = \<lparr>cr_tx_hash = bytes32 tx, cr_output_index = 0, cr_block_number = n, cr_capacity_shannons = 100,
     cr_lock_code_hash = bytes32 1, cr_lock_hash_type = Type, cr_lock_args = bytes32 5, cr_lock_hash = bytes32 5,
     cr_type_code_hash = None, cr_type_hash_type = None, cr_type_args = None, cr_type_hash = None, cr_data = []\<rparr>"

definition wide_parsed :: "i64 \<Rightarrow> byte \<Rightarrow> byte \<Rightarrow> byte \<Rightarrow> ConsumedCellRef list \<Rightarrow> ParsedBlock" where
  "wide_parsed n b parent tx refs =
     \<lparr>pb_block = \<lparr>br_number = n, br_hash = bytes32 b, br_parent_hash = bytes32 parent, br_timestamp_ms = 0, br_epoch = 0,
        br_transactions_count = 1, br_proposals_count = 0, br_uncles_count = 0, br_nonce = 0, br_dao = bytes32 0\<rparr>,
      pb_transactions = [\<lparr>tr_hash = bytes32 tx, tr_block_number = n, tr_tx_index = 0, tr_version = 0, tr_cell_deps = JStr [],
        tr_header_deps = JStr [], tr_witnesses = JStr [], tr_inputs_count = 1, tr_outputs_count = 1\<rparr>],
      pb_cells = [wide_row n tx], pb_consumed = refs\<rparr>"

definition wide_blocks :: "ParsedBlock list" where
  "wide_blocks = [wide_parsed 0 10 0 20 [], wide_parsed 1 11 10 21 [\<lparr>cc_tx_hash = bytes32 20, cc_output_index = 0,
     cc_consumed_by_tx_hash = bytes32 21, cc_consumed_by_input_index = 0, cc_consumed_at_block_number = 1\<rparr>]]"

lemma wide_canonical: "canonical wide_lib wide_views wide_blocks"
proof -
  have "map (parse_block wide_lib) wide_views = map Inr wide_blocks" by code_simp
  then show ?thesis
    by (simp add: canonical_def)
      (simp add: wide_views_def wide_blocks_def wide_view_def wide_parsed_def wide_row_def less_Suc_eq all_conj_distrib)
qed

lemma wide_views_wide: "list_all view_wide wide_views" "script_hash_wide wide_lib"
  by (auto simp: wide_views_def wide_view_def wide_tx_def view_wide_def output_wide_def script_wide_def script_hash_wide_def wide_lib_def
      opt_all_def min_def)

end
