(* ===== verification/Tracing.thy ===== *)
theory Tracing
  imports Config Node
begin

text \<open>
  \<^verbatim>\<open>common/src/logging.rs\<close>: the settings of the trace exporter and the installation of the subscriber
  stack.  Parsing a filter, building an exporter and \<^verbatim>\<open>try_init\<close> belong to libraries: their answers
  are fields of \<open>tracing_lib\<close>, an error being its text.
\<close>

record OtelConfig =
  ot_endpoint :: "string option"
  ot_sample_ratio :: rat
  ot_service_name :: string

definition otel_from_config :: "Config \<Rightarrow> string \<Rightarrow> OtelConfig" where
  "otel_from_config config default_service_name =
     \<lparr>ot_endpoint = otel_otlp_endpoint config, ot_sample_ratio = otel_sample_ratio config,
      ot_service_name = unwrap_or (otel_service_name config) default_service_name\<rparr>"

text \<open>A provider is what it was built from: its endpoint, the service name of its resource and the
  ratio of its sampler.  A layer of the stack is identified by what the code puts there.\<close>

record tracer_provider =
  tp_endpoint :: string
  tp_service_name :: string
  tp_ratio :: rat

datatype layer = OtelLayer string tracer_provider | FilterLayer string | FmtJson | FmtPretty

record TracingGuard =
  tg_provider :: "tracer_provider option"

record tracing_lib =
  tl_filter :: "string \<Rightarrow> string option"
  tl_exporter :: "string \<Rightarrow> string option"
  tl_try_init :: "layer list \<Rightarrow> string option"

definition build_otel_layer :: "tracing_lib \<Rightarrow> OtelConfig \<Rightarrow> CommonError + (layer \<times> tracer_provider)" where
  "build_otel_layer lib cfg =
     and_then (ok_or (ot_endpoint cfg) (Logging ''OTel layer requested but no endpoint set'')) (\<lambda>endpoint.
     case tl_exporter lib endpoint of
       Some err \<Rightarrow> Inl (Logging (''OTLP exporter init failed: '' @ err))
     | None \<Rightarrow>
         let provider = \<lparr>tp_endpoint = endpoint, tp_service_name = ot_service_name cfg,
                         tp_ratio = max 0 (min 1 (ot_sample_ratio cfg))\<rparr>
         in Inr (OtelLayer (ot_service_name cfg) provider, provider))"

fun fmt_layer :: "LogFormat \<Rightarrow> layer" where
  "fmt_layer Json = FmtJson"
| "fmt_layer Pretty = FmtPretty"

text \<open>The second component is the stack that became the global subscriber, if one did.\<close>

definition try_init :: "tracing_lib \<Rightarrow> layer list \<Rightarrow> (CommonError + unit) \<times> layer list option" where
  "try_init lib layers =
     (case tl_try_init lib layers of Some err \<Rightarrow> (Inl (Logging err), None) | None \<Rightarrow> (Inr (), Some layers))"

definition install_with_otel :: "tracing_lib \<Rightarrow> string \<Rightarrow> LogFormat \<Rightarrow> layer \<Rightarrow> (CommonError + unit) \<times> layer list option" where
  "install_with_otel lib env_filter format otel_layer =
     try_init lib [otel_layer, FilterLayer env_filter, fmt_layer format]"

definition install_without_otel :: "tracing_lib \<Rightarrow> string \<Rightarrow> LogFormat \<Rightarrow> (CommonError + unit) \<times> layer list option" where
  "install_without_otel lib env_filter format = try_init lib [FilterLayer env_filter, fmt_layer format]"

definition logging_init ::
  "tracing_lib \<Rightarrow> string \<Rightarrow> LogFormat \<Rightarrow> OtelConfig option \<Rightarrow> (CommonError + TracingGuard) \<times> layer list option" where
  "logging_init lib filter_text format otel =
     (case tl_filter lib filter_text of
        Some err \<Rightarrow> (Inl (Logging (''invalid log filter '' @ [CHR 0x27] @ filter_text @ [CHR 0x27] @ '': '' @ err)), None)
      | None \<Rightarrow>
          (case otel of
             Some cfg \<Rightarrow>
               if ot_endpoint cfg \<noteq> None then
                 (case build_otel_layer lib cfg of
                    Inl e \<Rightarrow> (Inl e, None)
                  | Inr (otel_layer, provider) \<Rightarrow>
                      (case install_with_otel lib filter_text format otel_layer of
                         (Inl e, g) \<Rightarrow> (Inl e, g)
                       | (Inr _, g) \<Rightarrow> (Inr \<lparr>tg_provider = Some provider\<rparr>, g)))
               else (case install_without_otel lib filter_text format of
                       (Inl e, g) \<Rightarrow> (Inl e, g) | (Inr _, g) \<Rightarrow> (Inr \<lparr>tg_provider = None\<rparr>, g))
           | None \<Rightarrow> (case install_without_otel lib filter_text format of
                        (Inl e, g) \<Rightarrow> (Inl e, g) | (Inr _, g) \<Rightarrow> (Inr \<lparr>tg_provider = None\<rparr>, g))))"

lemmas logging_defs = logging_init_def build_otel_layer_def install_with_otel_def install_without_otel_def try_init_def

text \<open>Dropping the guard shuts the provider down, once: the guard keeps none.\<close>

definition TracingGuard_drop :: "TracingGuard \<Rightarrow> tracer_provider option \<times> TracingGuard" where
  "TracingGuard_drop g = (tg_provider g, g\<lparr>tg_provider := None\<rparr>)"

section \<open>What an installation leaves behind\<close>

text \<open>A subscriber is installed exactly when a guard is returned, every subscriber filters, and it exports
  exactly when the guard holds a provider, whose sampling ratio is a probability whatever was
  configured.\<close>

lemma logging_init_installs:
  "(\<exists>g. fst (logging_init lib f fmt otel) = Inr g) \<longleftrightarrow> snd (logging_init lib f fmt otel) \<noteq> None"
  by (auto simp: logging_defs and_then_def ok_or_def Let_def split: option.splits sum.splits)

lemma logging_init_stack:
  assumes "logging_init lib f fmt otel = (Inr g, Some layers)"
  shows "layers = (case tg_provider g of None \<Rightarrow> [] | Some p \<Rightarrow> [OtelLayer (tp_service_name p) p])
           @ [FilterLayer f, fmt_layer fmt]"
    and "tg_provider g \<noteq> None \<longleftrightarrow> (\<exists>cfg e. otel = Some cfg \<and> ot_endpoint cfg = Some e)"
    and "tg_provider g = Some p \<Longrightarrow> 0 \<le> tp_ratio p \<and> tp_ratio p \<le> 1"
  using assms by (auto simp: logging_defs and_then_def ok_or_def Let_def split: option.splits sum.splits)

end
