(* ===== verification/Boot.thy ===== *)
theory Boot
  imports Tracing Poller
begin

text \<open>
  What both binaries do before they start working: \<^verbatim>\<open>db/src/pool.rs\<close>, \<^verbatim>\<open>db/src/migrate.rs\<close>, the constructor
  of \<^verbatim>\<open>common/src/ckb/client.rs\<close>, and the signals of \<^verbatim>\<open>indexer/src/shutdown.rs\<close> and \<^verbatim>\<open>api/src/main.rs\<close>.  The
  answers of sqlx, of the HTTP client and of the operating system are fields of \<open>boot_lib\<close>, an error
  being its text.
\<close>

record PgPoolOptions =
  max_connections :: u32
  acquire_timeout_secs :: u64
  test_before_acquire :: bool

record CkbClient =
  ck_endpoint :: string
  ck_timeout_secs :: u64
  ck_next_id :: u64

record boot_lib =
  bl_connect :: "PgPoolOptions \<Rightarrow> string \<Rightarrow> SqlxError option"
  bl_migrate :: "string option"
  bl_url :: "string \<Rightarrow> string option"
  bl_http :: "string option"
  bl_addr :: "string \<Rightarrow> bool"
  bl_redis_open :: "string \<Rightarrow> bool"
  bl_redis_connect :: bool
  bl_bind :: "string option"

text \<open>\<^verbatim>\<open>Config::from_env\<close>, and what \<^verbatim>\<open>figment\<close> promises about numbers.\<close>

definition from_env :: "figment \<Rightarrow> CommonError + Config" where
  "from_env fig = (case extract_config fig of None \<Rightarrow> Inl (Config (fg_error fig)) | Some config \<Rightarrow> Inr config)"

definition figment_ok :: "figment \<Rightarrow> bool" where
  "figment_ok fig \<longleftrightarrow> (\<forall>key n. fg_u64 fig key = Set n \<longrightarrow> in_u64 n)"

lemma from_env_start:
  assumes "figment_ok fig" "from_env fig = Inr config"
  shows "0 \<le> indexer_start_block config"
proof -
  have "or_default 0 (fg_u64 fig ''indexer_start_block'') = Some (indexer_start_block config)"
    using assms(2) extract_required(3) by (auto simp: from_env_def split: option.splits)
  then show ?thesis using assms(1) by (auto simp: or_default_Some figment_ok_def in_u64_def)
qed

text \<open>Both variables without default are needed.\<close>

lemma from_env_required:
  assumes "fg_string fig ''database_url'' = Absent \<or> fg_string fig ''ckb_rpc_url'' = Absent"
  shows "from_env fig = Inl (Config (fg_error fig))"
proof (cases "extract_config fig")
  case (Some config)
  then show ?thesis using assms extract_required(1,2) [OF Some] by auto
qed (simp add: from_env_def)

definition connect :: "boot_lib \<Rightarrow> string \<Rightarrow> DbError + PgPoolOptions" where
  "connect lib url =
     (let options = \<lparr>max_connections = 16, acquire_timeout_secs = 5, test_before_acquire = True\<rparr>
      in case bl_connect lib options url of Some e \<Rightarrow> Inl (Sqlx e) | None \<Rightarrow> Inr options)"

definition migrate_run :: "boot_lib \<Rightarrow> DbError + unit" where
  "migrate_run lib = (case bl_migrate lib of Some e \<Rightarrow> Inl (Migrate e) | None \<Rightarrow> Inr ())"

definition CkbClient_new :: "boot_lib \<Rightarrow> string \<Rightarrow> CommonError + CkbClient" where
  "CkbClient_new lib endpoint =
     (case bl_url lib endpoint of
        Some err \<Rightarrow> Inl (InvalidUrl (endpoint @ '': '' @ err))
      | None \<Rightarrow>
          (case bl_http lib of
             Some err \<Rightarrow> Inl (CkbHttp err)
           | None \<Rightarrow> Inr \<lparr>ck_endpoint = endpoint, ck_timeout_secs = 15, ck_next_id = 1\<rparr>))"

text \<open>\<^verbatim>\<open>anyhow\<close>'s \<^verbatim>\<open>context\<close>: the binary exits with this text, the cause being attached to it.\<close>

definition with_context :: "string \<Rightarrow> 'e + 'a \<Rightarrow> string + 'a" where
  "with_context what = map_err (\<lambda>_. what)"

lemma with_context_cases [simp]:
  "with_context what (Inl e) = Inl what" "with_context what (Inr x) = Inr x"
  "with_context what r = Inr x \<longleftrightarrow> r = Inr x"
  by (cases r; simp add: with_context_def)+

section \<open>Signals\<close>

text \<open>What has happened by the moment a future is polled: whether its handler could be installed and
  whether the signal has arrived since.\<close>

record signals =
  sg_ctrl_c_installs :: bool
  sg_interrupted :: bool
  sg_terminate_installs :: bool
  sg_terminated :: bool

text \<open>Whether the future is ready.  A failure to install the first handler is logged and the future
  completes; a failure to install the second makes it wait for ever.\<close>

definition wait_for_ctrl_c :: "signals \<Rightarrow> bool" where
  "wait_for_ctrl_c s = (if sg_ctrl_c_installs s then sg_interrupted s else True)"

definition wait_for_terminate :: "signals \<Rightarrow> bool" where
  "wait_for_terminate s = (if sg_terminate_installs s then sg_terminated s else False)"

text \<open>The task of the indexer cancels the token as soon as one of its three futures is ready.\<close>

definition shutdown_poll :: "signals \<Rightarrow> bool \<Rightarrow> bool" where
  "shutdown_poll s cancelled \<longleftrightarrow> wait_for_ctrl_c s \<or> wait_for_terminate s \<or> cancelled"

text \<open>The future the API server drains at.\<close>

definition shutdown_signal :: "signals \<Rightarrow> bool" where
  "shutdown_signal s \<longleftrightarrow> wait_for_ctrl_c s \<or> wait_for_terminate s"

definition arrived :: "signals \<Rightarrow> bool" where
  "arrived s \<longleftrightarrow> sg_ctrl_c_installs s \<and> sg_interrupted s \<or> sg_terminate_installs s \<and> sg_terminated s"

text \<open>With both handlers installed the processes stop exactly when a signal arrives.  When the first
  handler cannot be installed they stop at once, although no signal ever arrives.\<close>

lemma shutdown_iff_signal:
  "sg_ctrl_c_installs s \<Longrightarrow> shutdown_signal s \<longleftrightarrow> arrived s"
  "sg_ctrl_c_installs s \<Longrightarrow> shutdown_poll s cancelled \<longleftrightarrow> arrived s \<or> cancelled"
  by (auto simp: shutdown_signal_def shutdown_poll_def wait_for_ctrl_c_def wait_for_terminate_def arrived_def)

lemma shutdown_without_signal:
  "\<not> sg_ctrl_c_installs s \<Longrightarrow> shutdown_signal s" "\<not> sg_ctrl_c_installs s \<Longrightarrow> shutdown_poll s cancelled"
  by (auto simp: shutdown_signal_def shutdown_poll_def wait_for_ctrl_c_def)

end
