(* ===== verification/IndexerMain.thy ===== *)
theory IndexerMain
  imports Boot PollerInv
begin

text \<open>
  The indexer as a process: \<^verbatim>\<open>indexer/src/app.rs\<close>, \<^verbatim>\<open>indexer/src/main.rs\<close>, the server of its metrics
  (\<^verbatim>\<open>indexer/src/metrics_server.rs\<close>) and how \<^verbatim>\<open>indexer/src/shutdown.rs\<close> stops the poller.
\<close>

section \<open>The service\<close>

text \<open>The constructors of the poller; its metrics are part of the world it runs in.\<close>

definition Poller_new :: "parse_lib \<Rightarrow> event_lib \<Rightarrow> Config \<Rightarrow> Poller \<times> indexer_metrics" where
  "Poller_new parse events config =
     (\<lparr>po_parse = parse, po_events = events, po_redis = False, po_config = config\<rparr>, Metrics_new)"

definition Poller_with_redis :: "Poller \<times> indexer_metrics \<Rightarrow> Poller \<times> indexer_metrics" where
  "Poller_with_redis = (\<lambda>(p, m). (p\<lparr>po_redis := True\<rparr>, m))"

definition Poller_with_metrics :: "indexer_metrics \<Rightarrow> Poller \<times> indexer_metrics \<Rightarrow> Poller \<times> indexer_metrics" where
  "Poller_with_metrics metrics = (\<lambda>(p, m). (p, metrics))"

record Service =
  se_config :: Config
  se_redis :: bool
  se_metrics :: indexer_metrics

definition Service_new :: "Config \<Rightarrow> Service" where
  "Service_new config = \<lparr>se_config = config, se_redis = False, se_metrics = Metrics_new\<rparr>"

definition Service_with_redis :: "Service \<Rightarrow> Service" where
  "Service_with_redis self = self\<lparr>se_redis := True\<rparr>"

definition Service_with_metrics :: "indexer_metrics \<Rightarrow> Service \<Rightarrow> Service" where
  "Service_with_metrics metrics self = self\<lparr>se_metrics := metrics\<rparr>"

definition Service_run ::
  "parse_lib \<Rightarrow> event_lib \<Rightarrow> Service \<Rightarrow> bool \<Rightarrow> poll_env list \<Rightarrow> chain_db \<Rightarrow> PollerError + (bool \<times> loop_state)" where
  "Service_run parse events self read_fault envs d =
     (let poller = Poller_with_metrics (se_metrics self) (Poller_new parse events (se_config self));
          poller = (if se_redis self then Poller_with_redis poller else poller)
      in run (fst poller) read_fault envs \<lparr>w_db = d, w_metrics = snd poller, w_messages = []\<rparr>)"

section \<open>The metrics server\<close>

text \<open>\<^verbatim>\<open>Metrics::render\<close>: an encoding error or text that is not UTF-8 renders as nothing.\<close>

definition Metrics_render :: "(indexer_metrics \<Rightarrow> bytes option) \<Rightarrow> (bytes \<Rightarrow> string option) \<Rightarrow> indexer_metrics \<Rightarrow> string" where
  "Metrics_render encode from_utf8 m =
     (case encode m of None \<Rightarrow> [] | Some buffer \<Rightarrow> unwrap_or (from_utf8 buffer) [])"

definition indexer_metrics_handler :: "(indexer_metrics \<Rightarrow> string) \<Rightarrow> indexer_metrics \<Rightarrow> (string \<times> string) list \<times> string" where
  "indexer_metrics_handler render m = ([(''content-type'', ''text/plain; version=0.0.4'')], render m)"

definition indexer_health_handler :: string where
  "indexer_health_handler = ''ok''"

text \<open>The task: it ends with an error when the address cannot be bound, and otherwise when it is cancelled
  or serving fails.  The second component is what it logs.\<close>

definition metrics_server_task :: "string option \<Rightarrow> string option \<Rightarrow> (string + unit) \<times> string list" where
  "metrics_server_task bind serve =
     (case bind of
        Some _ \<Rightarrow> (Inl ''bind metrics listener'', [])
      | None \<Rightarrow>
          (case serve of
             Some _ \<Rightarrow> (Inr (), [''indexer metrics server stopped with error''])
           | None \<Rightarrow> (Inr (), [])))"

section \<open>Stopping\<close>

text \<open>Between two looks of the poller at the token, signals arrive and the shutdown task may be polled.\<close>

record shutdown_poll_env =
  sd_interrupt :: bool
  sd_terminate :: bool
  sd_polled :: bool

definition note_signals :: "shutdown_poll_env \<Rightarrow> signals \<Rightarrow> signals" where
  "note_signals e s = s\<lparr>sg_interrupted := sg_interrupted s \<or> sd_interrupt e, sg_terminated := sg_terminated s \<or> sd_terminate e\<rparr>"

fun shutdown_spawn :: "signals \<Rightarrow> bool \<Rightarrow> (shutdown_poll_env \<times> poll_env) list \<Rightarrow> poll_env list" where
  "shutdown_spawn s cancelled [] = []"
| "shutdown_spawn s cancelled ((e, env) # rest) =
     (let s' = note_signals e s;
          cancelled' = (cancelled \<or> sd_polled e \<and> shutdown_poll s' cancelled)
      in env\<lparr>pe_cancelled := cancelled'\<rparr> # shutdown_spawn s' cancelled' rest)"

section \<open>The process\<close>

record indexer_boot =
  ib_env :: figment
  ib_tracing :: tracing_lib
  ib_lib :: boot_lib
  ib_parse :: parse_lib
  ib_events :: event_lib
  ib_signals :: signals
  ib_serve :: "string option"
  ib_read_fault :: bool
  ib_passes :: "(shutdown_poll_env \<times> poll_env) list"

text \<open>What the process has done by the end of its passes: the poller's result, how the metrics task ended,
  and what was logged as a warning or an error.\<close>

record indexer_exit =
  ix_result :: "PollerError + (bool \<times> loop_state)"
  ix_metrics_task :: "string + unit"
  ix_log :: "string list"

definition redis_manager :: "boot_lib \<Rightarrow> Config \<Rightarrow> bool \<times> string list" where
  "redis_manager lib config =
     (if bl_redis_open lib (redis_url config) then
        if bl_redis_connect lib then (True, [])
        else (False, [''redis connection manager failed; reorg events will not publish''])
      else (False, [''redis client construction failed; reorg events will not publish'']))"

definition indexer_main :: "indexer_boot \<Rightarrow> chain_db \<Rightarrow> string + indexer_exit" where
  "indexer_main b d =
     and_then (with_context ''load configuration'' (from_env (ib_env b))) (\<lambda>config.
     and_then (with_context ''initialise logging''
         (fst (logging_init (ib_tracing b) (log_level config) (log_format config) (Some (otel_from_config config ''cellora-indexer''))))) (\<lambda>_.
     and_then (with_context ''connect to postgres'' (connect (ib_lib b) (database_url config))) (\<lambda>_.
     and_then (with_context ''run migrations'' (migrate_run (ib_lib b))) (\<lambda>_.
     and_then (with_context ''construct ckb client'' (CkbClient_new (ib_lib b) (ckb_rpc_url config))) (\<lambda>_.
       let (redis, redis_log) = redis_manager (ib_lib b) config;
           metrics = Metrics_new
       in if \<not> bl_addr (ib_lib b) (indexer_metrics_bind_addr config)
          then Inl (''parse indexer metrics bind address '' @ quoted (indexer_metrics_bind_addr config))
          else
            let (task, task_log) = metrics_server_task (bl_bind (ib_lib b)) (ib_serve b);
                service = Service_with_metrics metrics (Service_new config);
                service = (if redis then Service_with_redis service else service);
                result = Service_run (ib_parse b) (ib_events b) service (ib_read_fault b)
                           (shutdown_spawn (ib_signals b) False (ib_passes b)) d
            in Inr \<lparr>ix_result = result, ix_metrics_task = task,
                    ix_log = redis_log @ task_log @
                      (case result of Inl _ \<Rightarrow> [''cellora indexer stopped with error''] | Inr _ \<Rightarrow> [])\<rparr>)))))"


section \<open>Restarting\<close>

text \<open>What the next iteration depends on: the tables and the block to ask for.  Neither the metrics, nor
  what was published, nor the backoff, nor whether Redis is attached has an influence.\<close>

definition core :: "loop_state \<Rightarrow> chain_db \<times> u64" where
  "core s = (w_db (ls_world s), ls_next_block s)"

definition same_indexer :: "Poller \<Rightarrow> Poller \<Rightarrow> bool" where
  "same_indexer p q \<longleftrightarrow> po_parse p = po_parse q \<and> po_config p = po_config q"

lemma step_core:
  assumes "same_indexer p q" and "w_db v = w_db w"
  shows "fst (step p env n v) = fst (step q env n w) \<and> w_db (snd (step p env n v)) = w_db (snd (step q env n w))"
proof -
  have ib: "fst (index_block p env n block v) = fst (index_block q env n block w) \<and>
      w_db (snd (index_block p env n block v)) = w_db (snd (index_block q env n block w))" for block
    using assms by (auto simp: index_block_def same_indexer_def split: sum.split prod.split)
  have hr: "fst (handle_reorg p env m x v) = fst (handle_reorg q env m x w) \<and>
      w_db (snd (handle_reorg p env m x v)) = w_db (snd (handle_reorg q env m x w))" for m x
    using assms by (auto simp: handle_reorg_def same_indexer_def Let_def split: sum.split prod.split)
  show ?thesis using ib hr assms(2) by (auto simp: step_def Let_def split: sum.split option.split)
qed

lemma loop_iteration_core:
  assumes "same_indexer p q" and "core s = core t"
  shows "core (loop_iteration p env s) = core (loop_iteration q env t)"
proof -
  obtain r v where p: "step p env (ls_next_block s) (ls_world s) = (r, v)" by fastforce
  obtain r' w where q: "step q env (ls_next_block t) (ls_world t) = (r', w)" by fastforce
  have "r' = r" "w_db w = w_db v" "ls_next_block t = ls_next_block s"
    using step_core [OF assms(1), of "ls_world s" "ls_world t" env "ls_next_block s"] assms(2) p q by (auto simp: core_def)
  then show ?thesis
    using p q by (auto simp: loop_iteration_def core_def next_delay_def Let_def split: sum.split StepOutcome.split)
qed

lemma run_loop_core:
  assumes "same_indexer p q" and "core s = core t"
  shows "fst (run_loop p envs s) = fst (run_loop q envs t) \<and> core (snd (run_loop p envs s)) = core (snd (run_loop q envs t))"
  using assms(2)
proof (induction envs arbitrary: s t)
  case (Cons env envs)
  show ?case using Cons.IH [OF loop_iteration_core [OF assms(1) Cons.prems]] Cons.prems by simp
qed simp

lemma run_loop_append:
  "\<forall>env\<in>set xs. \<not> pe_cancelled env \<Longrightarrow> run_loop self (xs @ ys) s = run_loop self ys (snd (run_loop self xs s))"
  by (induction xs arbitrary: s) auto

text \<open>The service as a run of the poller it builds.\<close>

definition service_poller :: "parse_lib \<Rightarrow> event_lib \<Rightarrow> Service \<Rightarrow> Poller" where
  "service_poller parse events self =
     \<lparr>po_parse = parse, po_events = events, po_redis = se_redis self, po_config = se_config self\<rparr>"

lemma Service_run_eq:
  "Service_run parse events self f envs d =
     run (service_poller parse events self) f envs \<lparr>w_db = d, w_metrics = se_metrics self, w_messages = []\<rparr>"
  by (simp add: Service_run_def service_poller_def Poller_with_metrics_def Poller_with_redis_def Poller_new_def Let_def)

definition first_state :: "Config \<Rightarrow> world \<Rightarrow> loop_state" where
  "first_state config w = \<lparr>ls_world = w, ls_next_block = start_block config (db_indexer_state (w_db w)),
     ls_backoff = Backoff_new, ls_sleeps_ms = []\<rparr>"

lemma run_first: "run self False envs w = Inr (run_loop self envs (first_state (po_config self) w))"
  by (simp add: run_def checkpoint_read_def first_state_def)

lemma first_state_ok:
  assumes "chain_ok (w_db w)" and "0 \<le> indexer_start_block (po_config self)"
  shows "poller_ok self (first_state (po_config self) w)"
  using assms heights_last [OF assms(1)]
  by (auto simp: poller_ok_def first_state_def start_block_next_height next_height_def)

text \<open>A process that starts on the tables a running poller left resumes where it was.\<close>

lemma resumed_core:
  assumes "poller_ok self s" and "po_config self = config" and "w_db w = w_db (ls_world s)"
  shows "core (first_state config w) = core s"
  using assms start_block_next_height [of "w_db w" config] by (simp add: core_def first_state_def poller_ok_def)


definition sample_service :: Service where
  "sample_service = Service_new (default_config ''db'' ''rpc'')"



section \<open>What the process does\<close>

lemma indexer_main_runs:
  assumes "indexer_main b d = Inr x"
  obtains config where "from_env (ib_env b) = Inr config"
    "ix_result x = Service_run (ib_parse b) (ib_events b)
       \<lparr>se_config = config, se_redis = bl_redis_open (ib_lib b) (redis_url config) \<and> bl_redis_connect (ib_lib b), se_metrics = Metrics_new\<rparr>
       (ib_read_fault b) (shutdown_spawn (ib_signals b) False (ib_passes b)) d"
    "ix_metrics_task x = fst (metrics_server_task (bl_bind (ib_lib b)) (ib_serve b))"
    "ix_log x = snd (redis_manager (ib_lib b) config) @ snd (metrics_server_task (bl_bind (ib_lib b)) (ib_serve b)) @
       (case ix_result x of Inl _ \<Rightarrow> [''cellora indexer stopped with error''] | Inr _ \<Rightarrow> [])"
proof (cases "from_env (ib_env b)")
  case (Inr config)
  with assms show thesis
    by (intro that [of config])
      (auto simp: indexer_main_def and_then_def redis_manager_def Service_new_def Service_with_metrics_def Service_with_redis_def Let_def
        split: sum.splits prod.splits if_splits)
qed (use assms in \<open>simp add: indexer_main_def\<close>)

text \<open>The process keeps the chain like the poller does, whenever it is stopped.\<close>

lemma shutdown_spawn_envs:
  "env \<in> set (shutdown_spawn s c passes) \<Longrightarrow> \<exists>e c'. (e, env\<lparr>pe_cancelled := c'\<rparr>) \<in> set passes"
proof (induction s c passes rule: shutdown_spawn.induct)
  case (2 s c e env' rest)
  then show ?case by (force simp: Let_def intro: exI [of _ "pe_cancelled env'"])
qed simp

lemma indexer_main_keeps_chain:
  assumes "indexer_main b d = Inr x" and "ix_result x = Inr (stopped, s)" and "chain_ok d"
    and "figment_ok (ib_env b)"
    and "\<And>e env. (e, env) \<in> set (ib_passes b) \<Longrightarrow> env_ok env"
  shows "chain_ok (w_db (ls_world s))"
proof -
  obtain config where config: "from_env (ib_env b) = Inr config"
    and res: "ix_result x = Service_run (ib_parse b) (ib_events b)
       \<lparr>se_config = config, se_redis = bl_redis_open (ib_lib b) (redis_url config) \<and> bl_redis_connect (ib_lib b), se_metrics = Metrics_new\<rparr>
       (ib_read_fault b) (shutdown_spawn (ib_signals b) False (ib_passes b)) d"
    using assms(1) by (rule indexer_main_runs)
  define svc where "svc = \<lparr>se_config = config, se_redis = bl_redis_open (ib_lib b) (redis_url config) \<and> bl_redis_connect (ib_lib b), se_metrics = Metrics_new\<rparr>"
  let ?p = "service_poller (ib_parse b) (ib_events b) svc" and ?envs = "shutdown_spawn (ib_signals b) False (ib_passes b)"
  let ?from = "first_state config \<lparr>w_db = d, w_metrics = Metrics_new, w_messages = []\<rparr>"
  have p: "po_config ?p = config" by (simp add: service_poller_def svc_def)
  have envs: "\<forall>env\<in>set ?envs. env_ok env"
    using shutdown_spawn_envs assms(5) by (fastforce simp: env_ok_def)
  have "(stopped, s) = run_loop ?p ?envs ?from"
    using run_started [of ?p "ib_read_fault b" ?envs "\<lparr>w_db = d, w_metrics = Metrics_new, w_messages = []\<rparr>" stopped s] res assms(2)
    by (simp add: Service_run_eq svc_def [symmetric] p first_state_def) (simp add: svc_def)
  moreover have "poller_ok ?p ?from" using first_state_ok [of "\<lparr>w_db = d, w_metrics = Metrics_new, w_messages = []\<rparr>" ?p] assms(3) from_env_start [OF assms(4) config] p by simp
  ultimately show ?thesis
    using run_loop_reach [OF envs, of ?p ?from] poller_reach_ok by (metis poller_ok_def snd_conv)
qed

text \<open>Without signals the poller is not stopped.  If the interrupt handler cannot be installed, it is
  stopped the first time the shutdown task is polled, before it has asked for a block.\<close>

lemma quiet_signals_keep_running:
  assumes "sg_ctrl_c_installs s" "\<not> arrived s" and "\<forall>(e, env)\<in>set passes. \<not> sd_interrupt e \<and> \<not> sd_terminate e"
  shows "\<forall>env\<in>set (shutdown_spawn s False passes). \<not> pe_cancelled env"
  using assms
proof (induction passes arbitrary: s)
  case (Cons pass passes)
  obtain e env where pass: "pass = (e, env)" by (cases pass)
  have same: "note_signals e s = s" using Cons.prems(3) by (simp add: pass note_signals_def)
  then show ?case using Cons shutdown_iff_signal(2) [of s False] by (simp add: pass Let_def)
qed simp

theorem failed_interrupt_handler_stops_indexer:
  assumes "\<not> sg_ctrl_c_installs (ib_signals b)" and "ib_passes b = (e, env) # rest" and "sd_polled e"
    and "indexer_main b d = Inr x" and "\<not> ib_read_fault b"
  shows "\<exists>s. ix_result x = Inr (True, s) \<and> w_db (ls_world s) = d"
proof -
  have "shutdown_poll (note_signals e (ib_signals b)) False"
    using assms(1) by (intro shutdown_without_signal) (simp add: note_signals_def)
  then have "\<exists>env' rest'. shutdown_spawn (ib_signals b) False (ib_passes b) = env' # rest' \<and> pe_cancelled env'"
    using assms(2,3) by (simp add: Let_def)
  moreover obtain config where "ix_result x = Service_run (ib_parse b) (ib_events b)
       \<lparr>se_config = config, se_redis = bl_redis_open (ib_lib b) (redis_url config) \<and> bl_redis_connect (ib_lib b), se_metrics = Metrics_new\<rparr>
       (ib_read_fault b) (shutdown_spawn (ib_signals b) False (ib_passes b)) d"
    using assms(4) by (rule indexer_main_runs)
  ultimately show ?thesis using assms(5) by (auto simp: Service_run_eq run_first first_state_def)
qed

lemma bind_irrelevant:
  "connect (lib\<lparr>bl_bind := x\<rparr>) = connect lib" "migrate_run (lib\<lparr>bl_bind := x\<rparr>) = migrate_run lib"
  "CkbClient_new (lib\<lparr>bl_bind := x\<rparr>) = CkbClient_new lib" "redis_manager (lib\<lparr>bl_bind := x\<rparr>) = redis_manager lib"
  by (auto simp: fun_eq_iff connect_def migrate_run_def CkbClient_new_def redis_manager_def Let_def split: option.split)

text \<open>A metrics address that cannot be bound leaves no trace in the log: the error ends up in the result
  of the task, of which only panics are logged.\<close>

theorem metrics_bind_failure_is_silent:
  assumes "indexer_main b d = Inr x" and "bl_bind (ib_lib b) = Some err"
  shows "ix_metrics_task x = Inl ''bind metrics listener''
    \<and> indexer_main (b\<lparr>ib_lib := (ib_lib b)\<lparr>bl_bind := None\<rparr>, ib_serve := None\<rparr>) d = Inr (x\<lparr>ix_metrics_task := Inr ()\<rparr>)"
proof (cases "from_env (ib_env b)")
  case (Inr config)
  let ?tracing = "fst (logging_init (ib_tracing b) (log_level config) (log_format config) (Some (otel_from_config config ''cellora-indexer'')))"
  obtain redis log where redis: "redis_manager (ib_lib b) config = (redis, log)" by fastforce
  show ?thesis
    using assms Inr redis
    by (cases ?tracing; cases "connect (ib_lib b) (database_url config)"; cases "migrate_run (ib_lib b)";
        cases "CkbClient_new (ib_lib b) (ckb_rpc_url config)"; cases "bl_addr (ib_lib b) (indexer_metrics_bind_addr config)")
      (auto simp: indexer_main_def bind_irrelevant metrics_server_task_def Let_def)
qed (use assms in \<open>simp add: indexer_main_def\<close>)

end
