(* ===== verification/ApiMain.thy ===== *)
theory ApiMain
  imports Boot AppProps AdminCli
begin

text \<open>
  The API as a process: \<^verbatim>\<open>api/src/state.rs\<close> and \<^verbatim>\<open>api/src/main.rs\<close>, from the configuration to the state that
  \<^verbatim>\<open>build_app\<close> is given and the background tasks that run beside it.
\<close>

section \<open>Application state\<close>

text \<open>Handles are represented by what they were built with: the limiter by its policy, the auth cache
  by its capacity and time to live in seconds, a connection by its presence, the node client by
  itself, the broadcast channel by its capacity.\<close>

record AppState =
  st_db :: PgPoolOptions
  st_config :: Config
  st_tip :: TipSnapshot
  st_auth_cache :: "u64 \<times> u64"
  st_rate_limiter :: "bool option"
  st_metrics :: api_metrics
  st_redis :: bool
  st_ckb :: "CkbClient option"
  st_event_tx :: nat

definition with_tip :: "PgPoolOptions \<Rightarrow> Config \<Rightarrow> TipSnapshot \<Rightarrow> AppState" where
  "with_tip db config tip = \<lparr>st_db = db, st_config = config, st_tip = tip,
     st_auth_cache = (api_auth_cache_capacity config, api_auth_cache_ttl_seconds config), st_rate_limiter = None,
     st_metrics = api_metrics_new, st_redis = False, st_ckb = None, st_event_tx = 1000\<rparr>"

definition AppState_new :: "int \<Rightarrow> int \<Rightarrow> PgPoolOptions \<Rightarrow> Config \<Rightarrow> AppState" where
  "AppState_new least now db config = \<lparr>st_db = db, st_config = config, st_tip = TipSnapshot_empty least now,
     st_auth_cache = (api_auth_cache_capacity config, api_auth_cache_ttl_seconds config), st_rate_limiter = None,
     st_metrics = api_metrics_new, st_redis = False, st_ckb = None, st_event_tx = 1000\<rparr>"

definition with_rate_limiter :: "bool \<Rightarrow> AppState \<Rightarrow> AppState" where
  "with_rate_limiter limiter s = s\<lparr>st_rate_limiter := Some limiter\<rparr>"

definition with_redis :: "AppState \<Rightarrow> AppState" where
  "with_redis s = s\<lparr>st_redis := True\<rparr>"

definition with_ckb :: "CkbClient \<Rightarrow> AppState \<Rightarrow> AppState" where
  "with_ckb ckb s = s\<lparr>st_ckb := Some ckb\<rparr>"

lemmas state_defs = with_tip_def AppState_new_def with_rate_limiter_def with_redis_def with_ckb_def

section \<open>The process\<close>

text \<open>The two attempts to reach Redis: opening a client, which parses the URL, and connecting.  Either may
  fail with a warning.\<close>

definition build_redis_manager :: "boot_lib \<Rightarrow> Config \<Rightarrow> bool \<times> string list" where
  "build_redis_manager lib config =
     (if \<not> bl_redis_open lib (redis_url config) then (False, [''redis client construction failed''])
      else if bl_redis_connect lib then (True, [])
      else (False, [''redis connection manager failed at startup'']))"

text \<open>The tasks beside the server: the refresh of the tip with its interval in milliseconds, the worker
  of the request logs, the event listener and the webhook dispatcher.\<close>

record api_workers =
  wk_refresh_ms :: u64
  wk_metrics :: bool
  wk_events :: bool
  wk_webhooks :: bool

text \<open>The state that is handed to \<^verbatim>\<open>build_app\<close>, and the tasks.\<close>

definition api_wiring :: "boot_lib \<Rightarrow> PgPoolOptions \<Rightarrow> TipSnapshot \<Rightarrow> CkbClient \<Rightarrow> Config \<Rightarrow> AppState \<times> api_workers \<times> string list" where
  "api_wiring lib pool tip ckb config =
     (let (redis_manager, warnings) = build_redis_manager lib config;
          rate_limiter = (if redis_manager then Some (api_rate_limit_fail_open config) else None);
          state = with_ckb ckb (with_tip pool config tip);
          (state, metrics_worker) = (if redis_manager then (with_redis state, True) else (state, False));
          event_worker = bl_redis_open lib (redis_url config);
          webhook_worker = True;
          state = (case rate_limiter of Some limiter \<Rightarrow> with_rate_limiter limiter state | None \<Rightarrow> state)
      in (state, \<lparr>wk_refresh_ms = api_tip_cache_refresh_ms config, wk_metrics = metrics_worker,
                   wk_events = event_worker, wk_webhooks = webhook_worker\<rparr>, warnings))"

record api_boot =
  ab_command :: "AdminAction option"
  ab_env :: figment
  ab_tracing :: tracing_lib
  ab_lib :: boot_lib
  ab_cli :: cli_env
  ab_least :: int
  ab_now :: int
  ab_serve :: "string option"

text \<open>An operator's command prints and exits; otherwise the server runs until it is told to stop.  After
  serving, the tasks are cancelled and awaited before the result of serving is returned.\<close>

datatype api_exit =
    Administered cli_result
  | Stopped AppState api_workers "string list"

definition api_main :: "api_boot \<Rightarrow> account_db \<Rightarrow> (string + api_exit) \<times> account_db" where
  "api_main b a =
     (case with_context ''load configuration'' (from_env (ab_env b)) of Inl e \<Rightarrow> (Inl e, a) | Inr config \<Rightarrow>
     (case with_context ''initialise logging''
         (fst (logging_init (ab_tracing b) (log_level config) (log_format config) (Some (otel_from_config config ''cellora-api'')))) of
        Inl e \<Rightarrow> (Inl e, a) | Inr _ \<Rightarrow>
     (case ab_command b of
        Some action \<Rightarrow>
          (case with_context ''connect to postgres'' (connect (ab_lib b) (database_url config)) of
             Inl e \<Rightarrow> (Inl e, a)
           | Inr _ \<Rightarrow>
               (case cli_run (ab_cli b) action a of
                  (CliError e, a') \<Rightarrow> (Inl e, a')
                | (printed, a') \<Rightarrow> (Inr (Administered printed), a')))
      | None \<Rightarrow>
          (and_then (with_context ''connect to postgres'' (connect (ab_lib b) (database_url config))) (\<lambda>pool.
           and_then (with_context ''construct ckb client'' (CkbClient_new (ab_lib b) (ckb_rpc_url config))) (\<lambda>_.
             if \<not> bl_addr (ab_lib b) (api_bind_addr config)
             then Inl (''parse bind address '' @ quoted (api_bind_addr config))
             else and_then (with_context ''construct ckb client (state)'' (CkbClient_new (ab_lib b) (ckb_rpc_url config))) (\<lambda>ckb.
               let (state, workers, warnings) = api_wiring (ab_lib b) pool (TipSnapshot_empty (ab_least b) (ab_now b)) ckb config
               in case bl_bind (ab_lib b) of
                    Some _ \<Rightarrow> Inl (''bind tcp listener on '' @ api_bind_addr config)
                  | None \<Rightarrow>
                      (case ab_serve b of
                         Some _ \<Rightarrow> Inl ''serve http''
                       | None \<Rightarrow> Inr (Stopped state workers warnings))))), a))))"

section \<open>The first world\<close>

text \<open>The limiter is attached exactly when Redis is, with the configured policy, and the log worker runs
  exactly then: no request log is queued that nobody would drain.  The event listener needs a URL
  that parses only, so it outlives an unreachable Redis.\<close>

lemma api_wiring_outcome:
  assumes "api_wiring lib pool tip ckb config = (s, workers, warnings)"
  shows "st_rate_limiter s = (if st_redis s then Some (api_rate_limit_fail_open config) else None)"
    "wk_metrics workers = st_redis s" "st_redis s \<longleftrightarrow> bl_redis_open lib (redis_url config) \<and> bl_redis_connect lib"
    "wk_events workers \<longleftrightarrow> bl_redis_open lib (redis_url config)" "wk_webhooks workers"
    "st_ckb s = Some ckb" "st_tip s = tip" "st_metrics s = api_metrics_new" "warnings = [] \<longleftrightarrow> st_redis s"
  using assms by (auto simp: api_wiring_def build_redis_manager_def state_defs Let_def split: if_splits)

text \<open>What the process shares at its start, given the tables, the index and Redis as it finds them.\<close>

definition started :: "AppState \<Rightarrow> account_db \<Rightarrow> RequestLogRow list \<Rightarrow> i64 \<Rightarrow> redis_db \<Rightarrow> chain_db \<Rightarrow> app_world" where
  "started s a logs next_id r d = \<lparr>aw_cache = Map.empty, aw_accounts = a, aw_pending = [], pw_seen = [],
     pw_redis = (if st_redis s then Some r else None), sv_metrics = st_metrics s, sv_tip = st_tip s, sv_log_tasks = [],
     sv_request_logs = logs, sv_next_log_id = next_id, pp_index = d\<rparr>"

lemma api_main_serves:
  assumes "api_main b a = (Inr (Stopped s workers warnings), a')"
  obtains config pool ckb where "from_env (ab_env b) = Inr config" "a' = a"
    "api_wiring (ab_lib b) pool (TipSnapshot_empty (ab_least b) (ab_now b)) ckb config = (s, workers, warnings)"
    "connect (ab_lib b) (database_url config) = Inr pool" "CkbClient_new (ab_lib b) (ckb_rpc_url config) = Inr ckb"
  using assms that
  by (auto simp: api_main_def and_then_def Let_def split: sum.splits option.splits prod.splits if_splits cli_result.splits)

text \<open>The limiter of the composed application is the one \<^verbatim>\<open>main\<close> attached, the runs of the bearer layer start
  here, those of the log queue do when the list was empty, and no counter exists yet.\<close>

lemma started_rate_limiter:
  assumes "api_wiring lib pool tip ckb config = (s, workers, warnings)"
  shows "map_option fst (rate_limiter config (started s a logs next_id r d)) = st_rate_limiter s"
  using api_wiring_outcome(1) [OF assms] by (simp add: rate_limiter_def started_def)

lemma started_runs:
  assumes "api_wiring lib pool tip ckb config = (s, workers, warnings)"
  shows "auth_run keys ttl [] (started s a logs next_id r d)"
    "rd_request_logs r = [] \<Longrightarrow> log_run serde [] [] [] 0 (started s a logs next_id r d)"
    "requests_total (sv_metrics (started s a logs next_id r d)) = Map.empty"
proof -
  show "auth_run keys ttl [] (started s a logs next_id r d)" by (rule auth_run.start) (simp add: started_def)
  show "rd_request_logs r = [] \<Longrightarrow> log_run serde [] [] [] 0 (started s a logs next_id r d)"
    by (rule log_run.start) (simp_all add: started_def logs_of_def)
  show "requests_total (sv_metrics (started s a logs next_id r d)) = Map.empty"
    using api_wiring_outcome(8) [OF assms] by (simp add: started_def api_metrics_new_def)
qed

text \<open>Until the first refresh the tracker reports a stale snapshot, if the clock has run for ten seconds.\<close>

lemma new_state_is_stale: "least + STALE_AFTER * 2 \<le> now \<Longrightarrow> is_stale now (st_tip (AppState_new least now pool config))"
  by (simp add: AppState_new_def TipSnapshot_empty_def instant_checked_sub_def is_stale_def elapsed_def STALE_AFTER_def)

end
