(* ===== verification/Spec2Isabelle.thy ===== *)
theory Spec2Isabelle
  imports IndexerProps ServerSamples Serving IndexerMain ApiMain
begin

text \<open>
  Cellora: a CKB indexer and the API that serves its index.

  \<^bold>\<open>The program.\<close>  The \<^emph>\<open>indexer\<close> (\<^verbatim>\<open>crates/indexer\<close>) polls a CKB node block by block, converts each block into
  rows, stores it in one transaction together with a checkpoint, and handles reorganisations by
  walking back to the common ancestor and rolling back.  It publishes blocks, cells and
  reorganisations on Redis.  The \<^emph>\<open>API\<close> (\<^verbatim>\<open>crates/api\<close>) serves the index over REST and GraphQL to holders of
  API keys, with a verification cache, a rate limiter and request logs in Redis; it forwards proofs
  from the node, fans events out to subscriptions and webhooks, and has a dashboard on which GitHub
  users manage their keys and webhooks and see their usage.  \<^verbatim>\<open>crates/db\<close> holds the repositories both use,
  \<^verbatim>\<open>crates/common\<close> the node client, the configuration and the event payloads.

  \<^bold>\<open>Shared.\<close>  \<open>Prelude\<close> has bounded integers, results (\<open>and_then\<close>, \<open>map_err\<close>, \<open>ok_or\<close>) and list facts; \<open>Strings\<close>
  the string operations of the code; \<open>Models\<close> the rows of \<^verbatim>\<open>db/src/models.rs\<close>; \<open>Config\<close> the settings, their
  defaults and how they are read from the environment; \<open>Node\<close> the JSON-RPC client; \<open>Tracing\<close> the installation of the log subscriber (\<^verbatim>\<open>logging.rs\<close>); \<open>Boot\<close> what
  both binaries do first: \<^verbatim>\<open>from_env\<close>, the pool, migrations, the node client's constructor and the signals.

  \<^bold>\<open>Both together.\<close>  \<open>Serving\<close> relates the tables to what the routes answer: every row written from blocks with
  hashes of full width can be rendered, and the live cells a filter selects are the unspent outputs
  of the represented chain.  The theorem of this theory composes the two processes.

  \<^bold>\<open>The indexer.\<close>
    \<^item> \<open>ChainDb\<close>: the chain tables and every statement on them (\<^verbatim>\<open>blocks.rs\<close>, \<^verbatim>\<open>transactions.rs\<close>, \<^verbatim>\<open>cells.rs\<close>,
      \<^verbatim>\<open>checkpoint.rs\<close>, \<^verbatim>\<open>reorg_log.rs\<close>), each with the point at which it may fail; \<open>ChainInv\<close>: the well-formed chain
      and its preservation by every statement.
    \<^item> \<open>Parser\<close> (\<^verbatim>\<open>parser.rs\<close>), \<open>Reorg\<close> (\<^verbatim>\<open>reorg.rs\<close>), \<open>Events\<close> (\<^verbatim>\<open>events.rs\<close>), \<open>Poller\<close> (\<^verbatim>\<open>poller.rs\<close>, \<^verbatim>\<open>metrics.rs\<close>).
    \<^item> \<open>PollerInv\<close>: every run keeps the chain well formed unless a commit acknowledgement is lost, and what
      happens then; \<open>ChainReplay\<close>: every step refines an abstract list of blocks; \<open>Convergence\<close>: against a
      settled node the tables become its chain; \<open>IndexerProps\<close>: the parts; \<open>Samples\<close>: a concrete chain.
    \<^item> \<open>IndexerMain\<close> (\<^verbatim>\<open>app.rs\<close>, \<^verbatim>\<open>main.rs\<close>, \<^verbatim>\<open>shutdown.rs\<close>, \<^verbatim>\<open>metrics_server.rs\<close>): the process around the poller, that a
      restart is invisible in the tables, and when the process stops.

  \<^bold>\<open>The API.\<close>
    \<^item> \<open>ApiError\<close>, \<open>Hex\<close>, \<open>Pagination\<close>, \<open>Registry\<close>, \<open>Tip\<close>, \<open>CellQuery\<close>, \<open>CellsRoute\<close>, \<open>BlocksRoute\<close>, \<open>GraphQL\<close>: the query
      surface; paging is complete and terminates, GraphQL agrees with REST, a snapshot is fresh only
      while both sources answer.
    \<^item> \<open>Keys\<close>, \<open>Auth\<close>, \<open>AccountDb\<close>: keys, the bearer layer and the account tables; \<open>auth_run\<close> is the process with
      its cache, other writers of the tables and evictions at any moment.
    \<^item> \<open>RateLimit\<close>: the Lua script as a metered resource; \<open>ApiEvents\<close>, \<open>Webhooks\<close>: the event listener, subscriptions
      and deliveries.
    \<^item> \<open>SessionAuth\<close>, \<open>AdminRoutes\<close>, \<open>Dashboard\<close>: sessions, the dashboard handlers, the GitHub sign-in, and the
      isolation between users; \<open>AdminMetrics\<close>: the charts; \<open>AdminCli\<close>: the operator's commands.
    \<^item> \<open>Middleware\<close>: rate limiting, tip headers, metrics, request identifiers, CORS; \<open>MetricsWorker\<close>: the log
      queue and its worker; \<open>Health\<close>, \<open>Proofs\<close>: the remaining routes; \<open>App\<close>: \<^verbatim>\<open>build_app\<close>, all routers with their
      layers and handlers; \<open>Interrupt\<close>: the suspension points of every layer and handler, and requests that time
      out or panic at one of them; \<open>AppProps\<close>: who reaches the data, what is counted and logged; \<open>AppLimit\<close>: the bound of
      the limiter on the answers of the composed application; \<open>Routes\<close>: the route table, the dispatch of requests as
      they arrive and whether the operations of the OpenAPI document are routed; \<open>ApiDocument\<close>: the annotations and the
      document (\<^verbatim>\<open>openapi.rs\<close>); \<open>Documented\<close>: that answers have the documented statuses and schemas; \<open>Reach\<close>: the server over time, in which
      completed and interrupted requests alternate with anything else that happens, what an interrupted request
      leaves behind, and that every answer with data needed credentials.
    \<^item> \<open>ApiMain\<close> (\<^verbatim>\<open>state.rs\<close>, \<^verbatim>\<open>main.rs\<close>): the process that assembles the state and starts the tasks, and that the
      runs of the other theories start in the world it creates.
    \<^item> \<open>ApiSamples\<close>, \<open>DashboardSamples\<close>, \<open>ServerSamples\<close>: concrete inputs at which the theorems are used.

  \<^bold>\<open>Interfaces.\<close>  \<open>pk_table\<close> (\<open>ChainDb\<close>) states the laws of a table with a primary key, \<open>keyset_page\<close> (\<open>CellQuery\<close>) that pages cut a
  sorted list at a key, \<open>codec\<close> (\<open>Hex\<close>) that decoding undoes encoding, \<open>metered\<close> (\<open>RateLimit\<close>) that a level pays
  for every grant, \<open>isolated\<close> (\<open>Dashboard\<close>) that requests of one actor leave the view of others alone, \<open>counted\<close>
  (\<open>AppProps\<close>) that every step is counted under a label, \<open>handler_frame\<close>, \<open>inner_frame\<close> and \<open>layer_frame\<close> (\<open>Interrupt\<close>), each
  extending the one before, that a relation between worlds survives whatever handlers and layers do, to the end or
  to any suspension point, \<open>path_router\<close> (\<open>Routes\<close>) how axum
  picks a route; each is interpreted on the model's own definitions, the last on a matcher that takes the
  first pattern that fits, and the properties rest on the interpreted facts.

  \<^bold>\<open>How code is represented.\<close>  A function with effects maps a state record to a result and a state.  Everything
  the code does not decide (clocks, random bytes, generated identifiers, replies of Redis, of the
  node and of GitHub, and whether a statement, a commit or a command fails) is part of an
  environment record, so each theorem covers every combination of failures.  Spawned tasks are kept
  in the state as what they have left to do.  Libraries (script hashing, Argon2, SHA-256, base64,
  serde, figment's lookup of a variable, the GraphQL engine, axum's path matching, URL parsing and DNS) are parameters, with what the code relies on as
  hypotheses such as \<open>key_lib_ok\<close>.

  \<^bold>\<open>Idealisations.\<close>  Lua numbers, refill rates, percentages and percentiles are exact rationals, so rounding of doubles is
  not represented; timestamps are microseconds, instants nanoseconds; SQL rows with equal sort keys
  keep their insertion order; sleeping is recorded, not timed.  Loops that run until cancelled take
  the list of what they meet, one entry per iteration, and the theorems hold for every such list;
  the walk back, paging and the batches of the log worker terminate by their measure or counter.
  Following cursors takes a bound on the number of pages; the number of matching rows suffices.

  \<^bold>\<open>Not modelled.\<close>  The fields of the schemas and the text of the OpenAPI document are derived by macros.  Parsing
  the command line is \<^verbatim>\<open>clap\<close>; connecting, migrating, binding and serving are answers of libraries and of the
  operating system.  The text of figment's error messages and of log lines that depend on them is a parameter.
\<close>

lemma latest_over_http:
  assumes "\<And>nonce_str. \<exists>r. blocks_route_latest nonce_str False (pp_index w) = Inr r \<and> rb_hash r = x"
    and "path_router rm" "rq_path (rr_request r) = ''/v1/blocks/latest''" "http_request.rq_method (rr_request r) = ''GET''" "\<not> ap_fault env"
    and "rs_status (fst (app_service rm ex lib config env r w)) \<notin> {401, 429, 500, 503}"
  shows "\<exists>b. rs_body (fst (app_service rm ex lib config env r w)) = Payload (BlockBody b) \<and> rb_hash b = x"
proof -
  let ?c = "call_of rm ex env r"
  have "dispatch rm ex r = BlocksLatest"
    by (rule path_router.dispatch_static [OF assms(2), of "''/v1/blocks/latest''" RestRouter "[(''GET'', plain BlocksLatest)]" _ "plain BlocksLatest"])
      (simp_all add: app_routes_def route_defs method_handler_def plain_def assms)
  then have c: "cl_endpoint ?c = BlocksLatest" "cl_env ?c = env" by (simp_all add: call_of_def)
  have body: "rs_body (fst (app_service rm ex lib config env r w)) = rs_body (fst (build_app lib config ?c w))"
    by (simp add: app_service_def assms(4) split: prod.splits)
  obtain rq v where v: "undisturbed w v" "rs_body (fst (build_app lib config ?c w)) = rs_body (fst (handle lib config env BlocksLatest rq v))"
    using data_answer [of ?c lib config w] assms(6) c app_service_facts(1) [of rm ex lib config env r w] by auto
  obtain b where b: "blocks_route_latest (li_nonce_str lib) False (pp_index w) = Inr b" "rb_hash b = x" using assms(1) by blast
  have "pp_index v = pp_index w" using v(1) by (simp add: undisturbed_def)
  then show ?thesis using v(2) b assms(5) body by (simp add: result_response_def plain_response_def)
qed

text \<open>C4: what the indexer writes is what the API serves.  Against a settled node and without faults, one pass
  per block brings an empty index to a state in which \<^verbatim>\<open>GET /v1/blocks/{n}\<close> answers with the node's block
  at every height and with 404 above its tip, \<^verbatim>\<open>GET /v1/blocks/latest\<close> answers with the tip, from the path the client sends
  through all layers of the application unless one of them refuses the request, and reading \<^verbatim>\<open>GET /v1/cells?is_live=true\<close> page by page for a lock or a type script yields exactly the outputs of the
  node's chain with that script that are unspent.\<close>

theorem index_serves_node_chain:
  assumes can: "canonical parse bs ps" and srv: "serves ckb bs"
    and quiet: "\<forall>env\<in>set envs. quiet_env ckb env" and enough: "length bs \<le> length envs" and ne: "bs \<noteq> []"
    and start: "indexer_start_block (se_config svc) = 0"
    and views: "list_all view_wide bs" and lib: "script_hash_wide parse"
    and q: "cursor_lib_ok cursors" "parse_filter cursors q = Inr fil" "parse_limit (cq_limit q) config = Inr limit" "0 < limit"
      "cq_cursor q = None" "cq_is_live q = Some True"
    and fuel: "length (concat (map pb_cells ps)) < fuel"
  shows "\<exists>s. Service_run parse events svc False envs empty_chain_db = Inr (False, s) \<and>
    (\<forall>n. 0 \<le> n \<and> n \<le> i64_MAX \<longrightarrow>
       (if n < int (length bs)
        then \<exists>r. blocks_route_by_number nonce_str False (w_db (ls_world s)) (int_dec n) = Inr r
               \<and> rb_number r = n \<and> rb_hash r = Hex32 (bv_hash (bs ! nat n))
        else blocks_route_by_number nonce_str False (w_db (ls_world s)) (int_dec n) = Inl (NotFound ''block not indexed''))) \<and>
    (\<forall>rm ex (lib :: app_lib) env r (w :: app_world). path_router rm \<and> rq_path (rr_request r) = ''/v1/blocks/latest'' \<and>
       http_request.rq_method (rr_request r) = ''GET'' \<and> pp_index w = w_db (ls_world s) \<and> \<not> ap_fault env \<longrightarrow>
       rs_status (fst (app_service rm ex lib config env r w)) \<in> {401, 429, 500, 503} \<or>
       (\<exists>b. rs_body (fst (app_service rm ex lib config env r w)) = Payload (BlockBody b) \<and> rb_hash b = Hex32 (bv_hash (last bs)))) \<and>
    (\<exists>data. follow_cells fuel cursors config snap (w_db (ls_world s)) q = Some (Inr data) \<and>
       (\<lambda>r. (rc_tx_hash r, rc_output_index r)) ` set data =
         {(Hex32 (cr_tx_hash c), cr_output_index c) | c. c \<in> set (concat (map pb_cells ps)) \<and>
            filter_matches fil (stored_of_row c) \<and> row_key_of c \<in> chain_utxo ps})"
proof -
  let ?p = "service_poller parse events svc" and ?w = "\<lparr>w_db = empty_chain_db, w_metrics = se_metrics svc, w_messages = []\<rparr>"
  have p: "po_parse ?p = parse" "po_config ?p = se_config svc" by (simp_all add: service_poller_def)
  obtain s es where run: "run ?p False envs ?w = Inr (False, s)" and ok: "schema_ok (w_db (ls_world s))"
    and rep: "represents es (w_db (ls_world s))" and es: "map snd es = ps"
    using can p start by (auto intro: first_run_synced [OF _ srv quiet enough, of ?p ps ?w])
  have wide: "wide_chain ps" using can views lib by (rule canonical_wide)
  have rows: "concat (map (pb_cells \<circ> snd) es) = concat (map pb_cells ps)" by (simp add: es [symmetric])
  have "length (db_cells (w_db (ls_world s))) < fuel"
    using arg_cong [OF represents_created [OF rep], of length] fuel rows by simp
  note cells = served_live_cells [OF ok rep _ q this, of snap, unfolded es rows, OF wide]
  have http: "rs_status (fst (app_service rm ex lib config env r w)) \<in> {401, 429, 500, 503} \<or>
      (\<exists>b. rs_body (fst (app_service rm ex lib config env r w)) = Payload (BlockBody b) \<and> rb_hash b = Hex32 (bv_hash (last bs)))"
    if "path_router rm" "rq_path (rr_request r) = ''/v1/blocks/latest''" "http_request.rq_method (rr_request r) = ''GET''"
      "pp_index w = w_db (ls_world s)" "\<not> ap_fault env" for rm ex lib env r and w :: app_world
    using latest_over_http [OF served_latest [OF ok can rep es wide ne, folded that(4)] that(1-3,5)] by blast
  show ?thesis
    unfolding Service_run_eq
    by (intro exI [of _ s] conjI allI impI run cells; elim conjE; rule served_blocks [OF ok can rep es wide] http)
qed

definition live_query :: CellsQuery where
  "live_query = sample_query\<lparr>cq_is_live := Some True\<rparr>"

theorem index_serves_node_chain_witness:
  "\<exists>s data. Service_run wide_lib sample_event_lib sample_service False (replicate 2 (sample_env wide_views)) empty_chain_db = Inr (False, s)
    \<and> (\<exists>r. blocks_route_by_number int_dec False (w_db (ls_world s)) (int_dec 1) = Inr r \<and> rb_hash r = Hex32 (bytes32 11))
    \<and> blocks_route_by_number int_dec False (w_db (ls_world s)) (int_dec 2) = Inl (NotFound ''block not indexed'')
    \<and> (let rs = fst (app_service ref_match demo_extractors demo_app_lib sample_config demo_app_env demo_raw (demo_app_world\<lparr>pp_index := w_db (ls_world s)\<rparr>))
        in rs_status rs \<in> {401, 429, 500, 503} \<or> (\<exists>r. rs_body rs = Payload (BlockBody r) \<and> rb_hash r = Hex32 (bytes32 11)))
    \<and> follow_cells 3 ref_cursor_lib sample_config sample_snapshot (w_db (ls_world s)) live_query = Some (Inr data)
    \<and> (\<lambda>r. (rc_tx_hash r, rc_output_index r)) ` set data = {(Hex32 (bytes32 21), 0)}"
proof -
  have rows: "concat (map pb_cells wide_blocks) = [wide_row 0 20, wide_row 1 21]" by (simp add: wide_blocks_def wide_parsed_def)
  have utxo: "chain_utxo wide_blocks = {(bytes32 21, 0)}"
    by (auto simp: chain_utxo_def utxo_def wide_blocks_def wide_parsed_def wide_row_def ref_key_def)
  have keys: "{(Hex32 (cr_tx_hash c), cr_output_index c) | c. c \<in> set (concat (map pb_cells wide_blocks)) \<and>
      filter_matches (LockFilter (bytes32 5)) (stored_of_row c) \<and> row_key_of c \<in> chain_utxo wide_blocks} = {(Hex32 (bytes32 21), 0)}"
    by (auto simp: rows utxo row_key_of_def wide_row_def stored_of_row_def intro!: exI [of _ "wide_row 1 21"])
  have q: "parse_filter ref_cursor_lib live_query = Inr (LockFilter (bytes32 5))" "parse_limit (cq_limit live_query) sample_config = Inr 1"
    using sample_filter sample_limit by (simp_all add: live_query_def parse_filter_def)
  have len: "length wide_views = 2" "wide_views \<noteq> []" by (simp_all add: wide_views_def)
  have "\<exists>s. Service_run wide_lib sample_event_lib sample_service False (replicate 2 (sample_env wide_views)) empty_chain_db = Inr (False, s) \<and>
    (\<forall>n. 0 \<le> n \<and> n \<le> i64_MAX \<longrightarrow>
       (if n < int (length wide_views)
        then \<exists>r. blocks_route_by_number int_dec False (w_db (ls_world s)) (int_dec n) = Inr r
               \<and> rb_number r = n \<and> rb_hash r = Hex32 (bv_hash (wide_views ! nat n))
        else blocks_route_by_number int_dec False (w_db (ls_world s)) (int_dec n) = Inl (NotFound ''block not indexed''))) \<and>
    (\<forall>rm ex (lib :: app_lib) env r (w :: app_world). path_router rm \<and> rq_path (rr_request r) = ''/v1/blocks/latest'' \<and>
       http_request.rq_method (rr_request r) = ''GET'' \<and> pp_index w = w_db (ls_world s) \<and> \<not> ap_fault env \<longrightarrow>
       rs_status (fst (app_service rm ex lib sample_config env r w)) \<in> {401, 429, 500, 503} \<or>
       (\<exists>b. rs_body (fst (app_service rm ex lib sample_config env r w)) = Payload (BlockBody b) \<and> rb_hash b = Hex32 (bv_hash (last wide_views)))) \<and>
    (\<exists>data. follow_cells 3 ref_cursor_lib sample_config sample_snapshot (w_db (ls_world s)) live_query = Some (Inr data) \<and>
       (\<lambda>r. (rc_tx_hash r, rc_output_index r)) ` set data = {(Hex32 (bytes32 21), 0)})"
    unfolding keys [symmetric]
    by (rule index_serves_node_chain [OF wide_canonical sample_serves _ _ _ _ wide_views_wide ref_cursor_lib_ok q])
      (simp_all add: sample_quiet len rows sample_service_def Service_new_def default_config_def live_query_def sample_query_def)
  then obtain s data where s: "Service_run wide_lib sample_event_lib sample_service False (replicate 2 (sample_env wide_views)) empty_chain_db = Inr (False, s)"
    and blocks: "\<forall>n. 0 \<le> n \<and> n \<le> i64_MAX \<longrightarrow>
       (if n < int (length wide_views)
        then \<exists>r. blocks_route_by_number int_dec False (w_db (ls_world s)) (int_dec n) = Inr r
               \<and> rb_number r = n \<and> rb_hash r = Hex32 (bv_hash (wide_views ! nat n))
        else blocks_route_by_number int_dec False (w_db (ls_world s)) (int_dec n) = Inl (NotFound ''block not indexed''))"
    and http: "\<forall>rm ex (lib :: app_lib) env r (w :: app_world). path_router rm \<and> rq_path (rr_request r) = ''/v1/blocks/latest'' \<and>
       http_request.rq_method (rr_request r) = ''GET'' \<and> pp_index w = w_db (ls_world s) \<and> \<not> ap_fault env \<longrightarrow>
       rs_status (fst (app_service rm ex lib sample_config env r w)) \<in> {401, 429, 500, 503} \<or>
       (\<exists>b. rs_body (fst (app_service rm ex lib sample_config env r w)) = Payload (BlockBody b) \<and> rb_hash b = Hex32 (bv_hash (last wide_views)))"
    and data: "follow_cells 3 ref_cursor_lib sample_config sample_snapshot (w_db (ls_world s)) live_query = Some (Inr data)"
       "(\<lambda>r. (rc_tx_hash r, rc_output_index r)) ` set data = {(Hex32 (bytes32 21), 0)}"
    by (elim exE conjE) (rule that)
  have "\<exists>r. blocks_route_by_number int_dec False (w_db (ls_world s)) (int_dec 1) = Inr r \<and> rb_hash r = Hex32 (bytes32 11)"
    "blocks_route_by_number int_dec False (w_db (ls_world s)) (int_dec 2) = Inl (NotFound ''block not indexed'')"
    using spec [OF blocks, of 1] spec [OF blocks, of 2] by (auto simp: wide_views_def wide_view_def)
  moreover have "let rs = fst (app_service ref_match demo_extractors demo_app_lib sample_config demo_app_env demo_raw (demo_app_world\<lparr>pp_index := w_db (ls_world s)\<rparr>))
      in rs_status rs \<in> {401, 429, 500, 503} \<or> (\<exists>r. rs_body rs = Payload (BlockBody r) \<and> rb_hash r = Hex32 (bytes32 11))"
    using http [rule_format, of ref_match demo_raw "demo_app_world\<lparr>pp_index := w_db (ls_world s)\<rparr>" demo_app_env demo_extractors demo_app_lib]
      first_match.path_router_axioms
    by (auto simp: Let_def wide_views_def wide_view_def demo_app_env_def demo_raw_def sample_request_def)
  ultimately show ?thesis using s data by (intro exI [of _ s] exI [of _ data] conjI)
qed

end
